theory Spec2Isabelle
  imports Main "HOL-Library.Word" "HOL-Library.Char_ord" "HOL-Library.List_Lexorder"
begin

unbundle bit_operations_syntax

section \<open>JavaScript values used by the ingestion pipeline\<close>

text \<open>
  Strings are byte strings: a JavaScript string is identified with its UTF-8 encoding, which
  is what \<^verbatim>\<open>crypto.createHash("sha256").update(data)\<close> digests. A value that may be
  missing is an option where the code only tests it or binds it to a column (\<^verbatim>\<open>undefined\<close>
  and \<^verbatim>\<open>null\<close> behave alike there). \<^verbatim>\<open>a || b\<close> yields \<open>a\<close> when
  \<open>a\<close> is truthy (defined and not the empty string) and \<open>b\<close> otherwise.
\<close>

definition truthy :: "string option \<Rightarrow> bool" where
  "truthy a = (a \<noteq> None \<and> a \<noteq> Some [])"

definition jsOr :: "string option \<Rightarrow> string option \<Rightarrow> string option" where
  "jsOr a b = (if truthy a then a else b)"

text \<open>\<^verbatim>\<open>a || "literal"\<close>, whose result is always a string.\<close>

definition jsOrStr :: "string option \<Rightarrow> string \<Rightarrow> string" where
  "jsOrStr a d = (case a of None \<Rightarrow> d | Some s \<Rightarrow> if s = [] then d else s)"

text \<open>
  The \<^verbatim>\<open>url\<close> and \<^verbatim>\<open>id\<close> of a JSON Feed item reach a template literal, which tells
  an absent field from a null one: \<^verbatim>\<open>${x}\<close> renders \<^verbatim>\<open>undefined\<close> as the text
  "undefined" and \<^verbatim>\<open>null\<close> as the text "null". These fields are strings, absent or null
  (JSON Feed types them as strings). \<^verbatim>\<open>a || b\<close> hands over \<open>b\<close> as it is when \<open>a\<close> is
  falsy; bound to a text column, \<^verbatim>\<open>undefined\<close> and \<^verbatim>\<open>null\<close> are both NULL.
\<close>

datatype jsval = Undefined | Null | Str string

definition truthyV :: "jsval \<Rightarrow> bool" where
  "truthyV v = (case v of Str s \<Rightarrow> s \<noteq> [] | _ \<Rightarrow> False)"

definition jsOrV :: "jsval \<Rightarrow> jsval \<Rightarrow> jsval" where
  "jsOrV a b = (if truthyV a then a else b)"

definition tmpl :: "jsval \<Rightarrow> string" where
  "tmpl v = (case v of Undefined \<Rightarrow> ''undefined'' | Null \<Rightarrow> ''null'' | Str s \<Rightarrow> s)"

definition strOf :: "jsval \<Rightarrow> string option" where
  "strOf v = (case v of Str s \<Rightarrow> Some s | _ \<Rightarrow> None)"

fun startsWith :: "string \<Rightarrow> string \<Rightarrow> bool" where
  "startsWith s [] = True"
| "startsWith [] (p # ps) = False"
| "startsWith (c # cs) (p # ps) = (c = p \<and> startsWith cs ps)"

fun includesStr :: "string \<Rightarrow> string \<Rightarrow> bool" where
  "includesStr [] sub = (sub = [])"
| "includesStr (c # cs) sub = (startsWith (c # cs) sub \<or> includesStr cs sub)"

text \<open>Case mapping is modelled on the ASCII letters.\<close>

definition lowerChar :: "char \<Rightarrow> char" where
  "lowerChar c =
     (case map_of (zip ''ABCDEFGHIJKLMNOPQRSTUVWXYZ'' ''abcdefghijklmnopqrstuvwxyz'') c of
        None \<Rightarrow> c | Some l \<Rightarrow> l)"

definition toLowerCase :: "string \<Rightarrow> string" where
  "toLowerCase s = map lowerChar s"

definition isSpace :: "char \<Rightarrow> bool" where
  "isSpace c = (c \<in> set [CHR '' '', CHR 0x09, CHR 0x0A, CHR 0x0B, CHR 0x0C, CHR 0x0D])"

definition trim :: "string \<Rightarrow> string" where
  "trim s = rev (dropWhile isSpace (rev (dropWhile isSpace s)))"

section \<open>SHA-256 and hexadecimal digests\<close>

text \<open>
  \<^verbatim>\<open>crypto.createHash("sha256").update(data).digest("hex")\<close>: the FIPS 180-4 hash on
  32-bit words, printed as 64 lower-case hexadecimal digits.
\<close>

type_synonym w32 = "32 word"
type_synonym byte = "8 word"
type_synonym sha_state = "w32 \<times> w32 \<times> w32 \<times> w32 \<times> w32 \<times> w32 \<times> w32 \<times> w32"

text \<open>The round constants and the initial state of FIPS 180-4, as decimal numerals.\<close>

definition K256 :: "w32 list" where
  "K256 = [
  1116352408, 1899447441, 3049323471, 3921009573, 961987163, 1508970993, 2453635748, 2870763221,
  3624381080, 310598401, 607225278, 1426881987, 1925078388, 2162078206, 2614888103, 3248222580,
  3835390401, 4022224774, 264347078, 604807628, 770255983, 1249150122, 1555081692, 1996064986,
  2554220882, 2821834349, 2952996808, 3210313671, 3336571891, 3584528711, 113926993, 338241895,
  666307205, 773529912, 1294757372, 1396182291, 1695183700, 1986661051, 2177026350, 2456956037,
  2730485921, 2820302411, 3259730800, 3345764771, 3516065817, 3600352804, 4094571909, 275423344,
  430227734, 506948616, 659060556, 883997877, 958139571, 1322822218, 1537002063, 1747873779,
  1955562222, 2024104815, 2227730452, 2361852424, 2428436474, 2756734187, 3204031479, 3329325298]"

definition H0 :: sha_state where
  "H0 = (1779033703, 3144134277, 1013904242, 2773480762,
         1359893119, 2600822924, 528734635, 1541459225)"

definition rotr :: "nat \<Rightarrow> w32 \<Rightarrow> w32" where
  "rotr n x = word_rotr n x"

definition Ch :: "w32 \<Rightarrow> w32 \<Rightarrow> w32 \<Rightarrow> w32" where
  "Ch x y z = (x AND y) XOR (NOT x AND z)"

definition Maj :: "w32 \<Rightarrow> w32 \<Rightarrow> w32 \<Rightarrow> w32" where
  "Maj x y z = (x AND y) XOR (x AND z) XOR (y AND z)"

definition bsig0 :: "w32 \<Rightarrow> w32" where
  "bsig0 x = rotr 2 x XOR rotr 13 x XOR rotr 22 x"

definition bsig1 :: "w32 \<Rightarrow> w32" where
  "bsig1 x = rotr 6 x XOR rotr 11 x XOR rotr 25 x"

definition ssig0 :: "w32 \<Rightarrow> w32" where
  "ssig0 x = rotr 7 x XOR rotr 18 x XOR drop_bit 3 x"

definition ssig1 :: "w32 \<Rightarrow> w32" where
  "ssig1 x = rotr 17 x XOR rotr 19 x XOR drop_bit 10 x"

text \<open>The message schedule, built newest word first: \<open>ws ! 1\<close> is \<open>W(t-2)\<close>.\<close>

fun schedule :: "nat \<Rightarrow> w32 list \<Rightarrow> w32 list" where
  "schedule 0 ws = ws"
| "schedule (Suc n) ws =
     schedule n ((ssig1 (ws ! 1) + ws ! 6 + ssig0 (ws ! 14) + ws ! 15) # ws)"

definition round1 :: "sha_state \<Rightarrow> w32 \<times> w32 \<Rightarrow> sha_state" where
  "round1 st kw = (case st of (a, b, c, d, e, f, g, h) \<Rightarrow> case kw of (k, w) \<Rightarrow>
     (let t1 = h + bsig1 e + Ch e f g + k + w;
          t2 = bsig0 a + Maj a b c
      in (t1 + t2, a, b, c, d + t1, e, f, g)))"

definition compress :: "sha_state \<Rightarrow> w32 list \<Rightarrow> sha_state" where
  "compress st block =
     (case st of (a, b, c, d, e, f, g, h) \<Rightarrow>
      case foldl round1 st (zip K256 (rev (schedule 48 (rev block)))) of
        (a', b', c', d', e', f', g', h') \<Rightarrow>
          (a + a', b + b', c + c', d + d', e + e', f + f', g + g', h + h'))"

fun be32 :: "byte list \<Rightarrow> w32 list" where
  "be32 (a # b # c # d # bs) =
     (push_bit 24 (ucast a) OR push_bit 16 (ucast b) OR push_bit 8 (ucast c) OR ucast d) # be32 bs"
| "be32 _ = []"

definition pad :: "byte list \<Rightarrow> byte list" where
  "pad m = m @ [0x80] @ replicate ((119 - length m mod 64) mod 64) 0
             @ map (\<lambda>i. ucast (drop_bit (8 * (7 - i)) (8 * (of_nat (length m) :: 64 word))))
                 [0..<8]"

fun blocks :: "nat \<Rightarrow> sha_state \<Rightarrow> w32 list \<Rightarrow> sha_state" where
  "blocks 0 st ws = st"
| "blocks (Suc n) st ws = blocks n (compress st (take 16 ws)) (drop 16 ws)"

definition sha256 :: "byte list \<Rightarrow> w32 list" where
  "sha256 m = (let ws = be32 (pad m) in
     case blocks (length ws div 16) H0 ws of
       (a, b, c, d, e, f, g, h) \<Rightarrow> [a, b, c, d, e, f, g, h])"

definition hexdigit :: "4 word \<Rightarrow> char" where
  "hexdigit n = ''0123456789abcdef'' ! unat n"

definition hex32 :: "w32 \<Rightarrow> string" where
  "hex32 w = map (\<lambda>i. hexdigit (ucast (drop_bit (4 * (7 - i)) w))) [0..<8]"

definition sha256_hex :: "string \<Rightarrow> string" where
  "sha256_hex s = concat (map hex32 (sha256 (map of_char s)))"

section \<open>Feed parser: content hash\<close>

text \<open>
  \<^verbatim>\<open>generateContentHash(url, title, content)\<close> of the feed parser: the local
  \<^verbatim>\<open>data\<close> is \<open>hashData\<close>, and \<^verbatim>\<open>.substring(0, 16)\<close> keeps the first 16 characters.
\<close>

definition hashData :: "string \<Rightarrow> string \<Rightarrow> string \<Rightarrow> string" where
  "hashData url title content = url @ ''|'' @ title @ ''|'' @ content"

definition generateContentHash :: "string \<Rightarrow> string \<Rightarrow> string \<Rightarrow> string" where
  "generateContentHash url title content = take 16 (sha256_hex (hashData url title content))"

section \<open>Errors, HTTP and the environment\<close>

text \<open>
  Every exception of the source is an \<^verbatim>\<open>Error\<close> object with a message. A function that
  may throw returns \<open>error + 'a\<close>; a function that also writes to the database returns
  the value or the error together with the database as it is at that moment.
\<close>

datatype error = Error string

fun message :: "error \<Rightarrow> string" where
  "message (Error m) = m"

datatype feedType = Rss | Atom | JsonFeed

datatype discoveryMethod = WellKnownPath | HtmlLinkTag | Manual

datatype syncStatus = Success | SyncError

text \<open>
  What the code reads of a \<^verbatim>\<open>fetch\<close> response. \<^verbatim>\<open>response.ok\<close> is true for the
  status codes 200 to 299.
\<close>

record HttpResponse =
  status :: nat
  statusText :: string
  contentTypeHeader :: "string option"
  etagHeader :: "string option"
  lastModifiedHeader :: "string option"
  body :: string

definition ok :: "HttpResponse \<Rightarrow> bool" where
  "ok r = (200 \<le> status r \<and> status r \<le> 299)"

text \<open>
  Items and feeds as the parsers hand them over: rss-parser for RSS and Atom, JSON.parse for
  JSON Feed. rss-parser hands over \<^verbatim>\<open>content:encoded\<close> as \<open>contentEncoded\<close> (the
  custom field of the parser) and the description of an RSS item, or the content of an Atom
  entry, as \<open>content\<close>.
\<close>

record RssItem =
  ri_title :: "string option"
  ri_link :: "string option"
  ri_guid :: "string option"
  ri_contentEncoded :: "string option"
  ri_content_encoded :: "string option"
  ri_content :: "string option"
  ri_contentSnippet :: "string option"
  ri_description :: "string option"
  ri_pubDate :: "string option"
  ri_creator :: "string option"
  ri_dc_creator :: "string option"
  ri_author_name :: "string option"

record RssFeed =
  rf_title :: "string option"
  rf_description :: "string option"
  rf_link :: "string option"
  rf_items :: "RssItem list option"

record JsonItem =
  ji_url :: jsval
  ji_id :: jsval
  ji_title :: "string option"
  ji_content_html :: "string option"
  ji_content_text :: "string option"
  ji_summary :: "string option"
  ji_date_published :: "string option"
  ji_author_name :: "string option"

record JsonFeedDoc =
  jf_title :: "string option"
  jf_description :: "string option"
  jf_home_page_url :: "string option"
  jf_items :: "JsonItem list option"

text \<open>
  The services the code calls and does not define: the network, the two feed parsers, the
  URL and Date classes, the clock, the id generator and the HTML parser. A failing call
  (a rejected promise, a thrown exception) is \<open>Inl\<close> with the error, or \<open>None\<close>.
  \<open>nanoid\<close> is indexed by the number of ids drawn so far; the clock is read as one
  value for the run of one operation.
\<close>

record env =
  httpGet :: "string \<Rightarrow> (string \<times> string) list \<Rightarrow> error + HttpResponse"
  resolveUrl :: "string \<Rightarrow> string \<Rightarrow> error + string"
  parseString :: "string \<Rightarrow> error + RssFeed"
  jsonParseFeed :: "string \<Rightarrow> error + JsonFeedDoc"
  jsonVersion :: "string \<Rightarrow> string option"
  xmlText :: "string \<Rightarrow> string \<Rightarrow> string"
  alternateLinks :: "string \<Rightarrow> (string option \<times> string option) list"
  toISOString :: "string \<Rightarrow> error + string"
  now :: string
  nanoid :: "nat \<Rightarrow> string"

fun mapE :: "('a \<Rightarrow> error + 'b) \<Rightarrow> 'a list \<Rightarrow> error + 'b list" where
  "mapE f [] = Inr []"
| "mapE f (x # xs) =
     (case f x of Inl e \<Rightarrow> Inl e
      | Inr y \<Rightarrow> (case mapE f xs of Inl e \<Rightarrow> Inl e | Inr ys \<Rightarrow> Inr (y # ys)))"

function showNat :: "nat \<Rightarrow> string" where
  "showNat n = (if n < 10 then [''0123456789'' ! n]
                else showNat (n div 10) @ [''0123456789'' ! (n mod 10)])"
  by pat_completeness auto
termination
  by (relation "measure id") auto

section \<open>Feed parser\<close>

record ParsedFeedItem =
  pf_title :: string
  pf_url :: "string option"
  pf_description :: "string option"
  pf_contentHtml :: "string option"
  pf_publishedAt :: string
  pf_author :: "string option"
  pf_hash :: string
  pf_guid :: "string option"

record ParsedFeed =
  feed_title :: "string option"
  feed_description :: "string option"
  feed_link :: "string option"
  feed_items :: "ParsedFeedItem list"

record FeedFetchResult =
  ffr_feed :: ParsedFeed
  ffr_etag :: "string option"
  ffr_lastModified :: "string option"
  ffr_feedType :: feedType

text \<open>\<^verbatim>\<open>.replace(/<[^>]*>/g, "")\<close>: a \<open><\<close> is dropped with everything up to the next \<open>>\<close>, if there is one.\<close>

fun stripTags :: "bool \<Rightarrow> string \<Rightarrow> string" where
  "stripTags inTag [] = []"
| "stripTags True (c # cs) = (if c = CHR ''>'' then stripTags False cs else stripTags True cs)"
| "stripTags False (c # cs) =
     (if c = CHR ''<'' \<and> CHR ''>'' \<in> set cs then stripTags True cs else c # stripTags False cs)"

text \<open>\<^verbatim>\<open>.replace(/pat/g, rep)\<close> for a literal pattern; \<open>skip\<close> counts the characters of a match still to drop.\<close>

fun replaceAll :: "nat \<Rightarrow> string \<Rightarrow> string \<Rightarrow> string \<Rightarrow> string" where
  "replaceAll skip pat rep [] = []"
| "replaceAll (Suc k) pat rep (c # cs) = replaceAll k pat rep cs"
| "replaceAll 0 pat rep (c # cs) =
     (if pat \<noteq> [] \<and> startsWith (c # cs) pat then rep @ replaceAll (length pat - 1) pat rep cs
      else c # replaceAll 0 pat rep cs)"

definition stripHtmlTags :: "string \<Rightarrow> string" where
  "stripHtmlTags html =
     trim (replaceAll 0 ''&#39;'' [CHR 0x27]
          (replaceAll 0 ''&quot;'' [CHR 0x22]
          (replaceAll 0 ''&gt;'' ''>''
          (replaceAll 0 ''&lt;'' ''<''
          (replaceAll 0 ''&amp;'' ''&''
          (replaceAll 0 ''&nbsp;'' '' ''
          (stripTags False html)))))))"

definition truncateText :: "string \<Rightarrow> nat \<Rightarrow> string" where
  "truncateText text maxLength =
     (if length text \<le> maxLength then text else take (maxLength - 3) text @ ''...'')"

text \<open>\<^verbatim>\<open>d ? new Date(d).toISOString() : new Date().toISOString()\<close>\<close>

definition publishedAtOf :: "env \<Rightarrow> string option \<Rightarrow> error + string" where
  "publishedAtOf env d = (if truthy d then toISOString env (the d) else Inr (now env))"

text \<open>The body of the \<^verbatim>\<open>map\<close> callback in \<^verbatim>\<open>parseRssOrAtom\<close>.\<close>

definition parseRssItem :: "env \<Rightarrow> RssItem \<Rightarrow> error + ParsedFeedItem" where
  "parseRssItem env item =
     (let contentHtml =
            jsOr (jsOr (jsOr (ri_contentEncoded item) (ri_content_encoded item)) (ri_content item)) None;
          author =
            jsOr (jsOr (jsOr (jsOr (ri_creator item) (ri_dc_creator item)) (ri_creator item))
                   (ri_author_name item)) None;
          guid = jsOrStr (jsOr (ri_guid item) (ri_link item)) [];
          url = jsOrStr (ri_link item) guid;
          hash = generateContentHash url (jsOrStr (ri_title item) []) (jsOrStr contentHtml [])
      in case publishedAtOf env (ri_pubDate item) of
           Inl e \<Rightarrow> Inl e
         | Inr published \<Rightarrow> Inr \<lparr>
             pf_title = jsOrStr (ri_title item) ''Untitled'',
             pf_url = Some url,
             pf_description =
               Some (stripHtmlTags (jsOrStr (jsOr (ri_contentSnippet item) (ri_description item)) [])),
             pf_contentHtml = contentHtml,
             pf_publishedAt = published,
             pf_author = author,
             pf_hash = hash,
             pf_guid = Some guid \<rparr>)"

definition parseRssOrAtom :: "env \<Rightarrow> string \<Rightarrow> error + ParsedFeed" where
  "parseRssOrAtom env content =
     (case parseString env content of
        Inl e \<Rightarrow> Inl e
      | Inr feed \<Rightarrow>
          (case mapE (parseRssItem env) (case rf_items feed of None \<Rightarrow> [] | Some its \<Rightarrow> its) of
             Inl e \<Rightarrow> Inl e
           | Inr items \<Rightarrow> Inr \<lparr> feed_title = rf_title feed, feed_description = rf_description feed,
                                feed_link = rf_link feed, feed_items = items \<rparr>))"

text \<open>The body of the \<^verbatim>\<open>map\<close> callback in \<^verbatim>\<open>parseJsonFeed\<close>.\<close>

definition parseJsonItem :: "env \<Rightarrow> JsonItem \<Rightarrow> error + ParsedFeedItem" where
  "parseJsonItem env item =
     (let url = jsOrV (ji_url item) (ji_id item);
          contentHtml = jsOr (ji_content_html item) None;
          hash = generateContentHash (tmpl url) (jsOrStr (ji_title item) [])
                   (jsOrStr (jsOr contentHtml (ji_content_text item)) [])
      in case publishedAtOf env (ji_date_published item) of
           Inl e \<Rightarrow> Inl e
         | Inr published \<Rightarrow> Inr \<lparr>
             pf_title = jsOrStr (ji_title item) ''Untitled'',
             pf_url = strOf url,
             pf_description =
               Some (if truthy (ji_summary item) then the (ji_summary item)
                     else stripHtmlTags (jsOrStr (ji_content_text item) [])),
             pf_contentHtml = contentHtml,
             pf_publishedAt = published,
             pf_author = ji_author_name item,
             pf_hash = hash,
             pf_guid = strOf (ji_id item) \<rparr>)"

definition parseJsonFeed :: "env \<Rightarrow> string \<Rightarrow> error + ParsedFeed" where
  "parseJsonFeed env content =
     (case jsonParseFeed env content of
        Inl e \<Rightarrow> Inl e
      | Inr feed \<Rightarrow>
          (case mapE (parseJsonItem env) (case jf_items feed of None \<Rightarrow> [] | Some its \<Rightarrow> its) of
             Inl e \<Rightarrow> Inl e
           | Inr items \<Rightarrow> Inr \<lparr> feed_title = jf_title feed, feed_description = jf_description feed,
                                feed_link = jf_home_page_url feed, feed_items = items \<rparr>))"

definition userAgent :: "string \<times> string" where
  "userAgent = (''User-Agent'', ''Curators-Desk-Feed-Reader/1.0'')"

definition conditionalHeaders :: "string option \<Rightarrow> string option \<Rightarrow> (string \<times> string) list" where
  "conditionalHeaders etag lastModified =
     [userAgent]
     @ (if truthy etag then [(''If-None-Match'', the etag)] else [])
     @ (if truthy lastModified then [(''If-Modified-Since'', the lastModified)] else [])"

text \<open>\<^verbatim>\<open>fetchAndParseFeed\<close>: \<open>Inr None\<close> is the \<^verbatim>\<open>null\<close> returned on 304.\<close>

definition fetchAndParseFeed ::
  "env \<Rightarrow> string \<Rightarrow> feedType \<Rightarrow> string option \<Rightarrow> string option \<Rightarrow> error + FeedFetchResult option"
where
  "fetchAndParseFeed env feedUrl ft etag lastModified =
     (case httpGet env feedUrl (conditionalHeaders etag lastModified) of
        Inl e \<Rightarrow> Inl e
      | Inr response \<Rightarrow>
          if status response = 304 then Inr None
          else if \<not> ok response
          then Inl (Error (''HTTP '' @ showNat (status response) @ '': '' @ statusText response))
          else
            (case (if ft = JsonFeed then parseJsonFeed env (body response)
                   else parseRssOrAtom env (body response)) of
               Inl e \<Rightarrow> Inl e
             | Inr parsedFeed \<Rightarrow> Inr (Some \<lparr>
                 ffr_feed = parsedFeed,
                 ffr_etag = jsOr (etagHeader response) None,
                 ffr_lastModified = jsOr (lastModifiedHeader response) None,
                 ffr_feedType = ft \<rparr>)))"

section \<open>Content store\<close>

text \<open>
  The tables the ingestion code reads and writes, each a list of rows in insertion order.
  Columns that this code only ever writes as \<^verbatim>\<open>null\<close> are left out. An insert fails
  (the driver throws) on a primary key that is already present and on \<^verbatim>\<open>null\<close> in a
  \<^verbatim>\<open>notNull\<close> column; foreign keys are not enforced.
\<close>

record RssSource =
  src_sourceId :: string
  src_userId :: string
  src_siteUrl :: string
  src_feedUrl :: string
  src_feedType :: feedType
  src_feedTitle :: "string option"
  src_feedDescription :: "string option"
  src_discoveryMethod :: discoveryMethod
  src_etag :: "string option"
  src_lastModified :: "string option"
  src_lastCheckedAt :: "string option"
  src_lastSyncedAt :: "string option"
  src_lastSyncStatus :: "syncStatus option"
  src_lastSyncError :: "string option"
  src_addedAt :: string
  src_isActive :: bool

record Creator =
  cr_creatorId :: string
  cr_sourceType :: string
  cr_externalId :: string
  cr_name :: string
  cr_handle :: "string option"
  cr_bio :: "string option"
  cr_profileUrl :: "string option"
  cr_firstSeenAt :: string
  cr_lastUpdatedAt :: "string option"

text \<open>The JSON text of the metadata column, by the object that is stringified.\<close>

datatype metadata = RssMeta "string option" "string option" | SubstackMeta string

record ContentItem =
  ci_contentId :: string
  ci_creatorId :: string
  ci_sourceType :: string
  ci_externalId :: string
  ci_title :: string
  ci_description :: "string option"
  ci_contentUrl :: string
  ci_mediaType :: "string option"
  ci_publishedAt :: string
  ci_addedAt :: string
  ci_updatedAt :: "string option"
  ci_metadata :: metadata
  ci_isArchived :: bool
  ci_contentHash :: "string option"

record UserSubscription =
  sub_userId :: string
  sub_creatorId :: string
  sub_subscribedAt :: string
  sub_isActive :: bool
  sub_notificationsEnabled :: bool

record ProcessedMessage =
  pm_messageId :: string
  pm_userId :: string
  pm_gmailConnectionId :: string
  pm_contentHash :: string
  pm_processedAt :: string
  pm_substackAuthor :: "string option"
  pm_substackPostUrl :: "string option"
  pm_contentId :: "string option"

record GmailConnection =
  gc_gmailConnectionId :: string
  gc_userId :: string
  gc_lastSyncedAt :: "string option"

record db =
  rssSources :: "RssSource list"
  creators :: "Creator list"
  contentItems :: "ContentItem list"
  userSubscriptions :: "UserSubscription list"
  gmailProcessedMessages :: "ProcessedMessage list"
  gmailConnections :: "GmailConnection list"
  nanoidCalls :: nat

definition uniqueViolation :: "string \<Rightarrow> error" where
  "uniqueViolation column = Error (''SQLITE_CONSTRAINT: UNIQUE constraint failed: '' @ column)"

definition notNullViolation :: "string \<Rightarrow> error" where
  "notNullViolation column = Error (''SQLITE_CONSTRAINT: NOT NULL constraint failed: '' @ column)"

definition insertCreator :: "Creator \<Rightarrow> db \<Rightarrow> error + db" where
  "insertCreator row d =
     (if cr_creatorId row \<in> set (map cr_creatorId (creators d))
      then Inl (uniqueViolation ''creators.creator_id'')
      else Inr (d\<lparr>creators := creators d @ [row]\<rparr>))"

definition insertContentItem :: "ContentItem \<Rightarrow> db \<Rightarrow> error + db" where
  "insertContentItem row d =
     (if ci_contentId row \<in> set (map ci_contentId (contentItems d))
      then Inl (uniqueViolation ''content_items.content_id'')
      else Inr (d\<lparr>contentItems := contentItems d @ [row]\<rparr>))"

definition insertProcessedMessage :: "ProcessedMessage \<Rightarrow> db \<Rightarrow> error + db" where
  "insertProcessedMessage row d =
     (if pm_messageId row \<in> set (map pm_messageId (gmailProcessedMessages d))
      then Inl (uniqueViolation ''gmail_processed_messages.message_id'')
      else Inr (d\<lparr>gmailProcessedMessages := gmailProcessedMessages d @ [row]\<rparr>))"

definition insertSubscription :: "UserSubscription \<Rightarrow> db \<Rightarrow> error + db" where
  "insertSubscription row d =
     (if (sub_userId row, sub_creatorId row)
           \<in> set (map (\<lambda>s. (sub_userId s, sub_creatorId s)) (userSubscriptions d))
      then Inl (uniqueViolation ''user_subscriptions.user_id, user_subscriptions.creator_id'')
      else Inr (d\<lparr>userSubscriptions := userSubscriptions d @ [row]\<rparr>))"

text \<open>\<^verbatim>\<open>nanoid()\<close>: the next id of the environment, and the database with the draw counted.\<close>

definition drawId :: "env \<Rightarrow> db \<Rightarrow> string \<times> db" where
  "drawId env d = (nanoid env (nanoidCalls d), d\<lparr>nanoidCalls := Suc (nanoidCalls d)\<rparr>)"

section \<open>RSS repository\<close>

definition getSource :: "db \<Rightarrow> string \<Rightarrow> RssSource option" where
  "getSource d sourceId =
     (case take 1 (filter (\<lambda>s. src_sourceId s = sourceId) (rssSources d)) of
        [] \<Rightarrow> None | row # rest \<Rightarrow> Some row)"

definition getUserSources :: "db \<Rightarrow> string \<Rightarrow> RssSource list" where
  "getUserSources d userId =
     rev (sort_key src_addedAt
            (filter (\<lambda>s. src_userId s = userId \<and> src_isActive s = True) (rssSources d)))"

definition updateSourceSync :: "env \<Rightarrow> string \<Rightarrow> syncStatus \<Rightarrow> string option \<Rightarrow> db \<Rightarrow> db" where
  "updateSourceSync env sourceId st err d =
     d\<lparr>rssSources := map (\<lambda>s. if src_sourceId s = sourceId
          then s\<lparr> src_lastCheckedAt := Some (now env),
                  src_lastSyncedAt := (if st = Success then Some (now env) else src_lastSyncedAt s),
                  src_lastSyncStatus := Some st,
                  src_lastSyncError := jsOr err None \<rparr>
          else s) (rssSources d)\<rparr>"

definition updateSourceHeaders :: "string \<Rightarrow> string option \<Rightarrow> string option \<Rightarrow> db \<Rightarrow> db" where
  "updateSourceHeaders sourceId etag lastModified d =
     d\<lparr>rssSources := map (\<lambda>s. if src_sourceId s = sourceId
          then s\<lparr> src_etag := jsOr etag None, src_lastModified := jsOr lastModified None \<rparr>
          else s) (rssSources d)\<rparr>"

definition upsertCreator ::
  "env \<Rightarrow> string \<Rightarrow> string \<Rightarrow> string option \<Rightarrow> db \<Rightarrow> (error + string) \<times> db" where
  "upsertCreator env feedUrl feedTitle feedDescription d =
     (case take 1 (filter (\<lambda>c. cr_sourceType c = ''rss'' \<and> cr_externalId c = feedUrl) (creators d)) of
        existing # rest \<Rightarrow>
          (Inr (cr_creatorId existing),
           d\<lparr>creators := map (\<lambda>c. if cr_creatorId c = cr_creatorId existing
                then c\<lparr> cr_name := feedTitle, cr_bio := jsOr feedDescription None,
                        cr_lastUpdatedAt := Some (now env) \<rparr>
                else c) (creators d)\<rparr>)
      | [] \<Rightarrow>
          (case drawId env d of (newId, d1) \<Rightarrow>
             (case insertCreator \<lparr>
                     cr_creatorId = ''rss-'' @ newId,
                     cr_sourceType = ''rss'',
                     cr_externalId = feedUrl,
                     cr_name = feedTitle,
                     cr_handle = None,
                     cr_bio = jsOr feedDescription None,
                     cr_profileUrl = Some feedUrl,
                     cr_firstSeenAt = now env,
                     cr_lastUpdatedAt = Some (now env) \<rparr> d1 of
                Inl e \<Rightarrow> (Inl e, d1)
              | Inr d2 \<Rightarrow> (Inr (''rss-'' @ newId), d2))))"

text \<open>The row that \<^verbatim>\<open>upsertPosts\<close> inserts for a new post, once its two \<^verbatim>\<open>notNull\<close> urls are known.\<close>

definition newContentItem ::
  "env \<Rightarrow> string \<Rightarrow> string \<Rightarrow> string \<Rightarrow> string \<Rightarrow> ParsedFeedItem \<Rightarrow> ContentItem" where
  "newContentItem env contentId creatorId externalId contentUrl post = \<lparr>
     ci_contentId = contentId,
     ci_creatorId = creatorId,
     ci_sourceType = ''rss'',
     ci_externalId = externalId,
     ci_title = pf_title post,
     ci_description = Some (truncateText (jsOrStr (pf_description post) []) 500),
     ci_contentUrl = contentUrl,
     ci_mediaType = Some ''article'',
     ci_publishedAt = pf_publishedAt post,
     ci_addedAt = now env,
     ci_updatedAt = None,
     ci_metadata = RssMeta (pf_author post) (pf_contentHtml post),
     ci_isArchived = False,
     ci_contentHash = Some (pf_hash post) \<rparr>"

text \<open>
  The loop of \<^verbatim>\<open>upsertPosts\<close>, with \<open>newPostsCount\<close> as the accumulator. The lookup is
  by source type and content hash alone, first match (\<^verbatim>\<open>limit(1)\<close>).
\<close>

fun upsertPostsLoop ::
  "env \<Rightarrow> string \<Rightarrow> ParsedFeedItem list \<Rightarrow> nat \<Rightarrow> db \<Rightarrow> (error + nat) \<times> db" where
  "upsertPostsLoop env creatorId [] newPostsCount d = (Inr newPostsCount, d)"
| "upsertPostsLoop env creatorId (post # posts) newPostsCount d =
     (case take 1 (filter (\<lambda>r. ci_sourceType r = ''rss'' \<and> ci_contentHash r = Some (pf_hash post))
                     (contentItems d)) of
        existingPost # rest \<Rightarrow>
          (if ci_contentHash existingPost \<noteq> Some (pf_hash post)
           then upsertPostsLoop env creatorId posts newPostsCount
                  (d\<lparr>contentItems := map (\<lambda>r. if ci_contentId r = ci_contentId existingPost
                       then r\<lparr> ci_title := pf_title post,
                               ci_description :=
                                 Some (truncateText (jsOrStr (pf_description post) []) 500),
                               ci_contentHash := Some (pf_hash post),
                               ci_updatedAt := Some (now env) \<rparr>
                       else r) (contentItems d)\<rparr>)
           else upsertPostsLoop env creatorId posts newPostsCount d)
      | [] \<Rightarrow>
          (case drawId env d of (contentId, d1) \<Rightarrow>
             (case jsOr (pf_guid post) (pf_url post) of
                None \<Rightarrow> (Inl (notNullViolation ''content_items.external_id''), d1)
              | Some externalId \<Rightarrow>
                  (case pf_url post of
                     None \<Rightarrow> (Inl (notNullViolation ''content_items.content_url''), d1)
                   | Some contentUrl \<Rightarrow>
                       (case insertContentItem
                               (newContentItem env contentId creatorId externalId contentUrl post) d1 of
                          Inl e \<Rightarrow> (Inl e, d1)
                        | Inr d2 \<Rightarrow> upsertPostsLoop env creatorId posts (Suc newPostsCount) d2)))))"

definition upsertPosts ::
  "env \<Rightarrow> string \<Rightarrow> ParsedFeedItem list \<Rightarrow> db \<Rightarrow> (error + nat) \<times> db" where
  "upsertPosts env creatorId posts d = upsertPostsLoop env creatorId posts 0 d"

section \<open>RSS ingestion service\<close>

text \<open>The \<^verbatim>\<open>try\<close> block of \<^verbatim>\<open>syncSource\<close>.\<close>

definition syncSourceTry :: "env \<Rightarrow> string \<Rightarrow> RssSource \<Rightarrow> db \<Rightarrow> (error + unit) \<times> db" where
  "syncSourceTry env sourceId source d =
     (case fetchAndParseFeed env (src_feedUrl source) (src_feedType source)
             (jsOr (src_etag source) None) (jsOr (src_lastModified source) None) of
        Inl e \<Rightarrow> (Inl e, d)
      | Inr None \<Rightarrow> (Inr (), updateSourceSync env sourceId Success None d)
      | Inr (Some result) \<Rightarrow>
          (case upsertCreator env (src_feedUrl source)
                  (jsOrStr (jsOr (feed_title (ffr_feed result)) (src_feedTitle source)) ''Untitled Blog'')
                  (jsOr (feed_description (ffr_feed result)) (src_feedDescription source))
                  (updateSourceHeaders sourceId (ffr_etag result) (ffr_lastModified result) d) of
             (Inl e, d2) \<Rightarrow> (Inl e, d2)
           | (Inr creatorId, d2) \<Rightarrow>
               (case upsertPosts env creatorId (feed_items (ffr_feed result)) d2 of
                  (Inl e, d3) \<Rightarrow> (Inl e, d3)
                | (Inr newPostsCount, d3) \<Rightarrow> (Inr (), updateSourceSync env sourceId Success None d3))))"

definition syncSource :: "env \<Rightarrow> string \<Rightarrow> db \<Rightarrow> (error + unit) \<times> db" where
  "syncSource env sourceId d =
     (case getSource d sourceId of
        None \<Rightarrow> (Inl (Error (''Source not found or inactive: '' @ sourceId)), d)
      | Some source \<Rightarrow>
          if \<not> src_isActive source
          then (Inl (Error (''Source not found or inactive: '' @ sourceId)), d)
          else
            (case syncSourceTry env sourceId source d of
               (Inl e, d') \<Rightarrow> (Inl e, updateSourceSync env sourceId SyncError (Some (message e)) d')
             | (Inr u, d') \<Rightarrow> (Inr (), d')))"

text \<open>The loop of \<^verbatim>\<open>syncAllSources\<close>: an error of \<^verbatim>\<open>syncSource\<close> is caught and logged.\<close>

fun syncEach :: "env \<Rightarrow> RssSource list \<Rightarrow> db \<Rightarrow> (error + unit) \<times> db" where
  "syncEach env [] d = (Inr (), d)"
| "syncEach env (source # sources) d =
     (case syncSource env (src_sourceId source) d of
        (Inl e, d') \<Rightarrow> syncEach env sources d'
      | (Inr u, d') \<Rightarrow> syncEach env sources d')"

definition syncAllSources :: "env \<Rightarrow> string \<Rightarrow> db \<Rightarrow> (error + unit) \<times> db" where
  "syncAllSources env userId d = syncEach env (getUserSources d userId) d"

text \<open>The conditional fetch that \<^verbatim>\<open>syncSource\<close> issues for a source row.\<close>

definition fetchFor :: "env \<Rightarrow> RssSource \<Rightarrow> error + FeedFetchResult option" where
  "fetchFor env source =
     fetchAndParseFeed env (src_feedUrl source) (src_feedType source)
       (jsOr (src_etag source) None) (jsOr (src_lastModified source) None)"

section \<open>Feed discovery\<close>

record FeedDiscoveryResult =
  fd_feedUrl :: string
  fd_feedType :: feedType
  fd_discoveryMethod :: discoveryMethod
  fd_feedTitle :: "string option"
  fd_feedDescription :: "string option"
  fd_siteUrl :: string

record FeedCheckResult =
  fc_success :: bool
  fc_feedUrl :: "string option"
  fc_feedType :: "feedType option"
  fc_feedTitle :: "string option"
  fc_feedDescription :: "string option"
  fc_etag :: "string option"
  fc_lastModified :: "string option"

definition WELL_KNOWN_PATHS :: "string list" where
  "WELL_KNOWN_PATHS =
     [''/feed.xml'', ''/rss.xml'', ''/atom.xml'', ''/feed/'', ''/index.xml'', ''/feed.json'',
      ''/rss/'', ''/feeds/rss.xml'']"

definition normalizeSiteUrl :: "string \<Rightarrow> string" where
  "normalizeSiteUrl url =
     (let trimmed = trim url;
          normalized = (if \<not> startsWith trimmed ''http://'' \<and> \<not> startsWith trimmed ''https://''
                        then ''https://'' @ trimmed else trimmed)
      in if normalized \<noteq> [] \<and> last normalized = CHR ''/'' then butlast normalized else normalized)"

definition detectFeedType :: "string \<Rightarrow> string \<Rightarrow> feedType option" where
  "detectFeedType contentType url =
     (let ct = toLowerCase contentType in
      if includesStr ct ''application/rss+xml'' \<or> includesStr ct ''application/xml'' then Some Rss
      else if includesStr ct ''application/atom+xml'' then Some Atom
      else if includesStr ct ''application/json'' \<or> includesStr ct ''application/feed+json''
      then Some JsonFeed
      else if includesStr url ''atom'' then Some Atom
      else if includesStr url ''json'' then Some JsonFeed
      else if includesStr url ''rss'' \<or> includesStr url ''feed'' then Some Rss
      else None)"

text \<open>
  \<open>jsonVersion env content\<close> is the \<^verbatim>\<open>version\<close> of \<^verbatim>\<open>JSON.parse(content)\<close>, and
  \<open>None\<close> when the text does not parse or has none.
\<close>

definition detectFeedTypeFromContent :: "env \<Rightarrow> string \<Rightarrow> feedType option" where
  "detectFeedTypeFromContent env content =
     (if startsWith (trim content) ''{'' \<and> truthy (jsonVersion env content)
         \<and> includesStr (the (jsonVersion env content)) ''https://jsonfeed.org''
      then Some JsonFeed
      else if includesStr content ''<feed''
              \<and> includesStr content (''xmlns='' @ [CHR 0x22] @ ''http://www.w3.org/2005/Atom'' @ [CHR 0x22])
      then Some Atom
      else if includesStr content ''<rss'' \<or> includesStr content ''<channel>'' then Some Rss
      else None)"

definition extractFeedMetadata :: "env \<Rightarrow> string \<Rightarrow> feedType \<Rightarrow> string option \<times> string option" where
  "extractFeedMetadata env content ft =
     (if ft = JsonFeed
      then (case jsonParseFeed env content of
              Inl e \<Rightarrow> (None, None)
            | Inr feed \<Rightarrow> (jf_title feed, jf_description feed))
      else if ft = Atom
      then (Some (xmlText env ''feed > title'' content), Some (xmlText env ''feed > subtitle'' content))
      else (Some (xmlText env ''channel > title'' content),
            Some (xmlText env ''channel > description'' content)))"

definition checkFailed :: FeedCheckResult where
  "checkFailed = \<lparr> fc_success = False, fc_feedUrl = None, fc_feedType = None, fc_feedTitle = None,
                    fc_feedDescription = None, fc_etag = None, fc_lastModified = None \<rparr>"

text \<open>The feed type \<^verbatim>\<open>checkFeedUrl\<close> settles on: from the content type or the URL, else from the content.\<close>

definition classify :: "env \<Rightarrow> HttpResponse \<Rightarrow> string \<Rightarrow> feedType option" where
  "classify env response feedUrl =
     (case detectFeedType (jsOrStr (contentTypeHeader response) []) feedUrl of
        Some ft \<Rightarrow> Some ft
      | None \<Rightarrow> detectFeedTypeFromContent env (body response))"

text \<open>The timeout is part of the environment: an aborted request is a failed \<open>httpGet\<close>.\<close>

definition checkFeedUrl :: "env \<Rightarrow> string \<Rightarrow> FeedCheckResult" where
  "checkFeedUrl env feedUrl =
     (case httpGet env feedUrl [userAgent] of
        Inl e \<Rightarrow> checkFailed
      | Inr response \<Rightarrow>
          if \<not> ok response then checkFailed
          else (case classify env response feedUrl of
                  None \<Rightarrow> checkFailed
                | Some ft \<Rightarrow> \<lparr>
                    fc_success = True,
                    fc_feedUrl = Some feedUrl,
                    fc_feedType = Some ft,
                    fc_feedTitle = fst (extractFeedMetadata env (body response) ft),
                    fc_feedDescription = snd (extractFeedMetadata env (body response) ft),
                    fc_etag = jsOr (etagHeader response) None,
                    fc_lastModified = jsOr (lastModifiedHeader response) None \<rparr>))"

text \<open>The feed type that a \<^verbatim>\<open>link\<close> element's \<^verbatim>\<open>type\<close> attribute names.\<close>

definition linkFeedType :: "string \<Rightarrow> feedType option" where
  "linkFeedType ty =
     (if includesStr ty ''application/rss+xml'' \<or> includesStr ty ''application/xml'' then Some Rss
      else if includesStr ty ''application/atom+xml'' then Some Atom
      else if includesStr ty ''application/json'' \<or> includesStr ty ''application/feed+json''
      then Some JsonFeed
      else None)"

text \<open>The \<^verbatim>\<open>map\<close> over the \<^verbatim>\<open>link[rel="alternate"]\<close> elements: (url, type) pairs, elements without \<^verbatim>\<open>href\<close> dropped.\<close>

fun feedLinks :: "env \<Rightarrow> string \<Rightarrow> (string option \<times> string option) list \<Rightarrow> error + (string \<times> string) list"
where
  "feedLinks env siteUrl [] = Inr []"
| "feedLinks env siteUrl ((ty, href) # els) =
     (if \<not> truthy href then feedLinks env siteUrl els
      else (case resolveUrl env (the href) siteUrl of
              Inl e \<Rightarrow> Inl e
            | Inr absoluteUrl \<Rightarrow>
                (case feedLinks env siteUrl els of
                   Inl e \<Rightarrow> Inl e
                 | Inr links \<Rightarrow> Inr ((absoluteUrl, toLowerCase (jsOrStr ty [])) # links))))"

fun firstVerifiedLink :: "env \<Rightarrow> (string \<times> string) list \<Rightarrow> FeedDiscoveryResult option" where
  "firstVerifiedLink env [] = None"
| "firstVerifiedLink env ((linkUrl, ty) # links) =
     (case linkFeedType ty of
        None \<Rightarrow> firstVerifiedLink env links
      | Some ft \<Rightarrow>
          (let result = checkFeedUrl env linkUrl in
           if fc_success result
           then Some \<lparr> fd_feedUrl = linkUrl, fd_feedType = ft, fd_discoveryMethod = HtmlLinkTag,
                       fd_feedTitle = fc_feedTitle result,
                       fd_feedDescription = fc_feedDescription result,
                       fd_siteUrl = [] \<rparr>
           else firstVerifiedLink env links))"

text \<open>\<^verbatim>\<open>discoverFeedFromHtml\<close>; the site url of the result is filled in by the caller.\<close>

definition discoverFeedFromHtml :: "env \<Rightarrow> string \<Rightarrow> FeedDiscoveryResult option" where
  "discoverFeedFromHtml env siteUrl =
     (case httpGet env siteUrl [userAgent] of
        Inl e \<Rightarrow> None
      | Inr response \<Rightarrow>
          (case feedLinks env siteUrl (alternateLinks env (body response)) of
             Inl e \<Rightarrow> None
           | Inr links \<Rightarrow> firstVerifiedLink env links))"

text \<open>Step 1 of \<^verbatim>\<open>discoverFeed\<close>: the loop over the well-known paths.\<close>

fun probeWellKnown :: "env \<Rightarrow> string \<Rightarrow> string list \<Rightarrow> error + FeedDiscoveryResult option" where
  "probeWellKnown env normalizedUrl [] = Inr None"
| "probeWellKnown env normalizedUrl (path # paths) =
     (case resolveUrl env path normalizedUrl of
        Inl e \<Rightarrow> Inl e
      | Inr feedUrl \<Rightarrow>
          (let result = checkFeedUrl env feedUrl in
           if fc_success result \<and> truthy (fc_feedUrl result) \<and> fc_feedType result \<noteq> None
           then Inr (Some \<lparr> fd_feedUrl = the (fc_feedUrl result),
                             fd_feedType = the (fc_feedType result),
                             fd_discoveryMethod = WellKnownPath,
                             fd_feedTitle = fc_feedTitle result,
                             fd_feedDescription = fc_feedDescription result,
                             fd_siteUrl = normalizedUrl \<rparr>)
           else probeWellKnown env normalizedUrl paths))"

definition discoverFeed :: "env \<Rightarrow> string \<Rightarrow> error + FeedDiscoveryResult" where
  "discoverFeed env siteUrl =
     (let normalizedUrl = normalizeSiteUrl siteUrl in
      case probeWellKnown env normalizedUrl WELL_KNOWN_PATHS of
        Inl e \<Rightarrow> Inl e
      | Inr (Some found) \<Rightarrow> Inr found
      | Inr None \<Rightarrow>
          (case discoverFeedFromHtml env normalizedUrl of
             Some htmlResult \<Rightarrow> Inr (htmlResult\<lparr>fd_siteUrl := normalizedUrl\<rparr>)
           | None \<Rightarrow> Inl (Error (''No feed found for '' @ siteUrl
                                  @ ''. Please provide the feed URL manually.''))))"

section \<open>Gmail ingestion service\<close>

record SubstackPost =
  sp_messageId :: string
  sp_author :: string
  sp_authorEmail :: string
  sp_title :: string
  sp_postUrl :: string
  sp_snippet :: string
  sp_publishedAt :: string
  sp_htmlContent :: string

record MessagePart =
  mp_mimeType :: string
  mp_data :: "string option"

record GmailMessage =
  gm_id :: string
  gm_threadId :: string
  gm_headers :: "(string \<times> string) list"
  gm_parts :: "MessagePart list option"
  gm_bodyData :: "string option"
  gm_internalDate :: "string option"
  gm_snippet :: "string option"

text \<open>
  The regular expressions of \<^verbatim>\<open>parseSubstackPost\<close> and of the Gmail \<^verbatim>\<open>upsertCreator\<close>,
  in the order in which they occur in the source: the \<open>Name <address>\<close> pattern of the
  From header, the absolute urls of the body (the one with the \<^verbatim>\<open>g\<close> flag), the direct
  post url, the redirect url and the publication subdomain.
\<close>

datatype pattern = FromPattern | UrlPattern | DirectPostPattern | RedirectPattern | SubdomainPattern

text \<open>
  The services of the mailbox path: the message list (the Gmail API or the fixture), base64
  decoding, \<^verbatim>\<open>String.match\<close> (the match and its groups, \<open>None\<close> for \<^verbatim>\<open>null\<close>;
  all matches for the global pattern) and the two Date conversions.
\<close>

record mailEnv =
  fetchMessages :: "error + GmailMessage list"
  base64Decode :: "string \<Rightarrow> string"
  regexMatch :: "pattern \<Rightarrow> string \<Rightarrow> string list option"
  regexMatchAll :: "pattern \<Rightarrow> string \<Rightarrow> string list"
  epochToISOString :: "string \<Rightarrow> error + string"
  dateToISOString :: "string \<Rightarrow> error + string"
  mailNow :: string
  mailNanoid :: "nat \<Rightarrow> string"

definition headerValue :: "(string \<times> string) list \<Rightarrow> string \<Rightarrow> string option" where
  "headerValue headers name = map_option snd (find (\<lambda>h. toLowerCase (fst h) = name) headers)"

text \<open>The loop over the parts and the fallback to the direct body.\<close>

definition htmlBody :: "mailEnv \<Rightarrow> GmailMessage \<Rightarrow> string" where
  "htmlBody menv msg =
     (let fromParts =
            (case find (\<lambda>p. mp_mimeType p = ''text/html'' \<and> truthy (mp_data p))
                    (case gm_parts msg of None \<Rightarrow> [] | Some ps \<Rightarrow> ps) of
               None \<Rightarrow> []
             | Some p \<Rightarrow> base64Decode menv (the (mp_data p)))
      in if fromParts = [] \<and> truthy (gm_bodyData msg)
         then base64Decode menv (the (gm_bodyData msg)) else fromParts)"

text \<open>The loop over \<^verbatim>\<open>allUrls\<close>; \<^verbatim>\<open>url.split('?')[0]\<close> is the url up to its first \<open>?\<close>.\<close>

fun selectPostUrl :: "mailEnv \<Rightarrow> string list \<Rightarrow> string option" where
  "selectPostUrl menv [] = None"
| "selectPostUrl menv (url # urls) =
     (if includesStr url ''substackcdn.com'' \<or> includesStr url ''/image/''
         \<or> includesStr url ''substack.com/@'' \<or> includesStr url ''open.substack.com/live-stream''
      then selectPostUrl menv urls
      else if regexMatch menv DirectPostPattern url \<noteq> None
      then Some (takeWhile (\<lambda>c. c \<noteq> CHR ''?'') url)
      else if includesStr url ''substack.com/app-link/post?'' \<and> includesStr url ''post_id=''
      then Some url
      else selectPostUrl menv urls)"

definition findPostUrl :: "mailEnv \<Rightarrow> string \<Rightarrow> string option" where
  "findPostUrl menv htmlContent =
     (let postUrl = selectPostUrl menv (regexMatchAll menv UrlPattern htmlContent) in
      if truthy postUrl then postUrl
      else (case regexMatch menv RedirectPattern htmlContent of
              None \<Rightarrow> postUrl
            | Some ms \<Rightarrow> Some (ms ! 0)))"

text \<open>\<^verbatim>\<open>parseSubstackPost\<close>; any exception inside is caught and gives \<^verbatim>\<open>null\<close>.\<close>

definition parseSubstackPost :: "mailEnv \<Rightarrow> GmailMessage \<Rightarrow> SubstackPost option" where
  "parseSubstackPost menv msg =
     (let sender = jsOrStr (headerValue (gm_headers msg) ''from'') [];
          subject = jsOrStr (headerValue (gm_headers msg) ''subject'') ''Untitled'';
          date = jsOrStr (headerValue (gm_headers msg) ''date'') [];
          fromMatch = regexMatch menv FromPattern sender;
          author = (case fromMatch of None \<Rightarrow> sender | Some ms \<Rightarrow> trim (ms ! 1));
          authorEmail = (case fromMatch of None \<Rightarrow> sender | Some ms \<Rightarrow> trim (ms ! 2));
          htmlContent = htmlBody menv msg
      in if htmlContent = [] then None
         else if \<not> truthy (findPostUrl menv htmlContent) then None
         else (case (if truthy (gm_internalDate msg)
                     then epochToISOString menv (the (gm_internalDate msg))
                     else dateToISOString menv date) of
                 Inl e \<Rightarrow> None
               | Inr published \<Rightarrow> Some \<lparr>
                   sp_messageId = gm_id msg,
                   sp_author = author,
                   sp_authorEmail = authorEmail,
                   sp_title = subject,
                   sp_postUrl = the (findPostUrl menv htmlContent),
                   sp_snippet = jsOrStr (gm_snippet msg) [],
                   sp_publishedAt = published,
                   sp_htmlContent = htmlContent \<rparr>))"

text \<open>\<^verbatim>\<open>generateContentHash(post)\<close> of the Gmail service: the whole digest.\<close>

definition mailHashData :: "SubstackPost \<Rightarrow> string" where
  "mailHashData post = sp_postUrl post @ '':'' @ sp_title post @ '':'' @ sp_author post"

definition generateContentHash_gmail :: "SubstackPost \<Rightarrow> string" where
  "generateContentHash_gmail post = sha256_hex (mailHashData post)"

definition isMessageProcessed :: "db \<Rightarrow> string \<Rightarrow> bool" where
  "isMessageProcessed d messageId =
     (take 1 (filter (\<lambda>r. pm_messageId r = messageId) (gmailProcessedMessages d)) \<noteq> [])"

definition isAlnum :: "char \<Rightarrow> bool" where
  "isAlnum c =
     (c \<in> set ''abcdefghijklmnopqrstuvwxyzABCDEFGHIJKLMNOPQRSTUVWXYZ0123456789'')"

text \<open>\<^verbatim>\<open>`substack-${post.authorEmail.replace(/[^a-zA-Z0-9]/g, "-")}`\<close>\<close>

definition creatorIdOf :: "SubstackPost \<Rightarrow> string" where
  "creatorIdOf post =
     ''substack-'' @ map (\<lambda>c. if isAlnum c then c else CHR ''-'') (sp_authorEmail post)"

definition upsertCreator_gmail :: "mailEnv \<Rightarrow> string \<Rightarrow> SubstackPost \<Rightarrow> db \<Rightarrow> (error + unit) \<times> db"
where
  "upsertCreator_gmail menv creatorId post d =
     (let handle = (case regexMatch menv SubdomainPattern (sp_postUrl post) of
                      None \<Rightarrow> None | Some ms \<Rightarrow> Some (ms ! 1));
          profileUrl = (if truthy handle then ''https://'' @ the handle @ ''.substack.com''
                        else sp_postUrl post)
      in case take 1 (filter (\<lambda>c. cr_creatorId c = creatorId) (creators d)) of
           existing # rest \<Rightarrow>
             (Inr (), d\<lparr>creators := map (\<lambda>c. if cr_creatorId c = creatorId
                          then c\<lparr> cr_name := sp_author post, cr_lastUpdatedAt := Some (mailNow menv) \<rparr>
                          else c) (creators d)\<rparr>)
         | [] \<Rightarrow>
             (case insertCreator \<lparr>
                     cr_creatorId = creatorId,
                     cr_sourceType = ''substack'',
                     cr_externalId = sp_authorEmail post,
                     cr_name = sp_author post,
                     cr_handle = handle,
                     cr_bio = None,
                     cr_profileUrl = Some profileUrl,
                     cr_firstSeenAt = mailNow menv,
                     cr_lastUpdatedAt = Some (mailNow menv) \<rparr> d of
                Inl e \<Rightarrow> (Inl e, d)
              | Inr d1 \<Rightarrow> (Inr (), d1)))"

definition createContentItem :: "mailEnv \<Rightarrow> string \<Rightarrow> SubstackPost \<Rightarrow> db \<Rightarrow> (error + string) \<times> db"
where
  "createContentItem menv creatorId post d =
     (let contentId = ''substack-'' @ mailNanoid menv (nanoidCalls d);
          d1 = d\<lparr>nanoidCalls := Suc (nanoidCalls d)\<rparr>
      in case insertContentItem \<lparr>
                ci_contentId = contentId,
                ci_creatorId = creatorId,
                ci_sourceType = ''substack'',
                ci_externalId = sp_postUrl post,
                ci_title = sp_title post,
                ci_description = Some (sp_snippet post),
                ci_contentUrl = sp_postUrl post,
                ci_mediaType = Some ''article'',
                ci_publishedAt = sp_publishedAt post,
                ci_addedAt = mailNow menv,
                ci_updatedAt = None,
                ci_metadata = SubstackMeta (sp_htmlContent post),
                ci_isArchived = False,
                ci_contentHash = Some (generateContentHash_gmail post) \<rparr> d1 of
           Inl e \<Rightarrow> (Inl e, d1)
         | Inr d2 \<Rightarrow> (Inr contentId, d2))"

definition ensureSubscription :: "mailEnv \<Rightarrow> string \<Rightarrow> string \<Rightarrow> db \<Rightarrow> (error + unit) \<times> db" where
  "ensureSubscription menv userId creatorId d =
     (if take 1 (filter (\<lambda>s. sub_userId s = userId \<and> sub_creatorId s = creatorId)
                   (userSubscriptions d)) = []
      then (case insertSubscription \<lparr>
                    sub_userId = userId, sub_creatorId = creatorId,
                    sub_subscribedAt = mailNow menv, sub_isActive = True,
                    sub_notificationsEnabled = True \<rparr> d of
              Inl e \<Rightarrow> (Inl e, d)
            | Inr d1 \<Rightarrow> (Inr (), d1))
      else (Inr (), d))"

definition updateConnectionSync :: "string \<Rightarrow> string \<Rightarrow> db \<Rightarrow> db" where
  "updateConnectionSync gmailConnectionId syncedAt d =
     d\<lparr>gmailConnections := map (\<lambda>c. if gc_gmailConnectionId c = gmailConnectionId
          then c\<lparr>gc_lastSyncedAt := Some syncedAt\<rparr> else c) (gmailConnections d)\<rparr>"

text \<open>The ledger row written for a message, with the content it points to.\<close>

definition processedRow ::
  "mailEnv \<Rightarrow> string \<Rightarrow> string \<Rightarrow> GmailMessage \<Rightarrow> SubstackPost \<Rightarrow> string option \<Rightarrow> ProcessedMessage"
where
  "processedRow menv userId gmailConnectionId msg post contentId = \<lparr>
     pm_messageId = gm_id msg,
     pm_userId = userId,
     pm_gmailConnectionId = gmailConnectionId,
     pm_contentHash = generateContentHash_gmail post,
     pm_processedAt = mailNow menv,
     pm_substackAuthor = Some (sp_author post),
     pm_substackPostUrl = Some (sp_postUrl post),
     pm_contentId = contentId \<rparr>"

text \<open>The steps of the loop body for a post that is new by its hash.\<close>

definition saveNewPost ::
  "mailEnv \<Rightarrow> string \<Rightarrow> string \<Rightarrow> GmailMessage \<Rightarrow> SubstackPost \<Rightarrow> db \<Rightarrow> (error + unit) \<times> db" where
  "saveNewPost menv userId gmailConnectionId msg post d =
     (case upsertCreator_gmail menv (creatorIdOf post) post d of
        (Inl e, d1) \<Rightarrow> (Inl e, d1)
      | (Inr u, d1) \<Rightarrow>
          (case createContentItem menv (creatorIdOf post) post d1 of
             (Inl e, d2) \<Rightarrow> (Inl e, d2)
           | (Inr contentId, d2) \<Rightarrow>
               (case insertProcessedMessage
                       (processedRow menv userId gmailConnectionId msg post (Some contentId)) d2 of
                  Inl e \<Rightarrow> (Inl e, d2)
                | Inr d3 \<Rightarrow> ensureSubscription menv userId (creatorIdOf post) d3)))"

text \<open>The loop of \<^verbatim>\<open>ingestSubstackPosts\<close> with its two counters.\<close>

fun ingestLoop ::
  "mailEnv \<Rightarrow> string \<Rightarrow> string \<Rightarrow> GmailMessage list \<Rightarrow> nat \<Rightarrow> nat \<Rightarrow> db \<Rightarrow> (error + nat \<times> nat) \<times> db"
where
  "ingestLoop menv userId gmailConnectionId [] processed skipped d = (Inr (processed, skipped), d)"
| "ingestLoop menv userId gmailConnectionId (msg # msgs) processed skipped d =
     (if isMessageProcessed d (gm_id msg)
      then ingestLoop menv userId gmailConnectionId msgs processed (Suc skipped) d
      else
        (case parseSubstackPost menv msg of
           None \<Rightarrow> ingestLoop menv userId gmailConnectionId msgs processed (Suc skipped) d
         | Some post \<Rightarrow>
             (case take 1 (filter (\<lambda>r. pm_contentHash r = generateContentHash_gmail post)
                             (gmailProcessedMessages d)) of
                existing # rest \<Rightarrow>
                  (case insertProcessedMessage
                          (processedRow menv userId gmailConnectionId msg post (pm_contentId existing)) d of
                     Inl e \<Rightarrow> (Inl e, d)
                   | Inr d1 \<Rightarrow> ingestLoop menv userId gmailConnectionId msgs processed (Suc skipped) d1)
              | [] \<Rightarrow>
                  (case saveNewPost menv userId gmailConnectionId msg post d of
                     (Inl e, d1) \<Rightarrow> (Inl e, d1)
                   | (Inr u, d1) \<Rightarrow>
                       ingestLoop menv userId gmailConnectionId msgs (Suc processed) skipped d1))))"

definition ingestSubstackPosts ::
  "mailEnv \<Rightarrow> string \<Rightarrow> string \<Rightarrow> db \<Rightarrow> (error + nat \<times> nat) \<times> db" where
  "ingestSubstackPosts menv userId gmailConnectionId d =
     (case fetchMessages menv of
        Inl e \<Rightarrow> (Inl e, d)
      | Inr messages \<Rightarrow>
          (case ingestLoop menv userId gmailConnectionId messages 0 0 d of
             (Inl e, d') \<Rightarrow> (Inl e, d')
           | (Inr tally, d') \<Rightarrow> (Inr tally, updateConnectionSync gmailConnectionId (mailNow menv) d')))"

section \<open>A small environment and data for the examples\<close>

text \<open>
  The examples run in a stub environment: bodies are not encoded, a body that starts with
  \<open>https://\<close> is one url and matches the direct post pattern, no other pattern matches,
  and dates are passed through.
\<close>

definition emptyDb :: db where
  "emptyDb = \<lparr> rssSources = [], creators = [], contentItems = [], userSubscriptions = [],
                gmailProcessedMessages = [], gmailConnections = [], nanoidCalls = 0 \<rparr>"

definition stubMail :: "GmailMessage list \<Rightarrow> mailEnv" where
  "stubMail msgs = \<lparr>
     fetchMessages = Inr msgs,
     base64Decode = (\<lambda>s. s),
     regexMatch = (\<lambda>p s. if p = DirectPostPattern \<and> startsWith s ''https://'' then Some [s] else None),
     regexMatchAll = (\<lambda>p s. if startsWith s ''https://'' then [s] else []),
     epochToISOString = Inr,
     dateToISOString = Inr,
     mailNow = ''t1'',
     mailNanoid = (\<lambda>n. replicate (Suc n) CHR ''x'') \<rparr>"

definition plainMessage :: "string \<Rightarrow> string option \<Rightarrow> GmailMessage" where
  "plainMessage mid data = \<lparr>
     gm_id = mid, gm_threadId = mid,
     gm_headers = [(''From'', ''Ann''), (''Subject'', ''Hi'')],
     gm_parts = None, gm_bodyData = data, gm_internalDate = Some ''0'', gm_snippet = None \<rparr>"

text \<open>Three messages: a post, a message without a body, and the same post under another message id.\<close>

definition threeMessages :: "GmailMessage list" where
  "threeMessages =
     [plainMessage ''m1'' (Some ''https://a.substack.com/p/x''),
      plainMessage ''m2'' None,
      plainMessage ''m3'' (Some ''https://a.substack.com/p/x'')]"

text \<open>
  The feed examples: no network, urls resolved by appending, dates passed through. A parsed
  item is given with its hash, which stands for the digest of its url, title and content.
\<close>

definition stubEnv :: env where
  "stubEnv = \<lparr>
     httpGet = (\<lambda>url headers. Inl (Error ''fetch failed'')),
     resolveUrl = (\<lambda>rel base. Inr (base @ rel)),
     parseString = (\<lambda>content. Inl (Error ''not a feed'')),
     jsonParseFeed = (\<lambda>content. Inl (Error ''not JSON'')),
     jsonVersion = (\<lambda>content. None),
     xmlText = (\<lambda>selector content. []),
     alternateLinks = (\<lambda>html. []),
     toISOString = Inr,
     now = ''t1'',
     nanoid = (\<lambda>n. replicate (Suc n) CHR ''n'') \<rparr>"

definition feedPost :: "string \<Rightarrow> string \<Rightarrow> string \<Rightarrow> string \<Rightarrow> ParsedFeedItem" where
  "feedPost guid ptitle content h = \<lparr>
     pf_title = ptitle, pf_url = Some (''https://b.example/'' @ guid),
     pf_description = Some content, pf_contentHtml = Some content, pf_publishedAt = ''t0'',
     pf_author = None, pf_hash = h, pf_guid = Some guid \<rparr>"

text \<open>The first sync of the example feed, and the second one in which the item \<open>gB\<close> has a new body.\<close>

definition firstSync :: "ParsedFeedItem list" where
  "firstSync = [feedPost ''gA'' ''A'' ''one'' ''h1'', feedPost ''gB'' ''B'' ''two'' ''h2'']"

definition secondSync :: "ParsedFeedItem list" where
  "secondSync = [feedPost ''gA'' ''A'' ''one'' ''h1'', feedPost ''gB'' ''B'' ''two, edited'' ''h2x'']"

text \<open>
  A batch of three sources of one user: the first answers 304, the second times out, the
  third serves a feed without items.
\<close>

definition blogSource :: "string \<Rightarrow> string \<Rightarrow> string \<Rightarrow> RssSource" where
  "blogSource sourceId feedUrl added = \<lparr>
     src_sourceId = sourceId, src_userId = ''u'', src_siteUrl = feedUrl, src_feedUrl = feedUrl,
     src_feedType = Rss, src_feedTitle = Some ''Blog'', src_feedDescription = None,
     src_discoveryMethod = WellKnownPath, src_etag = Some ''e1'', src_lastModified = None,
     src_lastCheckedAt = None, src_lastSyncedAt = None, src_lastSyncStatus = None,
     src_lastSyncError = None, src_addedAt = added, src_isActive = True \<rparr>"

definition batchDb :: db where
  "batchDb = emptyDb\<lparr>rssSources :=
     [blogSource ''s1'' ''one'' ''3'', blogSource ''s2'' ''two'' ''2'', blogSource ''s3'' ''three'' ''1'']\<rparr>"

definition reply :: "nat \<Rightarrow> HttpResponse" where
  "reply code = \<lparr> status = code, statusText = [], contentTypeHeader = None,
                  etagHeader = Some ''e2'', lastModifiedHeader = None, body = [] \<rparr>"

definition batchEnv :: env where
  "batchEnv = stubEnv\<lparr>
     httpGet := (\<lambda>url headers. if url = ''one'' then Inr (reply 304)
                   else if url = ''two'' then Inl (Error ''This operation was aborted'')
                   else Inr (reply 200)),
     parseString := (\<lambda>content. Inr \<lparr> rf_title = Some ''Blog'', rf_description = None,
                                      rf_link = None, rf_items = None \<rparr>)\<rparr>"

text \<open>
  What the specification calls a successful, classifiable probe of a well-known path: the
  url can be formed, the request is answered with \<^verbatim>\<open>response.ok\<close>, and a feed type is
  found. \<open>probe200\<close> is the reading with the status code 200 alone.
\<close>

definition probeOk :: "env \<Rightarrow> string \<Rightarrow> string \<Rightarrow> bool" where
  "probeOk env base path =
     (case resolveUrl env path base of
        Inl e \<Rightarrow> False
      | Inr u \<Rightarrow> (case httpGet env u [userAgent] of
                    Inl e \<Rightarrow> False
                  | Inr r \<Rightarrow> ok r \<and> classify env r u \<noteq> None))"

definition probe200 :: "env \<Rightarrow> string \<Rightarrow> string \<Rightarrow> bool" where
  "probe200 env base path =
     (case resolveUrl env path base of
        Inl e \<Rightarrow> False
      | Inr u \<Rightarrow> (case httpGet env u [userAgent] of
                    Inl e \<Rightarrow> False
                  | Inr r \<Rightarrow> status r = 200 \<and> classify env r u \<noteq> None))"

text \<open>
  A site whose HTML advertises a feed by a \<^verbatim>\<open>link\<close> element and that answers on two
  well-known paths: \<open>/feed.xml\<close> with the given status, \<open>/rss.xml\<close> with 200.
\<close>

definition siteEnv :: "nat \<Rightarrow> env" where
  "siteEnv firstStatus = stubEnv\<lparr>
     httpGet := (\<lambda>url headers.
        if url = ''https://b.example/feed.xml'' then Inr (reply firstStatus)
        else if url = ''https://b.example/rss.xml'' then Inr (reply 200)
        else if url = ''https://b.example'' then Inr (reply 200)
        else if url = ''https://b.example/blog.atom'' then Inr (reply 200)
        else Inl (Error ''fetch failed'')),
     alternateLinks := (\<lambda>html. [(Some ''application/atom+xml'', Some ''/blog.atom'')])\<rparr>"

text \<open>
  The content that the specification names for the hash of a parsed item: the full content,
  falling back to the summary or description when there is no full content.
\<close>

definition spec_contentOrSummary :: "ParsedFeedItem \<Rightarrow> string" where
  "spec_contentOrSummary p = jsOrStr (jsOr (pf_contentHtml p) (pf_description p)) []"

text \<open>
  A JSON Feed item that has a summary and no content, one whose \<^verbatim>\<open>id\<close> is null and that
  has no \<^verbatim>\<open>url\<close>, and an RSS item with content.
\<close>

definition summaryOnlyItem :: JsonItem where
  "summaryOnlyItem = \<lparr> ji_url = Str ''u'', ji_id = Undefined, ji_title = Some ''t'',
                        ji_content_html = None, ji_content_text = None, ji_summary = Some ''S'',
                        ji_date_published = None, ji_author_name = None \<rparr>"

definition nullIdItem :: JsonItem where
  "nullIdItem = \<lparr> ji_url = Undefined, ji_id = Null, ji_title = Some ''t'',
                   ji_content_html = None, ji_content_text = None, ji_summary = None,
                   ji_date_published = None, ji_author_name = None \<rparr>"

definition contentItem :: RssItem where
  "contentItem = \<lparr> ri_title = Some ''t'', ri_link = Some ''u'', ri_guid = None,
                    ri_contentEncoded = Some ''c'', ri_content_encoded = None, ri_content = Some ''d'',
                    ri_contentSnippet = Some ''d'', ri_description = None, ri_pubDate = None,
                    ri_creator = None, ri_dc_creator = None, ri_author_name = None \<rparr>"

text \<open>The batch of three sources where the feed of the third one carries an item.\<close>

definition postsEnv :: env where
  "postsEnv = batchEnv\<lparr>
     parseString := (\<lambda>content. Inr \<lparr> rf_title = Some ''Blog'', rf_description = None,
                                      rf_link = None, rf_items = Some [contentItem] \<rparr>)\<rparr>"

section \<open>Properties of the digests\<close>

lemma length_sha256: "length (sha256 m) = 8"
  by (simp add: sha256_def Let_def split: prod.splits)

lemma length_hex32: "length (hex32 w) = 8"
  by (simp add: hex32_def)

lemma length_concat_hex32: "length (concat (map hex32 ws)) = 8 * length ws"
  by (induction ws) (simp_all add: length_hex32)

lemma length_sha256_hex: "length (sha256_hex s) = 64"
  by (simp add: sha256_hex_def length_concat_hex32 length_sha256)

lemma length_generateContentHash: "length (generateContentHash u t c) = 16"
  by (simp add: generateContentHash_def length_sha256_hex)

section \<open>C9: determinism and sensitivity of the feed content hash\<close>









section \<open>Mailbox ingestion: the ledger\<close>

lemma isMessageProcessed_iff:
  "isMessageProcessed d mid \<longleftrightarrow> mid \<in> set (map pm_messageId (gmailProcessedMessages d))"
proof -
  have "take 1 xs \<noteq> [] \<longleftrightarrow> xs \<noteq> []" for xs :: "ProcessedMessage list"
    by (cases xs) simp_all
  then show ?thesis
    by (auto simp: isMessageProcessed_def filter_empty_conv)
qed

lemma upsertCreator_gmail_frame:
  "upsertCreator_gmail menv cid post d = (res, d') \<Longrightarrow>
     gmailProcessedMessages d' = gmailProcessedMessages d \<and> contentItems d' = contentItems d
     \<and> userSubscriptions d' = userSubscriptions d \<and> nanoidCalls d' = nanoidCalls d"
  by (auto simp: upsertCreator_gmail_def insertCreator_def Let_def split: list.splits if_splits)

lemma createContentItem_frame:
  "createContentItem menv cid post d = (res, d') \<Longrightarrow>
     gmailProcessedMessages d' = gmailProcessedMessages d \<and> creators d' = creators d
     \<and> userSubscriptions d' = userSubscriptions d"
  by (auto simp: createContentItem_def insertContentItem_def Let_def split: if_splits)

lemma ensureSubscription_frame:
  "ensureSubscription menv uid cid d = (res, d') \<Longrightarrow>
     gmailProcessedMessages d' = gmailProcessedMessages d \<and> creators d' = creators d
     \<and> contentItems d' = contentItems d"
  by (auto simp: ensureSubscription_def insertSubscription_def split: if_splits)

lemma insertProcessedMessage_Inr:
  "insertProcessedMessage row d = Inr d' \<Longrightarrow>
     pm_messageId row \<notin> set (map pm_messageId (gmailProcessedMessages d))
     \<and> d' = d\<lparr>gmailProcessedMessages := gmailProcessedMessages d @ [row]\<rparr>"
  by (auto simp: insertProcessedMessage_def split: if_splits)

lemma saveNewPost_ledger:
  assumes "saveNewPost menv uid c msg post d = (Inr u, d')"
  shows "\<exists>cid. gmailProcessedMessages d'
            = gmailProcessedMessages d @ [processedRow menv uid c msg post (Some cid)]
          \<and> gm_id msg \<notin> set (map pm_messageId (gmailProcessedMessages d))"
  using assms
  apply (simp add: saveNewPost_def split: prod.splits sum.splits)
  apply (auto dest!: upsertCreator_gmail_frame createContentItem_frame ensureSubscription_frame
      insertProcessedMessage_Inr simp: processedRow_def)
  done

lemma ingestLoop_step:
  assumes "ingestLoop menv uid c (msg # msgs) p s d = (Inr t, d')"
  shows "\<exists>p1 s1 d1. ingestLoop menv uid c msgs p1 s1 d1 = (Inr t, d') \<and> p1 + s1 = Suc (p + s)
           \<and> ((d1 = d \<and> (isMessageProcessed d (gm_id msg) \<or> parseSubstackPost menv msg = None))
                \<or> (\<exists>post cid. parseSubstackPost menv msg = Some post
                      \<and> gm_id msg \<notin> set (map pm_messageId (gmailProcessedMessages d))
                      \<and> gmailProcessedMessages d1
                          = gmailProcessedMessages d @ [processedRow menv uid c msg post cid]))"
proof (cases "isMessageProcessed d (gm_id msg)")
  case True
  with assms show ?thesis
    by (intro exI [of _ p] exI [of _ "Suc s"] exI [of _ d]) simp
next
  case notproc: False
  show ?thesis
  proof (cases "parseSubstackPost menv msg")
    case None
    with assms notproc show ?thesis
      by (intro exI [of _ p] exI [of _ "Suc s"] exI [of _ d]) simp
  next
    case (Some post)
    show ?thesis
    proof (cases "take 1 (filter (\<lambda>r. pm_contentHash r = generateContentHash_gmail post)
                             (gmailProcessedMessages d))")
      case Nil
      with assms notproc Some obtain u d1 where
        sv: "saveNewPost menv uid c msg post d = (Inr u, d1)" and
        rest: "ingestLoop menv uid c msgs (Suc p) s d1 = (Inr t, d')"
        by (auto split: prod.splits sum.splits)
      from saveNewPost_ledger [OF sv] rest Some show ?thesis
        by (intro exI [of _ "Suc p"] exI [of _ s] exI [of _ d1]) auto
    next
      case (Cons existing rest')
      with assms notproc Some obtain d1 where
        ins: "insertProcessedMessage (processedRow menv uid c msg post (pm_contentId existing)) d
                = Inr d1" and
        rest: "ingestLoop menv uid c msgs p (Suc s) d1 = (Inr t, d')"
        by (auto split: prod.splits sum.splits)
      from insertProcessedMessage_Inr [OF ins] rest Some show ?thesis
        by (intro exI [of _ p] exI [of _ "Suc s"] exI [of _ d1]) (auto simp: processedRow_def)
    qed
  qed
qed

lemma ingestLoop_tally:
  "ingestLoop menv uid c msgs p s d = (Inr (p', s'), d') \<Longrightarrow> p' + s' = p + s + length msgs"
proof (induction msgs arbitrary: p s d)
  case Nil
  then show ?case by simp
next
  case (Cons msg msgs)
  from ingestLoop_step [OF Cons.prems] obtain p1 s1 d1 where
    "ingestLoop menv uid c msgs p1 s1 d1 = (Inr (p', s'), d')" "p1 + s1 = Suc (p + s)"
    by blast
  with Cons.IH show ?case by fastforce
qed

lemma processedRow_sel [simp]:
  "pm_messageId (processedRow menv uid c msg post cid) = gm_id msg"
  "pm_contentHash (processedRow menv uid c msg post cid) = generateContentHash_gmail post"
  by (simp_all add: processedRow_def)

lemma ingestLoop_ledger:
  assumes "ingestLoop menv uid c msgs p s d = (Inr t, d')"
  shows "\<exists>new. gmailProcessedMessages d' = gmailProcessedMessages d @ new
       \<and> distinct (map pm_messageId new)
       \<and> set (map pm_messageId new) \<inter> set (map pm_messageId (gmailProcessedMessages d)) = {}
       \<and> (\<forall>r \<in> set new. \<exists>m \<in> set msgs. \<exists>post. parseSubstackPost menv m = Some post
              \<and> pm_messageId r = gm_id m \<and> pm_contentHash r = generateContentHash_gmail post)
       \<and> (\<forall>m \<in> set msgs. parseSubstackPost menv m \<noteq> None
              \<longrightarrow> gm_id m \<in> set (map pm_messageId (gmailProcessedMessages d')))"
  using assms
proof (induction msgs arbitrary: p s d)
  case Nil
  then show ?case by simp
next
  case (Cons msg msgs)
  from ingestLoop_step [OF Cons.prems] obtain p1 s1 d1 where
    rest: "ingestLoop menv uid c msgs p1 s1 d1 = (Inr t, d')" and
    alt: "(d1 = d \<and> (isMessageProcessed d (gm_id msg) \<or> parseSubstackPost menv msg = None))
          \<or> (\<exists>post cid. parseSubstackPost menv msg = Some post
                \<and> gm_id msg \<notin> set (map pm_messageId (gmailProcessedMessages d))
                \<and> gmailProcessedMessages d1
                    = gmailProcessedMessages d @ [processedRow menv uid c msg post cid])"
    by blast
  from Cons.IH [OF rest] obtain new where
    n1: "gmailProcessedMessages d' = gmailProcessedMessages d1 @ new" and
    n2: "distinct (map pm_messageId new)" and
    n3: "set (map pm_messageId new) \<inter> set (map pm_messageId (gmailProcessedMessages d1)) = {}" and
    n4: "\<forall>r \<in> set new. \<exists>m \<in> set msgs. \<exists>post. parseSubstackPost menv m = Some post
              \<and> pm_messageId r = gm_id m \<and> pm_contentHash r = generateContentHash_gmail post" and
    n5: "\<forall>m \<in> set msgs. parseSubstackPost menv m \<noteq> None
              \<longrightarrow> gm_id m \<in> set (map pm_messageId (gmailProcessedMessages d'))"
    by blast
  from alt show ?case
  proof
    assume a: "d1 = d \<and> (isMessageProcessed d (gm_id msg) \<or> parseSubstackPost menv msg = None)"
    then have a5: "parseSubstackPost menv msg \<noteq> None
                 \<longrightarrow> gm_id msg \<in> set (map pm_messageId (gmailProcessedMessages d'))"
      using n1 by (auto simp: isMessageProcessed_iff)
    have a1: "gmailProcessedMessages d' = gmailProcessedMessages d @ new"
      using a n1 by simp
    have a3: "set (map pm_messageId new) \<inter> set (map pm_messageId (gmailProcessedMessages d)) = {}"
      using a n3 by simp
    have a4: "\<forall>r \<in> set new. \<exists>m \<in> set (msg # msgs). \<exists>post.
                parseSubstackPost menv m = Some post
              \<and> pm_messageId r = gm_id m \<and> pm_contentHash r = generateContentHash_gmail post"
      using n4 by auto
    have a6: "\<forall>m \<in> set (msg # msgs). parseSubstackPost menv m \<noteq> None
              \<longrightarrow> gm_id m \<in> set (map pm_messageId (gmailProcessedMessages d'))"
      using n5 a5 by auto
    from a1 n2 a3 a4 a6 show ?thesis
      by (intro exI [of _ new]) blast
  next
    assume "\<exists>post cid. parseSubstackPost menv msg = Some post
                \<and> gm_id msg \<notin> set (map pm_messageId (gmailProcessedMessages d))
                \<and> gmailProcessedMessages d1
                    = gmailProcessedMessages d @ [processedRow menv uid c msg post cid]"
    then obtain post cid where
      b1: "parseSubstackPost menv msg = Some post" and
      b2: "gm_id msg \<notin> set (map pm_messageId (gmailProcessedMessages d))" and
      b3: "gmailProcessedMessages d1
             = gmailProcessedMessages d @ [processedRow menv uid c msg post cid]"
      by blast
    let ?row = "processedRow menv uid c msg post cid"
    have c1: "gmailProcessedMessages d' = gmailProcessedMessages d @ (?row # new)"
      using n1 b3 by simp
    have c2: "distinct (map pm_messageId (?row # new))"
      using n2 n3 b3 by auto
    have c3: "set (map pm_messageId (?row # new))
                \<inter> set (map pm_messageId (gmailProcessedMessages d)) = {}"
      using n3 b2 b3 by auto
    have c4: "\<forall>r \<in> set (?row # new). \<exists>m \<in> set (msg # msgs). \<exists>post.
                parseSubstackPost menv m = Some post
              \<and> pm_messageId r = gm_id m \<and> pm_contentHash r = generateContentHash_gmail post"
      using n4 b1 by auto
    have c5: "\<forall>m \<in> set (msg # msgs). parseSubstackPost menv m \<noteq> None
              \<longrightarrow> gm_id m \<in> set (map pm_messageId (gmailProcessedMessages d'))"
      using n5 c1 by auto
    from c1 c2 c3 c4 c5 show ?thesis
      by (intro exI [of _ "?row # new"]) blast
  qed
qed

lemma ingestLoop_all_skipped:
  "(\<forall>m \<in> set msgs. isMessageProcessed d (gm_id m) \<or> parseSubstackPost menv m = None)
     \<Longrightarrow> ingestLoop menv uid c msgs p s d = (Inr (p, s + length msgs), d)"
  by (induction msgs arbitrary: s) auto

lemma selectPostUrl_clock:
  "selectPostUrl (menv\<lparr>mailNow := t2, mailNanoid := ids2\<rparr>) urls = selectPostUrl menv urls"
  by (induction urls) simp_all

lemma htmlBody_clock:
  "htmlBody (menv\<lparr>mailNow := t2, mailNanoid := ids2\<rparr>) msg = htmlBody menv msg"
  by (simp add: htmlBody_def Let_def cong: if_cong option.case_cong)

lemma findPostUrl_clock:
  "findPostUrl (menv\<lparr>mailNow := t2, mailNanoid := ids2\<rparr>) html = findPostUrl menv html"
  by (simp add: findPostUrl_def selectPostUrl_clock Let_def cong: if_cong option.case_cong)

lemma parseSubstackPost_clock:
  "parseSubstackPost (menv\<lparr>mailNow := t2, mailNanoid := ids2\<rparr>) msg = parseSubstackPost menv msg"
  unfolding parseSubstackPost_def htmlBody_clock findPostUrl_clock
  by (simp add: Let_def cong: if_cong option.case_cong sum.case_cong)

lemma updateConnectionSync_frame [simp]:
  "gmailProcessedMessages (updateConnectionSync c t d) = gmailProcessedMessages d"
  "contentItems (updateConnectionSync c t d) = contentItems d"
  "creators (updateConnectionSync c t d) = creators d"
  "userSubscriptions (updateConnectionSync c t d) = userSubscriptions d"
  by (simp_all add: updateConnectionSync_def)

lemma isMessageProcessed_updateConnectionSync [simp]:
  "isMessageProcessed (updateConnectionSync c t d) mid = isMessageProcessed d mid"
  by (simp add: isMessageProcessed_iff)

lemma ingest_unfold:
  assumes "fetchMessages menv = Inr messages"
      and "ingestSubstackPosts menv uid c d = (Inr tally, d1)"
  shows "\<exists>d'. ingestLoop menv uid c messages 0 0 d = (Inr tally, d')
            \<and> d1 = updateConnectionSync c (mailNow menv) d'"
  using assms by (auto simp: ingestSubstackPosts_def split: prod.splits sum.splits)

lemma count_one:
  "distinct (map f xs) \<Longrightarrow> x \<in> set (map f xs) \<Longrightarrow> length (filter (\<lambda>r. f r = x) xs) = 1"
proof (induction xs)
  case Nil
  then show ?case by simp
next
  case (Cons a xs)
  show ?case
  proof (cases "f a = x")
    case True
    with Cons.prems have "x \<notin> f ` set xs"
      by auto
    then have "filter (\<lambda>r. f r = x) xs = []"
      by (auto simp: filter_empty_conv)
    with True show ?thesis by simp
  next
    case False
    with Cons show ?thesis by auto
  qed
qed

lemma ingest_second_run:
  assumes fm: "fetchMessages menv = Inr messages"
      and run: "ingestSubstackPosts menv uid c d = (Inr tally, d1)"
  shows "ingestSubstackPosts (menv\<lparr>mailNow := t2, mailNanoid := ids2\<rparr>) uid c d1
           = (Inr (0, length messages), updateConnectionSync c t2 d1)"
proof -
  from ingest_unfold [OF fm run] obtain d' where
    loop: "ingestLoop menv uid c messages 0 0 d = (Inr tally, d')" and
    d1: "d1 = updateConnectionSync c (mailNow menv) d'"
    by blast
  from ingestLoop_ledger [OF loop] have
    "\<forall>m \<in> set messages. parseSubstackPost menv m \<noteq> None
        \<longrightarrow> gm_id m \<in> set (map pm_messageId (gmailProcessedMessages d'))"
    by blast
  then have "\<forall>m \<in> set messages. isMessageProcessed d1 (gm_id m)
        \<or> parseSubstackPost (menv\<lparr>mailNow := t2, mailNanoid := ids2\<rparr>) m = None"
    by (auto simp: d1 isMessageProcessed_iff parseSubstackPost_clock)
  from ingestLoop_all_skipped [OF this, of uid c 0 0] fm show ?thesis
    by (simp add: ingestSubstackPosts_def)
qed

lemma ingest_ledger_count:
  assumes fm: "fetchMessages menv = Inr messages"
      and run: "ingestSubstackPosts menv uid c d = (Inr tally, d1)"
      and empty: "gmailProcessedMessages d = []"
      and dist: "distinct (map gm_id messages)"
  shows "length (gmailProcessedMessages d1)
           = length (filter (\<lambda>m. parseSubstackPost menv m \<noteq> None) messages)"
proof -
  from ingest_unfold [OF fm run] obtain d' where
    loop: "ingestLoop menv uid c messages 0 0 d = (Inr tally, d')" and
    d1: "d1 = updateConnectionSync c (mailNow menv) d'"
    by blast
  from ingestLoop_ledger [OF loop] empty obtain new where
    n1: "gmailProcessedMessages d' = new" and
    n2: "distinct (map pm_messageId new)" and
    n4: "\<forall>r \<in> set new. \<exists>m \<in> set messages. \<exists>post. parseSubstackPost menv m = Some post
              \<and> pm_messageId r = gm_id m \<and> pm_contentHash r = generateContentHash_gmail post" and
    n5: "\<forall>m \<in> set messages. parseSubstackPost menv m \<noteq> None
              \<longrightarrow> gm_id m \<in> set (map pm_messageId (gmailProcessedMessages d'))"
    by auto
  let ?ok = "filter (\<lambda>m. parseSubstackPost menv m \<noteq> None) messages"
  have "set (map pm_messageId new) = set (map gm_id ?ok)"
  proof
    show "set (map pm_messageId new) \<subseteq> set (map gm_id ?ok)"
      using n4 by force
    show "set (map gm_id ?ok) \<subseteq> set (map pm_messageId new)"
      using n5 n1 by auto
  qed
  moreover have "distinct (map gm_id ?ok)"
    using dist by (rule distinct_map_filter)
  ultimately have "length (map pm_messageId new) = length (map gm_id ?ok)"
    using n2 by (metis distinct_card)
  then show ?thesis
    using n1 d1 by simp
qed

lemma demo_post:
  "parseSubstackPost (stubMail msgs) (plainMessage mid (Some ''https://a.substack.com/p/x''))
     = Some \<lparr> sp_messageId = mid, sp_author = ''Ann'', sp_authorEmail = ''Ann'', sp_title = ''Hi'',
              sp_postUrl = ''https://a.substack.com/p/x'', sp_snippet = [], sp_publishedAt = ''0'',
              sp_htmlContent = ''https://a.substack.com/p/x'' \<rparr>"
  by (simp add: parseSubstackPost_def stubMail_def plainMessage_def htmlBody_def findPostUrl_def
      headerValue_def toLowerCase_def lowerChar_def jsOrStr_def truthy_def Let_def)

lemma demo_no_body: "parseSubstackPost menv (plainMessage mid None) = None"
  by (simp add: parseSubstackPost_def plainMessage_def htmlBody_def truthy_def Let_def)

lemma stubMail_sel:
  "fetchMessages (stubMail msgs) = Inr msgs"
  "mailNow (stubMail msgs) = ''t1''"
  "mailNanoid (stubMail msgs) n = replicate (Suc n) CHR ''x''"
  "regexMatch (stubMail msgs) SubdomainPattern s = None"
  by (simp_all add: stubMail_def)

lemma plainMessage_id: "gm_id (plainMessage mid data) = mid"
  by (simp add: plainMessage_def)

lemmas demo_defs =
  ingestSubstackPosts_def threeMessages_def demo_post demo_no_body stubMail_sel plainMessage_id
  isMessageProcessed_def emptyDb_def saveNewPost_def upsertCreator_gmail_def
  createContentItem_def insertContentItem_def insertCreator_def insertProcessedMessage_def
  ensureSubscription_def insertSubscription_def processedRow_def creatorIdOf_def isAlnum_def
  updateConnectionSync_def generateContentHash_gmail_def mailHashData_def truthy_def Let_def

lemma demo_run:
  "fst (ingestSubstackPosts (stubMail threeMessages) ''u'' ''c'' emptyDb) = Inr (1, 2)"
  "map pm_messageId (gmailProcessedMessages
       (snd (ingestSubstackPosts (stubMail threeMessages) ''u'' ''c'' emptyDb))) = [''m1'', ''m3'']"
  "map ci_contentId (contentItems
       (snd (ingestSubstackPosts (stubMail threeMessages) ''u'' ''c'' emptyDb))) = [''substack-x'']"
  by (simp_all add: demo_defs)

lemma demo_run_eq:
  "ingestSubstackPosts (stubMail threeMessages) ''u'' ''c'' emptyDb
     = (Inr (1, 2), snd (ingestSubstackPosts (stubMail threeMessages) ''u'' ''c'' emptyDb))"
  using demo_run(1) by (simp add: prod_eq_iff)

section \<open>C10: the tally of a mailbox run\<close>

text \<open>
  C10: a run of \<open>ingestSubstackPosts\<close> that returns a tally has counted every fetched
  message exactly once, as processed or as skipped: processed + skipped is the number of
  fetched messages.
\<close>

theorem C10_tally_counts_every_message:
  assumes "fetchMessages menv = Inr messages"
      and "ingestSubstackPosts menv userId gmailConnectionId d = (Inr (processed, skipped), d')"
  shows "processed + skipped = length messages"
proof -
  from ingest_unfold [OF assms] obtain d0 where
    "ingestLoop menv userId gmailConnectionId messages 0 0 d = (Inr (processed, skipped), d0)"
    by blast
  from ingestLoop_tally [OF this] show ?thesis by simp
qed

theorem C10_tally_counts_every_message_witness:
  "fetchMessages (stubMail threeMessages) = Inr threeMessages
   \<and> fst (ingestSubstackPosts (stubMail threeMessages) ''u'' ''c'' emptyDb) = Inr (1, 2)
   \<and> (1::nat) + 2 = length threeMessages"
proof -
  have h1: "fetchMessages (stubMail threeMessages) = Inr threeMessages"
    by (simp add: stubMail_sel)
  from C10_tally_counts_every_message [OF h1 demo_run_eq] h1 demo_run(1) show ?thesis
    by simp
qed

section \<open>C3: one ledger row per message\<close>

text \<open>
  C3, the claim as stated, fails: a message without an HTML body is not extractable
  (\<open>parseSubstackPost\<close> gives \<open>None\<close>), the run counts it as skipped and writes no
  ProcessedMessage row for it, so the next run evaluates it again.
\<close>

theorem C3_unextractable_message_counterexample:
  "parseSubstackPost (stubMail [plainMessage ''m2'' None]) (plainMessage ''m2'' None) = None
   \<and> fst (ingestSubstackPosts (stubMail [plainMessage ''m2'' None]) ''u'' ''c'' emptyDb) = Inr (0, 1)
   \<and> length (filter (\<lambda>r. pm_messageId r = ''m2'')
         (gmailProcessedMessages
            (snd (ingestSubstackPosts (stubMail [plainMessage ''m2'' None]) ''u'' ''c'' emptyDb))))
       \<noteq> 1"
  by (simp add: demo_defs)

text \<open>
  C3 as amended: after a run that returns, every fetched message that is extractable has
  exactly one ProcessedMessage row, whether its post was new or a duplicate by content hash;
  a message id none of whose messages is extractable has the rows it had before the run
  (none, if it had none), so such a message is evaluated again by the next run. The ledger is
  assumed to satisfy its primary key at the start.
\<close>

theorem C3_one_row_per_extractable_message:
  assumes fm: "fetchMessages menv = Inr messages"
      and run: "ingestSubstackPosts menv userId gmailConnectionId d = (Inr tally, d1)"
      and pk: "distinct (map pm_messageId (gmailProcessedMessages d))"
      and msg: "msg \<in> set messages"
  shows "(parseSubstackPost menv msg \<noteq> None \<longrightarrow>
            length (filter (\<lambda>r. pm_messageId r = gm_id msg) (gmailProcessedMessages d1)) = 1)
       \<and> ((\<forall>m \<in> set messages. gm_id m = gm_id msg \<longrightarrow> parseSubstackPost menv m = None) \<longrightarrow>
            filter (\<lambda>r. pm_messageId r = gm_id msg) (gmailProcessedMessages d1)
              = filter (\<lambda>r. pm_messageId r = gm_id msg) (gmailProcessedMessages d))"
proof -
  from ingest_unfold [OF fm run] obtain d' where
    loop: "ingestLoop menv userId gmailConnectionId messages 0 0 d = (Inr tally, d')" and
    d1: "d1 = updateConnectionSync gmailConnectionId (mailNow menv) d'"
    by blast
  from ingestLoop_ledger [OF loop] obtain new where
    n1: "gmailProcessedMessages d' = gmailProcessedMessages d @ new" and
    n2: "distinct (map pm_messageId new)" and
    n3: "set (map pm_messageId new) \<inter> set (map pm_messageId (gmailProcessedMessages d)) = {}" and
    n4: "\<forall>r \<in> set new. \<exists>m \<in> set messages. \<exists>post. parseSubstackPost menv m = Some post
              \<and> pm_messageId r = gm_id m \<and> pm_contentHash r = generateContentHash_gmail post" and
    n5: "\<forall>m \<in> set messages. parseSubstackPost menv m \<noteq> None
              \<longrightarrow> gm_id m \<in> set (map pm_messageId (gmailProcessedMessages d'))"
    by blast
  have led: "gmailProcessedMessages d1 = gmailProcessedMessages d @ new"
    using n1 d1 by simp
  have dist: "distinct (map pm_messageId (gmailProcessedMessages d1))"
    using pk n2 n3 led by auto
  show ?thesis
  proof (intro conjI impI)
    assume "parseSubstackPost menv msg \<noteq> None"
    with n5 msg have "gm_id msg \<in> set (map pm_messageId (gmailProcessedMessages d1))"
      using d1 by simp
    with dist show "length (filter (\<lambda>r. pm_messageId r = gm_id msg) (gmailProcessedMessages d1)) = 1"
      by (rule count_one)
  next
    assume none: "\<forall>m \<in> set messages. gm_id m = gm_id msg \<longrightarrow> parseSubstackPost menv m = None"
    have "filter (\<lambda>r. pm_messageId r = gm_id msg) new = []"
      using n4 none by (fastforce simp: filter_empty_conv)
    then show "filter (\<lambda>r. pm_messageId r = gm_id msg) (gmailProcessedMessages d1)
                 = filter (\<lambda>r. pm_messageId r = gm_id msg) (gmailProcessedMessages d)"
      using led by simp
  qed
qed

theorem C3_one_row_per_extractable_message_witness:
  "length (filter (\<lambda>r. pm_messageId r = ''m3'')
      (gmailProcessedMessages
         (snd (ingestSubstackPosts (stubMail threeMessages) ''u'' ''c'' emptyDb)))) = 1
   \<and> filter (\<lambda>r. pm_messageId r = ''m2'')
        (gmailProcessedMessages
           (snd (ingestSubstackPosts (stubMail threeMessages) ''u'' ''c'' emptyDb))) = []"
proof -
  have h1: "fetchMessages (stubMail threeMessages) = Inr threeMessages"
    by (simp add: stubMail_sel)
  have pk: "distinct (map pm_messageId (gmailProcessedMessages emptyDb))"
    by (simp add: emptyDb_def)
  have m3: "plainMessage ''m3'' (Some ''https://a.substack.com/p/x'') \<in> set threeMessages"
    by (simp add: threeMessages_def)
  have m2: "plainMessage ''m2'' None \<in> set threeMessages"
    by (simp add: threeMessages_def)
  have none: "\<forall>m \<in> set threeMessages. gm_id m = gm_id (plainMessage ''m2'' None)
                \<longrightarrow> parseSubstackPost (stubMail threeMessages) m = None"
    by (simp add: threeMessages_def plainMessage_id demo_no_body)
  have some: "parseSubstackPost (stubMail threeMessages)
                (plainMessage ''m3'' (Some ''https://a.substack.com/p/x'')) \<noteq> None"
    by (simp add: demo_post)
  from C3_one_row_per_extractable_message [OF h1 demo_run_eq pk m3] some
       C3_one_row_per_extractable_message [OF h1 demo_run_eq pk m2] none
  show ?thesis
    by (simp add: plainMessage_id emptyDb_def)
qed

section \<open>Feed upsert\<close>

lemma take1_filter_Cons: "take 1 (filter P xs) = e # rest \<Longrightarrow> P e \<and> e \<in> set xs"
proof -
  assume a: "take 1 (filter P xs) = e # rest"
  then have "e \<in> set (take 1 (filter P xs))" by simp
  then have "e \<in> set (filter P xs)" by (rule in_set_takeD)
  then show ?thesis by simp
qed

lemma take1_filter_Nil: "take 1 (filter P xs) = [] \<longleftrightarrow> (\<forall>x \<in> set xs. \<not> P x)"
proof -
  have "take 1 ys = [] \<longleftrightarrow> ys = []" for ys :: "'a list"
    by (cases ys) simp_all
  then show ?thesis
    by (simp add: filter_empty_conv)
qed

lemma drawId_sel [simp]:
  "fst (drawId env d) = nanoid env (nanoidCalls d)"
  "contentItems (snd (drawId env d)) = contentItems d"
  "rssSources (snd (drawId env d)) = rssSources d"
  "creators (snd (drawId env d)) = creators d"
  by (simp_all add: drawId_def)

lemma upsertPostsLoop_step:
  assumes "upsertPostsLoop env c (post # posts) n d = (Inr n', d')"
  shows "\<exists>n1 d1. upsertPostsLoop env c posts n1 d1 = (Inr n', d')
           \<and> ((d1 = d \<and> n1 = n)
                \<or> (n1 = Suc n \<and> (\<exists>row. contentItems d1 = contentItems d @ [row]
                      \<and> ci_sourceType row = ''rss'' \<and> ci_contentHash row = Some (pf_hash post)
                      \<and> ci_externalId row = the (jsOr (pf_guid post) (pf_url post)))))
           \<and> (\<exists>r \<in> set (contentItems d1). ci_sourceType r = ''rss''
                  \<and> ci_contentHash r = Some (pf_hash post))"
proof (cases "take 1 (filter (\<lambda>r. ci_sourceType r = ''rss'' \<and> ci_contentHash r = Some (pf_hash post))
                        (contentItems d))")
  case (Cons existing rest)
  from take1_filter_Cons [OF Cons] have ex:
    "ci_sourceType existing = ''rss''" "ci_contentHash existing = Some (pf_hash post)"
    "existing \<in> set (contentItems d)"
    by auto
  with assms Cons have "upsertPostsLoop env c posts n d = (Inr n', d')"
    by simp
  with ex show ?thesis
    by (intro exI [of _ n] exI [of _ d]) auto
next
  case Nil
  with assms obtain ext url d2 where
    e: "jsOr (pf_guid post) (pf_url post) = Some ext" and
    u: "pf_url post = Some url" and
    ins: "insertContentItem (newContentItem env (nanoid env (nanoidCalls d)) c ext url post)
            (snd (drawId env d)) = Inr d2" and
    rest: "upsertPostsLoop env c posts (Suc n) d2 = (Inr n', d')"
    by (auto simp: drawId_def split: option.splits sum.splits)
  let ?row = "newContentItem env (nanoid env (nanoidCalls d)) c ext url post"
  from ins have "contentItems d2 = contentItems d @ [?row]"
    by (auto simp: insertContentItem_def drawId_def split: if_splits)
  moreover have "ci_sourceType ?row = ''rss''" "ci_contentHash ?row = Some (pf_hash post)"
    "ci_externalId ?row = ext"
    by (simp_all add: newContentItem_def)
  ultimately show ?thesis
    using rest e by (intro exI [of _ "Suc n"] exI [of _ d2]) auto
qed

lemma upsertPostsLoop_grows:
  "upsertPostsLoop env c posts n d = (res, d') \<Longrightarrow>
     (\<exists>new. contentItems d' = contentItems d @ new) \<and> rssSources d' = rssSources d
     \<and> creators d' = creators d"
proof (induction posts arbitrary: n d)
  case Nil
  then show ?case by simp
next
  case (Cons post posts)
  show ?case
  proof (cases "take 1 (filter (\<lambda>r. ci_sourceType r = ''rss'' \<and> ci_contentHash r = Some (pf_hash post))
                          (contentItems d))")
    case (Cons existing rest)
    from take1_filter_Cons [OF Cons] have "ci_contentHash existing = Some (pf_hash post)"
      by auto
    with Cons.prems Cons have "upsertPostsLoop env c posts n d = (res, d')"
      by simp
    from Cons.IH [OF this] show ?thesis .
  next
    case Nil
    let ?d1 = "snd (drawId env d)"
    show ?thesis
    proof (cases "jsOr (pf_guid post) (pf_url post)")
      case None
      with Cons.prems Nil have "d' = ?d1"
        by (simp add: drawId_def)
      then show ?thesis by simp
    next
      case ext: (Some externalId)
      show ?thesis
      proof (cases "pf_url post")
        case None
        with Cons.prems Nil ext have "d' = ?d1"
          by (simp add: drawId_def)
        then show ?thesis by simp
      next
        case url: (Some contentUrl)
        let ?row = "newContentItem env (nanoid env (nanoidCalls d)) c externalId contentUrl post"
        show ?thesis
        proof (cases "insertContentItem ?row ?d1")
          case (Inl e)
          with Cons.prems Nil ext url have "d' = ?d1"
            by (simp add: drawId_def)
          then show ?thesis by simp
        next
          case (Inr d2)
          with Cons.prems Nil ext url have r: "upsertPostsLoop env c posts (Suc n) d2 = (res, d')"
            by (simp add: drawId_def)
          from Inr have "contentItems d2 = contentItems d @ [?row]" "rssSources d2 = rssSources d"
            "creators d2 = creators d"
            by (auto simp: insertContentItem_def drawId_def split: if_splits)
          with Cons.IH [OF r] show ?thesis by auto
        qed
      qed
    qed
  qed
qed

lemma upsertPostsLoop_stores_all:
  "upsertPostsLoop env c posts n d = (Inr n', d') \<Longrightarrow>
     \<forall>post \<in> set posts. \<exists>r \<in> set (contentItems d').
        ci_sourceType r = ''rss'' \<and> ci_contentHash r = Some (pf_hash post)"
proof (induction posts arbitrary: n d)
  case Nil
  then show ?case by simp
next
  case (Cons post posts)
  from upsertPostsLoop_step [OF Cons.prems] obtain n1 d1 where
    rest: "upsertPostsLoop env c posts n1 d1 = (Inr n', d')" and
    here: "\<exists>r \<in> set (contentItems d1). ci_sourceType r = ''rss''
              \<and> ci_contentHash r = Some (pf_hash post)"
    by blast
  from upsertPostsLoop_grows [OF rest] obtain new where
    "contentItems d' = contentItems d1 @ new"
    by blast
  with here have "\<exists>r \<in> set (contentItems d'). ci_sourceType r = ''rss''
              \<and> ci_contentHash r = Some (pf_hash post)"
    by auto
  with Cons.IH [OF rest] show ?case by simp
qed

lemma upsertPostsLoop_all_known:
  "\<forall>post \<in> set posts. \<exists>r \<in> set (contentItems d).
        ci_sourceType r = ''rss'' \<and> ci_contentHash r = Some (pf_hash post)
     \<Longrightarrow> upsertPostsLoop env c posts n d = (Inr n, d)"
proof (induction posts)
  case Nil
  then show ?case by simp
next
  case (Cons post posts)
  let ?P = "\<lambda>r. ci_sourceType r = ''rss'' \<and> ci_contentHash r = Some (pf_hash post)"
  from Cons.prems have "\<exists>r \<in> set (contentItems d). ?P r"
    by simp
  then have "take 1 (filter ?P (contentItems d)) \<noteq> []"
    unfolding take1_filter_Nil by blast
  then obtain existing rest where
    t: "take 1 (filter ?P (contentItems d)) = existing # rest"
    by (cases "take 1 (filter ?P (contentItems d))") simp_all
  from take1_filter_Cons [OF t] have "ci_contentHash existing = Some (pf_hash post)"
    by auto
  with t Cons show ?case by simp
qed

lemma upsertPosts_second_run:
  "upsertPosts env c posts d = (Inr n, d1) \<Longrightarrow> upsertPosts env2 c2 posts d1 = (Inr 0, d1)"
  unfolding upsertPosts_def
  by (rule upsertPostsLoop_all_known) (rule upsertPostsLoop_stores_all)

lemma stubEnv_sel:
  "now stubEnv = ''t1''"
  "nanoid stubEnv n = replicate (Suc n) CHR ''n''"
  by (simp_all add: stubEnv_def)

lemmas feed_demo_defs =
  upsertPosts_def firstSync_def secondSync_def feedPost_def emptyDb_def drawId_def stubEnv_sel
  insertContentItem_def newContentItem_def jsOr_def jsOrStr_def truthy_def truncateText_def

lemma demo_first_sync:
  "fst (upsertPosts stubEnv ''rss-a'' firstSync emptyDb) = Inr 2"
  "map ci_externalId (contentItems (snd (upsertPosts stubEnv ''rss-a'' firstSync emptyDb)))
     = [''gA'', ''gB'']"
  by (simp_all add: feed_demo_defs)

section \<open>C1: edit detection in upsertPosts\<close>

text \<open>
  C1 does not hold of the code. \<open>upsertPosts\<close> looks a post up by source type and content
  hash only, so an item that comes back with the same GUID and a new hash is not found, and
  the branch that updates an edited row is never reached. On the example of the
  specification (two items stored by a first sync, the second one edited in the next sync)
  the edited item is inserted as a third row: one new post is reported, the row with hash
  \<open>h2\<close> keeps its title, description and hash, and the GUID \<open>gB\<close> has two rows.
\<close>

theorem C1_edited_item_is_inserted_again:
  "fst (upsertPosts stubEnv ''rss-a'' secondSync
          (snd (upsertPosts stubEnv ''rss-a'' firstSync emptyDb))) = Inr 1
   \<and> map (\<lambda>r. (ci_externalId r, ci_contentHash r, ci_description r))
         (contentItems (snd (upsertPosts stubEnv ''rss-a'' secondSync
            (snd (upsertPosts stubEnv ''rss-a'' firstSync emptyDb)))))
       = [(''gA'', Some ''h1'', Some ''one''), (''gB'', Some ''h2'', Some ''two''),
          (''gB'', Some ''h2x'', Some ''two, edited'')]"
  by (simp add: feed_demo_defs)

section \<open>C2: running the same input twice\<close>

lemma demo_first_sync_eq:
  "upsertPosts stubEnv ''rss-a'' firstSync emptyDb
     = (Inr 2, snd (upsertPosts stubEnv ''rss-a'' firstSync emptyDb))"
  using demo_first_sync(1) by (simp add: prod_eq_iff)

text \<open>
  C2, the claim as stated, fails in its last part: after two runs over the three example
  messages the ledger has two rows, not three, because the message without a body is not
  extractable and is never recorded.
\<close>

theorem C2_processed_count_counterexample:
  "fetchMessages (stubMail threeMessages) = Inr threeMessages
   \<and> length (gmailProcessedMessages
        (snd (ingestSubstackPosts (stubMail threeMessages) ''u'' ''c''
           (snd (ingestSubstackPosts (stubMail threeMessages) ''u'' ''c'' emptyDb)))))
       \<noteq> length threeMessages"
  by (simp add: demo_defs)

text \<open>
  C2 as amended. Feed: when \<open>upsertPosts\<close> has returned, running it again with the same
  parsed items reports 0 new posts and leaves the store as it is. Mailbox: when
  \<open>ingestSubstackPosts\<close> has returned, a second run over the same messages (at a later
  time, with other fresh ids) reports 0 processed and all messages skipped, and changes
  neither the content items nor the ledger, only the time of the last sync; from an empty
  ledger and messages with distinct ids the number of ledger rows is the number of
  extractable messages.
\<close>

theorem C2_second_run_changes_nothing:
  "(upsertPosts env creatorId posts d = (Inr n, d1)
      \<longrightarrow> upsertPosts env2 creatorId2 posts d1 = (Inr 0, d1))
   \<and> (fetchMessages menv = Inr messages
        \<and> ingestSubstackPosts menv userId conn dm = (Inr tally, dm1)
      \<longrightarrow> ingestSubstackPosts (menv\<lparr>mailNow := t2, mailNanoid := ids2\<rparr>) userId conn dm1
            = (Inr (0, length messages), updateConnectionSync conn t2 dm1)
          \<and> contentItems (updateConnectionSync conn t2 dm1) = contentItems dm1
          \<and> creators (updateConnectionSync conn t2 dm1) = creators dm1
          \<and> gmailProcessedMessages (updateConnectionSync conn t2 dm1) = gmailProcessedMessages dm1
          \<and> (gmailProcessedMessages dm = [] \<and> distinct (map gm_id messages)
               \<longrightarrow> length (gmailProcessedMessages dm1)
                     = length (filter (\<lambda>m. parseSubstackPost menv m \<noteq> None) messages)))"
proof (intro conjI impI)
  assume "upsertPosts env creatorId posts d = (Inr n, d1)"
  then show "upsertPosts env2 creatorId2 posts d1 = (Inr 0, d1)"
    by (rule upsertPosts_second_run)
next
  assume a: "fetchMessages menv = Inr messages
               \<and> ingestSubstackPosts menv userId conn dm = (Inr tally, dm1)"
  then show "ingestSubstackPosts (menv\<lparr>mailNow := t2, mailNanoid := ids2\<rparr>) userId conn dm1
            = (Inr (0, length messages), updateConnectionSync conn t2 dm1)"
    using ingest_second_run by blast
  show "length (gmailProcessedMessages dm1)
          = length (filter (\<lambda>m. parseSubstackPost menv m \<noteq> None) messages)"
    if "gmailProcessedMessages dm = [] \<and> distinct (map gm_id messages)"
    using a that ingest_ledger_count by blast
qed simp_all

theorem C2_second_run_changes_nothing_witness:
  "upsertPosts stubEnv ''rss-a'' firstSync (snd (upsertPosts stubEnv ''rss-a'' firstSync emptyDb))
     = (Inr 0, snd (upsertPosts stubEnv ''rss-a'' firstSync emptyDb))
   \<and> fst (ingestSubstackPosts (stubMail threeMessages\<lparr>mailNow := ''t2'', mailNanoid := (\<lambda>n. [])\<rparr>)
            ''u'' ''c'' (snd (ingestSubstackPosts (stubMail threeMessages) ''u'' ''c'' emptyDb)))
       = Inr (0, 3)
   \<and> length (gmailProcessedMessages
         (snd (ingestSubstackPosts (stubMail threeMessages) ''u'' ''c'' emptyDb))) = 2"
proof -
  have h1: "fetchMessages (stubMail threeMessages) = Inr threeMessages"
    by (simp add: stubMail_sel)
  have h2: "gmailProcessedMessages emptyDb = [] \<and> distinct (map gm_id threeMessages)"
    by (simp add: emptyDb_def threeMessages_def plainMessage_id)
  have h3: "length (filter (\<lambda>m. parseSubstackPost (stubMail threeMessages) m \<noteq> None) threeMessages) = 2"
    by (simp add: threeMessages_def demo_post demo_no_body)
  have h4: "length threeMessages = 3"
    by (simp add: threeMessages_def)
  from C2_second_run_changes_nothing
         [where env = stubEnv and creatorId = "''rss-a''" and posts = firstSync and d = emptyDb
            and n = 2 and ?d1.0 = "snd (upsertPosts stubEnv ''rss-a'' firstSync emptyDb)"
            and ?env2.0 = stubEnv and ?creatorId2.0 = "''rss-a''"
            and menv = "stubMail threeMessages" and messages = threeMessages
            and userId = "''u''" and conn = "''c''" and dm = emptyDb and tally = "(1, 2)"
            and ?dm1.0 = "snd (ingestSubstackPosts (stubMail threeMessages) ''u'' ''c'' emptyDb)"
            and ?t2.0 = "''t2''" and ?ids2.0 = "\<lambda>n. []"]
       demo_first_sync_eq demo_run_eq h1 h2 h3 h4
  show ?thesis
    by simp
qed

section \<open>C5: the mailbox content hash\<close>

text \<open>
  C5: the hash of an extracted post is the SHA-256 digest of \<open>postUrl:title:author\<close> in 64
  hexadecimal characters. The dedup lookup of \<open>ingestSubstackPosts\<close> compares it with the
  hashes of the ledger; a run adds to the ledger only rows that carry the mailbox hash of the
  post extracted from their message, so a ledger that holds mailbox hashes holds mailbox
  hashes afterwards, and none of them equals a feed-item hash (which has 16 characters).
\<close>

theorem C5_mailbox_hash:
  assumes fm: "fetchMessages menv = Inr messages"
      and run: "ingestSubstackPosts menv userId conn d = (Inr tally, d1)"
      and inv: "\<forall>r \<in> set (gmailProcessedMessages d). \<exists>p. pm_contentHash r = generateContentHash_gmail p"
  shows "generateContentHash_gmail post
           = sha256_hex (sp_postUrl post @ '':'' @ sp_title post @ '':'' @ sp_author post)
       \<and> length (generateContentHash_gmail post) = 64
       \<and> (\<forall>r \<in> set (gmailProcessedMessages d1). r \<in> set (gmailProcessedMessages d)
              \<or> (\<exists>m \<in> set messages. \<exists>p. parseSubstackPost menv m = Some p
                    \<and> pm_messageId r = gm_id m \<and> pm_contentHash r = generateContentHash_gmail p))
       \<and> (\<forall>r \<in> set (gmailProcessedMessages d1). \<exists>p. pm_contentHash r = generateContentHash_gmail p)
       \<and> (\<forall>r \<in> set (gmailProcessedMessages d1). \<forall>url ftitle content.
              pm_contentHash r \<noteq> generateContentHash url ftitle content)"
proof -
  from ingest_unfold [OF fm run] obtain d' where
    loop: "ingestLoop menv userId conn messages 0 0 d = (Inr tally, d')" and
    d1: "d1 = updateConnectionSync conn (mailNow menv) d'"
    by blast
  from ingestLoop_ledger [OF loop] obtain new where
    n1: "gmailProcessedMessages d' = gmailProcessedMessages d @ new" and
    n4: "\<forall>r \<in> set new. \<exists>m \<in> set messages. \<exists>post. parseSubstackPost menv m = Some post
              \<and> pm_messageId r = gm_id m \<and> pm_contentHash r = generateContentHash_gmail post"
    by blast
  have led: "gmailProcessedMessages d1 = gmailProcessedMessages d @ new"
    using n1 d1 by simp
  have origin: "\<forall>r \<in> set (gmailProcessedMessages d1). r \<in> set (gmailProcessedMessages d)
              \<or> (\<exists>m \<in> set messages. \<exists>p. parseSubstackPost menv m = Some p
                    \<and> pm_messageId r = gm_id m \<and> pm_contentHash r = generateContentHash_gmail p)"
    using led n4 by auto
  have form: "\<forall>r \<in> set (gmailProcessedMessages d1). \<exists>p. pm_contentHash r = generateContentHash_gmail p"
    using origin inv by blast
  have len: "length (generateContentHash_gmail p) = 64" for p
    by (simp add: generateContentHash_gmail_def length_sha256_hex)
  have differ: "\<forall>r \<in> set (gmailProcessedMessages d1). \<forall>url ftitle content.
              pm_contentHash r \<noteq> generateContentHash url ftitle content"
  proof (intro ballI allI notI)
    fix r url ftitle content
    assume "r \<in> set (gmailProcessedMessages d1)"
       and eq: "pm_contentHash r = generateContentHash url ftitle content"
    with form obtain p where "pm_contentHash r = generateContentHash_gmail p"
      by blast
    with eq have "length (generateContentHash_gmail p) = length (generateContentHash url ftitle content)"
      by simp
    then show False
      by (simp add: len length_generateContentHash)
  qed
  show ?thesis
    using origin form differ len
    by (simp add: generateContentHash_gmail_def mailHashData_def)
qed

theorem C5_mailbox_hash_witness:
  "map pm_contentHash (gmailProcessedMessages
       (snd (ingestSubstackPosts (stubMail threeMessages) ''u'' ''c'' emptyDb)))
     = [sha256_hex ''https://a.substack.com/p/x:Hi:Ann'', sha256_hex ''https://a.substack.com/p/x:Hi:Ann'']
   \<and> length (sha256_hex ''https://a.substack.com/p/x:Hi:Ann'') = 64
   \<and> sha256_hex ''https://a.substack.com/p/x:Hi:Ann'' \<noteq> generateContentHash ''u'' ''t'' ''c''"
proof -
  let ?ledger = "gmailProcessedMessages
       (snd (ingestSubstackPosts (stubMail threeMessages) ''u'' ''c'' emptyDb))"
  let ?post = "\<lparr> sp_messageId = ''m1'', sp_author = ''Ann'', sp_authorEmail = ''Ann'', sp_title = ''Hi'',
              sp_postUrl = ''https://a.substack.com/p/x'', sp_snippet = [], sp_publishedAt = ''0'',
              sp_htmlContent = ''https://a.substack.com/p/x'' \<rparr>"
  have h1: "fetchMessages (stubMail threeMessages) = Inr threeMessages"
    by (simp add: stubMail_sel)
  have inv: "\<forall>r \<in> set (gmailProcessedMessages emptyDb). \<exists>p. pm_contentHash r = generateContentHash_gmail p"
    by (simp add: emptyDb_def)
  have hs: "map pm_contentHash ?ledger
     = [sha256_hex ''https://a.substack.com/p/x:Hi:Ann'', sha256_hex ''https://a.substack.com/p/x:Hi:Ann'']"
    by (simp add: demo_defs)
  then have "sha256_hex ''https://a.substack.com/p/x:Hi:Ann'' \<in> set (map pm_contentHash ?ledger)"
    by simp
  then obtain r where r: "r \<in> set ?ledger"
      "pm_contentHash r = sha256_hex ''https://a.substack.com/p/x:Hi:Ann''"
    by auto
  note inst = C5_mailbox_hash [OF h1 demo_run_eq inv, of ?post]
  from inst have len: "length (generateContentHash_gmail ?post) = 64"
    by blast
  from inst r have "sha256_hex ''https://a.substack.com/p/x:Hi:Ann'' \<noteq> generateContentHash ''u'' ''t'' ''c''"
    by metis
  with hs len show ?thesis
    by (simp add: generateContentHash_gmail_def mailHashData_def)
qed

section \<open>Source sync\<close>

lemma mem_map: "x \<in> set xs \<Longrightarrow> f x \<in> set (map f xs)"
  by auto

lemma ball_set_map: "(\<forall>s \<in> set (map g xs). Q s) = (\<forall>x \<in> set xs. Q (g x))"
  by (induction xs) simp_all

lemmas take1_filter_Cons_Suc = take1_filter_Cons [unfolded One_nat_def]

lemma getSource_Some: "getSource d sid = Some s \<Longrightarrow> s \<in> set (rssSources d) \<and> src_sourceId s = sid"
  by (auto simp: getSource_def split: list.splits dest: take1_filter_Cons_Suc)

lemma getSource_distinct:
  "distinct (map src_sourceId (rssSources d)) \<Longrightarrow> s \<in> set (rssSources d)
     \<Longrightarrow> getSource d (src_sourceId s) = Some s"
proof -
  assume dist: "distinct (map src_sourceId (rssSources d))" and mem: "s \<in> set (rssSources d)"
  let ?P = "\<lambda>x. src_sourceId x = src_sourceId s"
  from mem have "take 1 (filter ?P (rssSources d)) \<noteq> []"
    unfolding take1_filter_Nil by blast
  then obtain r rest where t: "take 1 (filter ?P (rssSources d)) = r # rest"
    by (cases "take 1 (filter ?P (rssSources d))") simp_all
  from take1_filter_Cons [OF t] have "r \<in> set (rssSources d)" "src_sourceId r = src_sourceId s"
    by auto
  with dist mem have "r = s"
    by (auto simp: inj_on_def dest!: distinct_map [THEN iffD1])
  with t show ?thesis
    by (simp add: getSource_def)
qed

lemma upsertCreator_frame:
  "upsertCreator env feedUrl ftitle fdesc d = (res, d') \<Longrightarrow>
     rssSources d' = rssSources d \<and> contentItems d' = contentItems d"
  by (auto simp: upsertCreator_def insertCreator_def drawId_def
      split: list.splits if_splits sum.splits prod.splits)

lemma upsertPosts_frame:
  "upsertPosts env c posts d = (res, d') \<Longrightarrow> rssSources d' = rssSources d"
  unfolding upsertPosts_def by (drule upsertPostsLoop_grows) simp

section \<open>C6: a 304 response\<close>

text \<open>
  C6: when the conditional fetch for an existing, active source is answered with 304,
  \<open>syncSource\<close> returns normally, the only write is the sync status of that source (status
  success, time of the check, error cleared), no Creator and no ContentItem is created or
  changed, and the etag and last-modified tokens of every source are as before.
\<close>

theorem C6_not_modified:
  assumes src: "getSource d sourceId = Some source"
      and act: "src_isActive source"
      and get: "httpGet env (src_feedUrl source)
                  (conditionalHeaders (jsOr (src_etag source) None) (jsOr (src_lastModified source) None))
                = Inr response"
      and st: "status response = 304"
  shows "syncSource env sourceId d = (Inr (), updateSourceSync env sourceId Success None d)
       \<and> contentItems (snd (syncSource env sourceId d)) = contentItems d
       \<and> creators (snd (syncSource env sourceId d)) = creators d
       \<and> map src_etag (rssSources (snd (syncSource env sourceId d))) = map src_etag (rssSources d)
       \<and> map src_lastModified (rssSources (snd (syncSource env sourceId d)))
           = map src_lastModified (rssSources d)
       \<and> (\<exists>s \<in> set (rssSources (snd (syncSource env sourceId d))). src_sourceId s = sourceId)
       \<and> (\<forall>s \<in> set (rssSources (snd (syncSource env sourceId d))).
             src_sourceId s = sourceId \<longrightarrow> src_lastSyncStatus s = Some Success
               \<and> src_lastSyncError s = None)"
proof -
  have fetch: "fetchAndParseFeed env (src_feedUrl source) (src_feedType source)
                 (jsOr (src_etag source) None) (jsOr (src_lastModified source) None) = Inr None"
    using get st by (simp add: fetchAndParseFeed_def)
  have run: "syncSource env sourceId d = (Inr (), updateSourceSync env sourceId Success None d)"
    using src act fetch by (simp add: syncSource_def syncSourceTry_def)
  let ?d' = "updateSourceSync env sourceId Success None d"
  from getSource_Some [OF src] have mem: "source \<in> set (rssSources d)"
    and sid: "src_sourceId source = sourceId"
    by auto
  have rows: "rssSources ?d' = map (\<lambda>s. if src_sourceId s = sourceId
          then s\<lparr> src_lastCheckedAt := Some (now env), src_lastSyncedAt := Some (now env),
                  src_lastSyncStatus := Some Success, src_lastSyncError := None \<rparr>
          else s) (rssSources d)"
    by (simp add: updateSourceSync_def jsOr_def truthy_def)
  have c1: "contentItems ?d' = contentItems d" "creators ?d' = creators d"
    by (simp_all add: updateSourceSync_def)
  let ?f = "\<lambda>s. if src_sourceId s = sourceId
          then s\<lparr> src_lastCheckedAt := Some (now env), src_lastSyncedAt := Some (now env),
                  src_lastSyncStatus := Some Success, src_lastSyncError := None \<rparr>
          else s"
  have c2: "map src_etag (rssSources ?d') = map src_etag (rssSources d)"
    unfolding rows by simp
  have c3: "map src_lastModified (rssSources ?d') = map src_lastModified (rssSources d)"
    unfolding rows by simp
  have "?f source \<in> set (map ?f (rssSources d))"
    using mem by (rule mem_map)
  moreover have "src_sourceId (?f source) = sourceId"
    using sid by simp
  ultimately have c4: "\<exists>s \<in> set (rssSources ?d'). src_sourceId s = sourceId"
    unfolding rows by (rule bexI [rotated])
  have c5: "\<forall>s \<in> set (rssSources ?d'). src_sourceId s = sourceId \<longrightarrow>
              src_lastSyncStatus s = Some Success \<and> src_lastSyncError s = None"
    unfolding rows ball_set_map by simp
  show ?thesis
    unfolding run snd_conv using c1 c2 c3 c4 c5 by blast
qed

lemma batch_source:
  "getSource batchDb ''s1'' = Some (blogSource ''s1'' ''one'' ''3'')"
  by (simp add: getSource_def batchDb_def emptyDb_def blogSource_def)

theorem C6_not_modified_witness:
  "status (reply 304) = 304
   \<and> fst (syncSource batchEnv ''s1'' batchDb) = Inr ()
   \<and> contentItems (snd (syncSource batchEnv ''s1'' batchDb)) = []
   \<and> creators (snd (syncSource batchEnv ''s1'' batchDb)) = []
   \<and> map src_etag (rssSources (snd (syncSource batchEnv ''s1'' batchDb)))
       = [Some ''e1'', Some ''e1'', Some ''e1'']"
proof -
  have act: "src_isActive (blogSource ''s1'' ''one'' ''3'')"
    by (simp add: blogSource_def)
  have get: "httpGet batchEnv (src_feedUrl (blogSource ''s1'' ''one'' ''3''))
               (conditionalHeaders (jsOr (src_etag (blogSource ''s1'' ''one'' ''3'')) None)
                  (jsOr (src_lastModified (blogSource ''s1'' ''one'' ''3'')) None))
             = Inr (reply 304)"
    by (simp add: batchEnv_def blogSource_def)
  have st: "status (reply 304) = 304"
    by (simp add: reply_def)
  from C6_not_modified [OF batch_source act get st] st show ?thesis
    by (simp add: batchDb_def emptyDb_def blogSource_def updateSourceSync_def)
qed

section \<open>The batch\<close>

lemma map_if_compose:
  "(\<And>x. key (h x) = key x) \<Longrightarrow>
     map (\<lambda>x. if key x = k then u x else x) (map (\<lambda>x. if key x = k then h x else x) xs)
       = map (\<lambda>x. if key x = k then u (h x) else x) xs"
  by (induction xs) simp_all

lemma map_if_keys:
  "(\<And>x. key (f x) = key x) \<Longrightarrow> map key (map (\<lambda>x. if key x = k then f x else x) xs) = map key xs"
  by (induction xs) simp_all

lemma map_if_other:
  "r \<in> set xs \<Longrightarrow> key r \<noteq> k \<Longrightarrow> r \<in> set (map (\<lambda>x. if key x = k then f x else x) xs)"
  by (induction xs) auto

lemma map_if_self:
  "r \<in> set xs \<Longrightarrow> key r = k \<Longrightarrow> f r \<in> set (map (\<lambda>x. if key x = k then f x else x) xs)"
  by (induction xs) auto

lemma upsertCreator_fresh:
  assumes inj: "inj (nanoid env)"
      and fr: "(\<forall>n. nanoidCalls d \<le> n \<longrightarrow>
            nanoid env n \<notin> set (map ci_contentId (contentItems d))
            \<and> ''rss-'' @ nanoid env n \<notin> set (map cr_creatorId (creators d)))"
      and run: "upsertCreator env u t b d = (res, d')"
  shows "(\<exists>cid. res = Inr cid) \<and> (\<forall>n. nanoidCalls d' \<le> n \<longrightarrow>
            nanoid env n \<notin> set (map ci_contentId (contentItems d'))
            \<and> ''rss-'' @ nanoid env n \<notin> set (map cr_creatorId (creators d')))"
proof (cases "take 1 (filter (\<lambda>c. cr_sourceType c = ''rss'' \<and> cr_externalId c = u) (creators d))")
  case (Cons existing rest)
  with run have res: "res = Inr (cr_creatorId existing)"
    and d': "d' = d\<lparr>creators := map (\<lambda>c. if cr_creatorId c = cr_creatorId existing
                then c\<lparr> cr_name := t, cr_bio := jsOr b None,
                        cr_lastUpdatedAt := Some (now env) \<rparr>
                else c) (creators d)\<rparr>"
    by (simp_all add: upsertCreator_def)
  have "map cr_creatorId (creators d') = map cr_creatorId (creators d)"
    unfolding d' by (simp add: map_if_keys)
  then have ids: "set (map cr_creatorId (creators d')) = set (map cr_creatorId (creators d))"
    by simp
  have same: "contentItems d' = contentItems d" "nanoidCalls d' = nanoidCalls d"
    unfolding d' by simp_all
  from fr show ?thesis
    unfolding res ids same by simp
next
  case Nil
  let ?k = "nanoidCalls d"
  from fr have new: "''rss-'' @ nanoid env ?k \<notin> set (map cr_creatorId (creators d))"
    by simp
  from Nil run new have res: "res = Inr (''rss-'' @ nanoid env ?k)"
    and d': "creators d' = creators d @ [\<lparr>
                     cr_creatorId = ''rss-'' @ nanoid env ?k,
                     cr_sourceType = ''rss'',
                     cr_externalId = u,
                     cr_name = t,
                     cr_handle = None,
                     cr_bio = jsOr b None,
                     cr_profileUrl = Some u,
                     cr_firstSeenAt = now env,
                     cr_lastUpdatedAt = Some (now env) \<rparr>]"
       "contentItems d' = contentItems d" "nanoidCalls d' = Suc ?k"
    by (auto simp: upsertCreator_def drawId_def insertCreator_def)
  have "nanoid env n \<noteq> nanoid env ?k" if "Suc ?k \<le> n" for n
    using inj that by (auto dest: injD)
  with fr show ?thesis
    unfolding d' res by auto
qed

lemma upsertCreator_has:
  assumes "upsertCreator env u t b d = (Inr cid, d')"
  shows "(\<exists>c \<in> set (creators d'). cr_sourceType c = ''rss'' \<and> cr_externalId c = u)"
proof (cases "take 1 (filter (\<lambda>c. cr_sourceType c = ''rss'' \<and> cr_externalId c = u) (creators d))")
  case (Cons existing rest)
  from take1_filter_Cons [OF Cons] have ex: "cr_sourceType existing = ''rss''"
    "cr_externalId existing = u" "existing \<in> set (creators d)"
    by simp_all
  let ?f = "\<lambda>c. c\<lparr> cr_name := t, cr_bio := jsOr b None, cr_lastUpdatedAt := Some (now env) \<rparr>"
  from Cons assms have d': "creators d' = map (\<lambda>c. if cr_creatorId c = cr_creatorId existing
                then ?f c else c) (creators d)"
    by (auto simp: upsertCreator_def)
  from ex(3) have "?f existing \<in> set (creators d')"
    unfolding d' by (rule map_if_self) simp
  with ex show ?thesis
    by (intro bexI [of _ "?f existing"]) simp_all
next
  case Nil
  with assms show ?thesis
    by (auto simp: upsertCreator_def drawId_def insertCreator_def split: if_splits)
qed

lemma upsertCreator_keeps:
  assumes run: "upsertCreator env u t b d = (res, d')"
      and old: "(\<exists>c \<in> set (creators d). cr_sourceType c = ''rss'' \<and> cr_externalId c = v)"
  shows "(\<exists>c \<in> set (creators d'). cr_sourceType c = ''rss'' \<and> cr_externalId c = v)"
proof (cases "take 1 (filter (\<lambda>c. cr_sourceType c = ''rss'' \<and> cr_externalId c = u) (creators d))")
  case (Cons existing rest)
  let ?f = "\<lambda>c. c\<lparr> cr_name := t, cr_bio := jsOr b None, cr_lastUpdatedAt := Some (now env) \<rparr>"
  from Cons run have d': "creators d' = map (\<lambda>c. if cr_creatorId c = cr_creatorId existing
                then ?f c else c) (creators d)"
    by (auto simp: upsertCreator_def)
  from old obtain c where c: "c \<in> set (creators d)" "cr_sourceType c = ''rss''" "cr_externalId c = v"
    by blast
  show ?thesis
  proof (cases "cr_creatorId c = cr_creatorId existing")
    case True
    with c(1) have "?f c \<in> set (creators d')"
      unfolding d' by (rule map_if_self)
    with c show ?thesis
      by (intro bexI [of _ "?f c"]) simp_all
  next
    case False
    with c(1) have "c \<in> set (creators d')"
      unfolding d' by (rule map_if_other)
    with c show ?thesis
      by blast
  qed
next
  case Nil
  with run have "creators d' = creators d \<or> (\<exists>row. creators d' = creators d @ [row])"
    by (auto simp: upsertCreator_def drawId_def insertCreator_def split: if_splits)
  with old show ?thesis
    by auto
qed

lemma jsOr_Some: "jsOr a (Some u) \<noteq> None"
  by (simp add: jsOr_def truthy_def)

lemma upsertPostsLoop_fresh:
  assumes inj: "inj (nanoid env)"
  shows "(\<forall>n. nanoidCalls d \<le> n \<longrightarrow>
            nanoid env n \<notin> set (map ci_contentId (contentItems d))
            \<and> ''rss-'' @ nanoid env n \<notin> set (map cr_creatorId (creators d))) \<Longrightarrow> upsertPostsLoop env c posts n d = (res, d') \<Longrightarrow>
     (\<forall>n. nanoidCalls d' \<le> n \<longrightarrow>
            nanoid env n \<notin> set (map ci_contentId (contentItems d'))
            \<and> ''rss-'' @ nanoid env n \<notin> set (map cr_creatorId (creators d'))) \<and> ((\<forall>p \<in> set posts. pf_url p \<noteq> None) \<longrightarrow> (\<exists>k. res = Inr k))"
proof (induction posts arbitrary: n d)
  case Nil
  from Nil.prems(2) have "res = Inr n" "d' = d"
    by auto
  with Nil.prems(1) show ?case
    by simp
next
  case (Cons post posts)
  note fr = Cons.prems(1) and run = Cons.prems(2)
  show ?case
  proof (cases "take 1 (filter (\<lambda>r. ci_sourceType r = ''rss'' \<and> ci_contentHash r = Some (pf_hash post))
                          (contentItems d))")
    case (Cons existing rest)
    from take1_filter_Cons [OF Cons] have "ci_contentHash existing = Some (pf_hash post)"
      by auto
    with Cons run have "upsertPostsLoop env c posts n d = (res, d')"
      by simp
    from Cons.IH [OF fr this] show ?thesis
      by simp
  next
    case Nil
    let ?k = "nanoidCalls d"
    let ?d1 = "d\<lparr>nanoidCalls := Suc ?k\<rparr>"
    have fr1: "(\<forall>n. nanoidCalls ?d1 \<le> n \<longrightarrow>
            nanoid env n \<notin> set (map ci_contentId (contentItems ?d1))
            \<and> ''rss-'' @ nanoid env n \<notin> set (map cr_creatorId (creators ?d1)))"
      using fr by simp
    show ?thesis
    proof (cases "pf_url post")
      case None
      with Nil run have "d' = ?d1"
        by (auto simp: drawId_def split: option.splits)
      with fr1 None show ?thesis
        by auto
    next
      case (Some contentUrl)
      then obtain externalId where ext: "jsOr (pf_guid post) (pf_url post) = Some externalId"
        using jsOr_Some [of "pf_guid post" contentUrl] by auto
      let ?row = "newContentItem env (nanoid env ?k) c externalId contentUrl post"
      let ?d2 = "?d1\<lparr>contentItems := contentItems d @ [?row]\<rparr>"
      from fr have new: "nanoid env ?k \<notin> set (map ci_contentId (contentItems d))"
        by simp
      then have ins: "insertContentItem ?row ?d1 = Inr ?d2"
        by (simp add: insertContentItem_def newContentItem_def)
      from Nil run Some ext ins have rest: "upsertPostsLoop env c posts (Suc n) ?d2 = (res, d')"
        by (simp add: drawId_def)
      have "nanoid env m \<noteq> nanoid env ?k" if "Suc ?k \<le> m" for m
        using inj that by (auto dest: injD)
      with fr have fr2: "(\<forall>n. nanoidCalls ?d2 \<le> n \<longrightarrow>
            nanoid env n \<notin> set (map ci_contentId (contentItems ?d2))
            \<and> ''rss-'' @ nanoid env n \<notin> set (map cr_creatorId (creators ?d2)))"
        by (simp add: newContentItem_def)
      from Cons.IH [OF fr2 rest] show ?thesis
        by simp
    qed
  qed
qed

lemma syncSource_cases:
  assumes src: "getSource d sid = Some s"
      and act: "src_isActive s"
      and run: "syncSource env sid d = (res, d')"
  shows "(\<exists>e. fetchFor env s = Inl e \<and> res = Inl e
              \<and> d' = updateSourceSync env sid SyncError (Some (message e)) d)
       \<or> (fetchFor env s = Inr None \<and> res = Inr ()
              \<and> d' = updateSourceSync env sid Success None d)
       \<or> (\<exists>result X. fetchFor env s = Inr (Some result)
              \<and> d' = updateSourceSync env sid (if isl res then SyncError else Success)
                       (case res of Inl e \<Rightarrow> Some (message e) | Inr u \<Rightarrow> None) X
              \<and> rssSources X
                  = rssSources (updateSourceHeaders sid (ffr_etag result) (ffr_lastModified result) d)
              \<and> (\<exists>new. contentItems X = contentItems d @ new)
              \<and> (\<forall>v. (\<exists>c \<in> set (creators d). cr_sourceType c = ''rss'' \<and> cr_externalId c = v) \<longrightarrow> (\<exists>c \<in> set (creators X). cr_sourceType c = ''rss'' \<and> cr_externalId c = v))
              \<and> (res = Inr () \<longrightarrow> (\<exists>c \<in> set (creators X). cr_sourceType c = ''rss'' \<and> cr_externalId c = src_feedUrl s) \<and> (\<forall>p \<in> set (feed_items (ffr_feed result)). \<exists>r \<in> set (contentItems X).
            ci_sourceType r = ''rss'' \<and> ci_contentHash r = Some (pf_hash p)))
              \<and> (inj (nanoid env) \<and> (\<forall>n. nanoidCalls d \<le> n \<longrightarrow>
            nanoid env n \<notin> set (map ci_contentId (contentItems d))
            \<and> ''rss-'' @ nanoid env n \<notin> set (map cr_creatorId (creators d))) \<longrightarrow>
                    (\<forall>n. nanoidCalls X \<le> n \<longrightarrow>
            nanoid env n \<notin> set (map ci_contentId (contentItems X))
            \<and> ''rss-'' @ nanoid env n \<notin> set (map cr_creatorId (creators X))) \<and> ((\<forall>p \<in> set (feed_items (ffr_feed result)). pf_url p \<noteq> None) \<longrightarrow> res = Inr ())))"
proof (cases "fetchFor env s")
  case (Inl e)
  with src act run show ?thesis
    by (simp add: syncSource_def syncSourceTry_def fetchFor_def)
next
  case (Inr fetched)
  show ?thesis
  proof (cases fetched)
    case None
    with Inr src act run show ?thesis
      by (auto simp: syncSource_def syncSourceTry_def fetchFor_def)
  next
    case (Some result)
    let ?items = "feed_items (ffr_feed result)"
    let ?da = "updateSourceHeaders sid (ffr_etag result) (ffr_lastModified result) d"
    let ?uc = "upsertCreator env (src_feedUrl s)
                  (jsOrStr (jsOr (feed_title (ffr_feed result)) (src_feedTitle s)) ''Untitled Blog'')
                  (jsOr (feed_description (ffr_feed result)) (src_feedDescription s)) ?da"
    have da: "contentItems ?da = contentItems d" "creators ?da = creators d"
      "nanoidCalls ?da = nanoidCalls d"
      by (simp_all add: updateSourceHeaders_def)
    obtain rc db where uc: "?uc = (rc, db)"
      by (cases ?uc) simp
    from upsertCreator_frame [OF uc] have fdb: "rssSources db = rssSources ?da"
      and cdb: "contentItems db = contentItems d"
      by (simp_all add: da)
    have kdb: "(\<exists>c \<in> set (creators db). cr_sourceType c = ''rss'' \<and> cr_externalId c = v)" if "(\<exists>c \<in> set (creators d). cr_sourceType c = ''rss'' \<and> cr_externalId c = v)" for v
      using upsertCreator_keeps [OF uc, of v] that by (simp add: da)
    have frdb: "(\<exists>cid. rc = Inr cid) \<and> (\<forall>n. nanoidCalls db \<le> n \<longrightarrow>
            nanoid env n \<notin> set (map ci_contentId (contentItems db))
            \<and> ''rss-'' @ nanoid env n \<notin> set (map cr_creatorId (creators db)))" if "inj (nanoid env)" "(\<forall>n. nanoidCalls d \<le> n \<longrightarrow>
            nanoid env n \<notin> set (map ci_contentId (contentItems d))
            \<and> ''rss-'' @ nanoid env n \<notin> set (map cr_creatorId (creators d)))"
      using upsertCreator_fresh [OF that(1) _ uc] that(2) by (simp add: da)
    have fetch: "fetchAndParseFeed env (src_feedUrl s) (src_feedType s)
                   (jsOr (src_etag s) None) (jsOr (src_lastModified s) None) = Inr (Some result)"
      using Inr Some by (simp add: fetchFor_def)
    have fetchFor: "fetchFor env s = Inr (Some result)"
      using Inr Some by simp
    show ?thesis
    proof (cases rc)
      case (Inl e)
      with src act run fetch uc have r: "res = Inl e"
        and d': "d' = updateSourceSync env sid SyncError (Some (message e)) db"
        by (simp_all add: syncSource_def syncSourceTry_def)
      have 1: "d' = updateSourceSync env sid (if isl res then SyncError else Success)
                       (case res of Inl e \<Rightarrow> Some (message e) | Inr u \<Rightarrow> None) db"
        unfolding d' r by simp
      have 2: "\<exists>new. contentItems db = contentItems d @ new"
        using cdb by simp
      have 3: "\<forall>v. (\<exists>c \<in> set (creators d). cr_sourceType c = ''rss'' \<and> cr_externalId c = v) \<longrightarrow> (\<exists>c \<in> set (creators db). cr_sourceType c = ''rss'' \<and> cr_externalId c = v)"
        using kdb by blast
      have 4: "res = Inr () \<longrightarrow> (\<exists>c \<in> set (creators db). cr_sourceType c = ''rss'' \<and> cr_externalId c = src_feedUrl s) \<and> (\<forall>p \<in> set (?items). \<exists>r \<in> set (contentItems db).
            ci_sourceType r = ''rss'' \<and> ci_contentHash r = Some (pf_hash p))"
        using r by simp
      have 5: "inj (nanoid env) \<and> (\<forall>n. nanoidCalls d \<le> n \<longrightarrow>
            nanoid env n \<notin> set (map ci_contentId (contentItems d))
            \<and> ''rss-'' @ nanoid env n \<notin> set (map cr_creatorId (creators d))) \<longrightarrow>
                    (\<forall>n. nanoidCalls db \<le> n \<longrightarrow>
            nanoid env n \<notin> set (map ci_contentId (contentItems db))
            \<and> ''rss-'' @ nanoid env n \<notin> set (map cr_creatorId (creators db))) \<and> ((\<forall>p \<in> set (?items). pf_url p \<noteq> None) \<longrightarrow> res = Inr ())"
        using frdb Inl by blast
      from fetchFor 1 fdb 2 3 4 5 show ?thesis
        by (intro disjI2 exI [of _ result] exI [of _ db] conjI)
    next
      case creatorOk: (Inr creatorId)
      obtain rp dc where up: "upsertPosts env creatorId ?items db = (rp, dc)"
        by (cases "upsertPosts env creatorId ?items db") simp
      then have loop: "upsertPostsLoop env creatorId ?items 0 db = (rp, dc)"
        by (simp add: upsertPosts_def)
      from upsertPostsLoop_grows [OF loop] fdb cdb have fdc: "rssSources dc = rssSources ?da"
        and cdc: "\<exists>new. contentItems dc = contentItems d @ new"
        and crdc: "creators dc = creators db"
        by simp_all
      have 3: "\<forall>v. (\<exists>c \<in> set (creators d). cr_sourceType c = ''rss'' \<and> cr_externalId c = v) \<longrightarrow> (\<exists>c \<in> set (creators dc). cr_sourceType c = ''rss'' \<and> cr_externalId c = v)"
        unfolding crdc using kdb by blast
      have frdc: "(\<forall>n. nanoidCalls dc \<le> n \<longrightarrow>
            nanoid env n \<notin> set (map ci_contentId (contentItems dc))
            \<and> ''rss-'' @ nanoid env n \<notin> set (map cr_creatorId (creators dc))) \<and> ((\<forall>p \<in> set (?items). pf_url p \<noteq> None) \<longrightarrow> (\<exists>k. rp = Inr k))"
        if "inj (nanoid env)" "(\<forall>n. nanoidCalls d \<le> n \<longrightarrow>
            nanoid env n \<notin> set (map ci_contentId (contentItems d))
            \<and> ''rss-'' @ nanoid env n \<notin> set (map cr_creatorId (creators d)))"
      proof -
        from frdb [OF that] have "(\<forall>n. nanoidCalls db \<le> n \<longrightarrow>
            nanoid env n \<notin> set (map ci_contentId (contentItems db))
            \<and> ''rss-'' @ nanoid env n \<notin> set (map cr_creatorId (creators db)))"
          by blast
        from upsertPostsLoop_fresh [OF that(1) this loop] show ?thesis .
      qed
      show ?thesis
      proof (cases rp)
        case (Inl e)
        with src act run fetch uc creatorOk up have r: "res = Inl e"
          and d': "d' = updateSourceSync env sid SyncError (Some (message e)) dc"
          by (simp_all add: syncSource_def syncSourceTry_def)
        have 1: "d' = updateSourceSync env sid (if isl res then SyncError else Success)
                       (case res of Inl e \<Rightarrow> Some (message e) | Inr u \<Rightarrow> None) dc"
          unfolding d' r by simp
        have 4: "res = Inr () \<longrightarrow> (\<exists>c \<in> set (creators dc). cr_sourceType c = ''rss'' \<and> cr_externalId c = src_feedUrl s) \<and> (\<forall>p \<in> set (?items). \<exists>r \<in> set (contentItems dc).
            ci_sourceType r = ''rss'' \<and> ci_contentHash r = Some (pf_hash p))"
          using r by simp
        have 5: "inj (nanoid env) \<and> (\<forall>n. nanoidCalls d \<le> n \<longrightarrow>
            nanoid env n \<notin> set (map ci_contentId (contentItems d))
            \<and> ''rss-'' @ nanoid env n \<notin> set (map cr_creatorId (creators d))) \<longrightarrow>
                    (\<forall>n. nanoidCalls dc \<le> n \<longrightarrow>
            nanoid env n \<notin> set (map ci_contentId (contentItems dc))
            \<and> ''rss-'' @ nanoid env n \<notin> set (map cr_creatorId (creators dc))) \<and> ((\<forall>p \<in> set (?items). pf_url p \<noteq> None) \<longrightarrow> res = Inr ())"
          using frdc Inl by blast
        from fetchFor 1 fdc cdc 3 4 5 show ?thesis
          by (intro disjI2 exI [of _ result] exI [of _ dc] conjI)
      next
        case postsOk: (Inr newPostsCount)
        with src act run fetch uc creatorOk up have r: "res = Inr ()"
          and d': "d' = updateSourceSync env sid Success None dc"
          by (simp_all add: syncSource_def syncSourceTry_def)
        have 1: "d' = updateSourceSync env sid (if isl res then SyncError else Success)
                       (case res of Inl e \<Rightarrow> Some (message e) | Inr u \<Rightarrow> None) dc"
          unfolding d' r by simp
        from uc creatorOk have "?uc = (Inr creatorId, db)"
          by simp
        from upsertCreator_has [OF this] have hc: "(\<exists>c \<in> set (creators dc). cr_sourceType c = ''rss'' \<and> cr_externalId c = src_feedUrl s)"
          unfolding crdc .
        from loop postsOk have "upsertPostsLoop env creatorId ?items 0 db = (Inr newPostsCount, dc)"
          by simp
        from upsertPostsLoop_stores_all [OF this] have hp: "(\<forall>p \<in> set (?items). \<exists>r \<in> set (contentItems dc).
            ci_sourceType r = ''rss'' \<and> ci_contentHash r = Some (pf_hash p))" .
        from hc hp have 4: "res = Inr () \<longrightarrow> (\<exists>c \<in> set (creators dc). cr_sourceType c = ''rss'' \<and> cr_externalId c = src_feedUrl s) \<and> (\<forall>p \<in> set (?items). \<exists>r \<in> set (contentItems dc).
            ci_sourceType r = ''rss'' \<and> ci_contentHash r = Some (pf_hash p))"
          by blast
        have 5: "inj (nanoid env) \<and> (\<forall>n. nanoidCalls d \<le> n \<longrightarrow>
            nanoid env n \<notin> set (map ci_contentId (contentItems d))
            \<and> ''rss-'' @ nanoid env n \<notin> set (map cr_creatorId (creators d))) \<longrightarrow>
                    (\<forall>n. nanoidCalls dc \<le> n \<longrightarrow>
            nanoid env n \<notin> set (map ci_contentId (contentItems dc))
            \<and> ''rss-'' @ nanoid env n \<notin> set (map cr_creatorId (creators dc))) \<and> ((\<forall>p \<in> set (?items). pf_url p \<noteq> None) \<longrightarrow> res = Inr ())"
          using frdc r by blast
        from fetchFor 1 fdc cdc 3 4 5 show ?thesis
          by (intro disjI2 exI [of _ result] exI [of _ dc] conjI)
      qed
    qed
  qed
qed

lemma updateSourceSync_sel:
  "contentItems (updateSourceSync env sid st err X) = contentItems X"
  "creators (updateSourceSync env sid st err X) = creators X"
  "nanoidCalls (updateSourceSync env sid st err X) = nanoidCalls X"
  "rssSources (updateSourceSync env sid st err X)
      = map (\<lambda>x. if src_sourceId x = sid
               then x\<lparr> src_lastCheckedAt := Some (now env),
                       src_lastSyncedAt := (if st = Success then Some (now env) else src_lastSyncedAt x),
                       src_lastSyncStatus := Some st,
                       src_lastSyncError := jsOr err None \<rparr>
               else x) (rssSources X)"
  by (simp_all add: updateSourceSync_def)

lemma syncSource_store:
  assumes src: "getSource d sid = Some s"
      and act: "src_isActive s"
      and run: "syncSource env sid d = (res, d')"
  shows "(\<exists>new. contentItems d' = contentItems d @ new)
       \<and> (\<forall>v. (\<exists>c \<in> set (creators d). cr_sourceType c = ''rss'' \<and> cr_externalId c = v) \<longrightarrow> (\<exists>c \<in> set (creators d'). cr_sourceType c = ''rss'' \<and> cr_externalId c = v))
       \<and> (inj (nanoid env) \<and> (\<forall>n. nanoidCalls d \<le> n \<longrightarrow>
            nanoid env n \<notin> set (map ci_contentId (contentItems d))
            \<and> ''rss-'' @ nanoid env n \<notin> set (map cr_creatorId (creators d))) \<longrightarrow> (\<forall>n. nanoidCalls d' \<le> n \<longrightarrow>
            nanoid env n \<notin> set (map ci_contentId (contentItems d'))
            \<and> ''rss-'' @ nanoid env n \<notin> set (map cr_creatorId (creators d'))))
       \<and> (\<forall>result. fetchFor env s = Inr (Some result) \<longrightarrow>
             (res = Inr () \<longrightarrow> (\<exists>c \<in> set (creators d'). cr_sourceType c = ''rss'' \<and> cr_externalId c = src_feedUrl s) \<and> (\<forall>p \<in> set (feed_items (ffr_feed result)). \<exists>r \<in> set (contentItems d').
            ci_sourceType r = ''rss'' \<and> ci_contentHash r = Some (pf_hash p)))
             \<and> (inj (nanoid env) \<and> (\<forall>n. nanoidCalls d \<le> n \<longrightarrow>
            nanoid env n \<notin> set (map ci_contentId (contentItems d))
            \<and> ''rss-'' @ nanoid env n \<notin> set (map cr_creatorId (creators d))) \<and> (\<forall>p \<in> set (feed_items (ffr_feed result)). pf_url p \<noteq> None)
                   \<longrightarrow> res = Inr ()))"
proof -
  from syncSource_cases [OF src act run] consider
    (failed) e where "fetchFor env s = Inl e"
      "d' = updateSourceSync env sid SyncError (Some (message e)) d"
  | (unchanged) "fetchFor env s = Inr None"
      "d' = updateSourceSync env sid Success None d"
  | (fetched) result X where "fetchFor env s = Inr (Some result)"
      "d' = updateSourceSync env sid (if isl res then SyncError else Success)
                       (case res of Inl e \<Rightarrow> Some (message e) | Inr u \<Rightarrow> None) X"
      "\<exists>new. contentItems X = contentItems d @ new"
      "\<forall>v. (\<exists>c \<in> set (creators d). cr_sourceType c = ''rss'' \<and> cr_externalId c = v) \<longrightarrow> (\<exists>c \<in> set (creators X). cr_sourceType c = ''rss'' \<and> cr_externalId c = v)"
      "res = Inr () \<longrightarrow> (\<exists>c \<in> set (creators X). cr_sourceType c = ''rss'' \<and> cr_externalId c = src_feedUrl s) \<and> (\<forall>p \<in> set (feed_items (ffr_feed result)). \<exists>r \<in> set (contentItems X).
            ci_sourceType r = ''rss'' \<and> ci_contentHash r = Some (pf_hash p))"
      "inj (nanoid env) \<and> (\<forall>n. nanoidCalls d \<le> n \<longrightarrow>
            nanoid env n \<notin> set (map ci_contentId (contentItems d))
            \<and> ''rss-'' @ nanoid env n \<notin> set (map cr_creatorId (creators d))) \<longrightarrow>
          (\<forall>n. nanoidCalls X \<le> n \<longrightarrow>
            nanoid env n \<notin> set (map ci_contentId (contentItems X))
            \<and> ''rss-'' @ nanoid env n \<notin> set (map cr_creatorId (creators X))) \<and> ((\<forall>p \<in> set (feed_items (ffr_feed result)). pf_url p \<noteq> None) \<longrightarrow> res = Inr ())"
    by blast
  then show ?thesis
  proof cases
    case failed
    show ?thesis
      unfolding failed(2) updateSourceSync_sel using failed(1) by simp
  next
    case unchanged
    show ?thesis
      unfolding unchanged(2) updateSourceSync_sel using unchanged(1) by simp
  next
    case fetched
    have "\<forall>r. fetchFor env s = Inr (Some r) \<longrightarrow> r = result"
      using fetched(1) by simp
    with fetched(3-6) show ?thesis
      unfolding fetched(2) updateSourceSync_sel by blast
  qed
qed

lemma syncSource_rows:
  assumes src: "getSource d sid = Some s"
      and act: "src_isActive s"
      and run: "syncSource env sid d = (res, d')"
  shows "\<exists>f. rssSources d' = map (\<lambda>x. if src_sourceId x = sid then f x else x) (rssSources d)
           \<and> (\<forall>x. src_sourceId (f x) = src_sourceId x \<and> src_isActive (f x) = src_isActive x
                  \<and> src_lastCheckedAt (f x) = Some (now env)
                  \<and> src_lastSyncStatus (f x) = Some (if isl res then SyncError else Success)
                  \<and> src_lastSyncError (f x)
                      = jsOr (case res of Inl e \<Rightarrow> Some (message e) | Inr u \<Rightarrow> None) None
                  \<and> (\<forall>result. fetchFor env s = Inr (Some result) \<longrightarrow>
                         src_etag (f x) = jsOr (ffr_etag result) None
                         \<and> src_lastModified (f x) = jsOr (ffr_lastModified result) None)
                  \<and> ((\<forall>result. fetchFor env s \<noteq> Inr (Some result)) \<longrightarrow>
                         src_etag (f x) = src_etag x \<and> src_lastModified (f x) = src_lastModified x))
           \<and> (\<forall>e. fetchFor env s = Inl e \<longrightarrow> res = Inl e)
           \<and> (fetchFor env s = Inr None \<longrightarrow> res = Inr ())"
proof -
  let ?u = "\<lambda>st err x. x\<lparr> src_lastCheckedAt := Some (now env),
                       src_lastSyncedAt := (if st = Success then Some (now env) else src_lastSyncedAt x),
                       src_lastSyncStatus := Some st,
                       src_lastSyncError := jsOr err None \<rparr>"
  from syncSource_cases [OF src act run] consider
    (failed) e where "fetchFor env s = Inl e" "res = Inl e"
      "d' = updateSourceSync env sid SyncError (Some (message e)) d"
  | (unchanged) "fetchFor env s = Inr None" "res = Inr ()"
      "d' = updateSourceSync env sid Success None d"
  | (fetched) result X where "fetchFor env s = Inr (Some result)"
      "d' = updateSourceSync env sid (if isl res then SyncError else Success)
                       (case res of Inl e \<Rightarrow> Some (message e) | Inr u \<Rightarrow> None) X"
      "rssSources X
         = rssSources (updateSourceHeaders sid (ffr_etag result) (ffr_lastModified result) d)"
    by blast
  then show ?thesis
  proof cases
    case failed
    let ?f = "?u SyncError (Some (message e))"
    have "rssSources d' = map (\<lambda>x. if src_sourceId x = sid then ?f x else x) (rssSources d)"
      unfolding failed(3) by (rule updateSourceSync_sel)
    then show ?thesis
      using failed(1,2) by (intro exI [of _ ?f]) simp
  next
    case unchanged
    let ?f = "?u Success None"
    have "rssSources d' = map (\<lambda>x. if src_sourceId x = sid then ?f x else x) (rssSources d)"
      unfolding unchanged(3) by (rule updateSourceSync_sel)
    then show ?thesis
      using unchanged(1,2) by (intro exI [of _ ?f]) simp
  next
    case fetched
    let ?st = "if isl res then SyncError else Success"
    let ?err = "case res of Inl e \<Rightarrow> Some (message e) | Inr u \<Rightarrow> None"
    let ?h = "\<lambda>x. x\<lparr> src_etag := jsOr (ffr_etag result) None,
                       src_lastModified := jsOr (ffr_lastModified result) None \<rparr>"
    have "rssSources X = map (\<lambda>x. if src_sourceId x = sid then ?h x else x) (rssSources d)"
      unfolding fetched(3) by (simp add: updateSourceHeaders_def)
    then have "rssSources d'
        = map (\<lambda>x. if src_sourceId x = sid then ?u ?st ?err x else x)
            (map (\<lambda>x. if src_sourceId x = sid then ?h x else x) (rssSources d))"
      unfolding fetched(2) updateSourceSync_sel by simp
    also have "\<dots> = map (\<lambda>x. if src_sourceId x = sid then ?u ?st ?err (?h x) else x) (rssSources d)"
      by (rule map_if_compose) simp
    finally have "rssSources d'
        = map (\<lambda>x. if src_sourceId x = sid then (\<lambda>y. ?u ?st ?err (?h y)) x else x) (rssSources d)"
      by simp
    then show ?thesis
      using fetched(1) by (intro exI [of _ "\<lambda>y. ?u ?st ?err (?h y)"]) simp
  qed
qed

lemma syncEach_Cons:
  "syncEach env (s # rest) d = syncEach env rest (snd (syncSource env (src_sourceId s) d))"
  by (simp split: prod.splits sum.splits)

lemma distinct_key_unique:
  "distinct (map key xs) \<Longrightarrow> a \<in> set xs \<Longrightarrow> b \<in> set xs \<Longrightarrow> key a = key b \<Longrightarrow> a = b"
  by (auto simp: distinct_map dest: inj_onD)

lemma jsOr_None: "jsOr None None = None"
  by (simp add: jsOr_def)

lemma syncEach_cycles:
  assumes "distinct (map src_sourceId (rssSources d))"
      and "distinct (map src_sourceId srcs)"
      and "\<forall>s \<in> set srcs. s \<in> set (rssSources d) \<and> src_isActive s"
      and "syncEach env srcs d = (res, d')"
  shows "res = Inr ()
       \<and> map src_sourceId (rssSources d') = map src_sourceId (rssSources d)
       \<and> (\<forall>r \<in> set (rssSources d). src_sourceId r \<notin> set (map src_sourceId srcs)
              \<longrightarrow> r \<in> set (rssSources d'))
       \<and> (\<exists>new. contentItems d' = contentItems d @ new)
       \<and> (\<forall>v. (\<exists>c \<in> set (creators d). cr_sourceType c = ''rss'' \<and> cr_externalId c = v) \<longrightarrow> (\<exists>c \<in> set (creators d'). cr_sourceType c = ''rss'' \<and> cr_externalId c = v))
       \<and> (inj (nanoid env) \<and> (\<forall>n. nanoidCalls d \<le> n \<longrightarrow>
            nanoid env n \<notin> set (map ci_contentId (contentItems d))
            \<and> ''rss-'' @ nanoid env n \<notin> set (map cr_creatorId (creators d))) \<longrightarrow> (\<forall>n. nanoidCalls d' \<le> n \<longrightarrow>
            nanoid env n \<notin> set (map ci_contentId (contentItems d'))
            \<and> ''rss-'' @ nanoid env n \<notin> set (map cr_creatorId (creators d'))))
       \<and> (\<forall>s \<in> set srcs. \<exists>s' \<in> set (rssSources d'). src_sourceId s' = src_sourceId s
       \<and> src_lastCheckedAt s' = Some (now env)
       \<and> (\<forall>e. fetchFor env s = Inl e \<longrightarrow>
              src_lastSyncStatus s' = Some SyncError
              \<and> src_lastSyncError s' = jsOr (Some (message e)) None
              \<and> src_etag s' = src_etag s \<and> src_lastModified s' = src_lastModified s)
       \<and> (fetchFor env s = Inr None \<longrightarrow>
              src_lastSyncStatus s' = Some Success \<and> src_lastSyncError s' = None
              \<and> src_etag s' = src_etag s \<and> src_lastModified s' = src_lastModified s)
       \<and> (\<forall>result. fetchFor env s = Inr (Some result) \<longrightarrow>
              src_etag s' = jsOr (ffr_etag result) None
              \<and> src_lastModified s' = jsOr (ffr_lastModified result) None
              \<and> (src_lastSyncStatus s' = Some Success \<or> src_lastSyncStatus s' = Some SyncError)
              \<and> (src_lastSyncStatus s' = Some Success \<longrightarrow>
                    src_lastSyncError s' = None
                    \<and> (\<exists>c \<in> set (creators d'). cr_sourceType c = ''rss'' \<and> cr_externalId c = src_feedUrl s)
                    \<and> (\<forall>p \<in> set (feed_items (ffr_feed result)). \<exists>r \<in> set (contentItems d').
                    ci_sourceType r = ''rss'' \<and> ci_contentHash r = Some (pf_hash p)))))
       \<and> (inj (nanoid env) \<and> (\<forall>n. nanoidCalls d \<le> n \<longrightarrow>
            nanoid env n \<notin> set (map ci_contentId (contentItems d))
            \<and> ''rss-'' @ nanoid env n \<notin> set (map cr_creatorId (creators d))) \<longrightarrow>
            (\<forall>s \<in> set srcs. \<forall>result. fetchFor env s = Inr (Some result) \<longrightarrow>
               (\<forall>p \<in> set (feed_items (ffr_feed result)). pf_url p \<noteq> None) \<longrightarrow>
               (\<forall>s' \<in> set (rssSources d'). src_sourceId s' = src_sourceId s \<longrightarrow>
                  src_lastSyncStatus s' = Some Success)))"
  using assms
proof (induction srcs arbitrary: d)
  case Nil
  then show ?case by simp
next
  case (Cons s rest)
  let ?sid = "src_sourceId s"
  obtain r1 d1 where one: "syncSource env ?sid d = (r1, d1)"
    by (cases "syncSource env ?sid d") simp
  from Cons.prems(4) one have rest: "syncEach env rest d1 = (res, d')"
    by (simp add: syncEach_Cons)
  from Cons.prems(3) have mem: "s \<in> set (rssSources d)" and act: "src_isActive s"
    by simp_all
  from getSource_distinct [OF Cons.prems(1) mem] have src: "getSource d ?sid = Some s" .
  from syncSource_rows [OF src act one] obtain f where
    rows: "rssSources d1 = map (\<lambda>x. if src_sourceId x = ?sid then f x else x) (rssSources d)" and
    keep: "\<And>x. src_sourceId (f x) = src_sourceId x" and
    checked: "src_lastCheckedAt (f s) = Some (now env)" and
    status: "src_lastSyncStatus (f s) = Some (if isl r1 then SyncError else Success)" and
    err: "src_lastSyncError (f s)
            = jsOr (case r1 of Inl e \<Rightarrow> Some (message e) | Inr u \<Rightarrow> None) None" and
    tok1: "\<forall>result. fetchFor env s = Inr (Some result) \<longrightarrow>
                         src_etag (f s) = jsOr (ffr_etag result) None
                         \<and> src_lastModified (f s) = jsOr (ffr_lastModified result) None" and
    tok2: "(\<forall>result. fetchFor env s \<noteq> Inr (Some result)) \<longrightarrow>
                         src_etag (f s) = src_etag s \<and> src_lastModified (f s) = src_lastModified s" and
    o1: "\<forall>e. fetchFor env s = Inl e \<longrightarrow> r1 = Inl e" and
    o2: "fetchFor env s = Inr None \<longrightarrow> r1 = Inr ()"
    by blast
  from syncSource_store [OF src act one] have
    st1: "\<exists>new. contentItems d1 = contentItems d @ new" and
    st2: "\<forall>v. (\<exists>c \<in> set (creators d). cr_sourceType c = ''rss'' \<and> cr_externalId c = v) \<longrightarrow> (\<exists>c \<in> set (creators d1). cr_sourceType c = ''rss'' \<and> cr_externalId c = v)" and
    st3: "inj (nanoid env) \<and> (\<forall>n. nanoidCalls d \<le> n \<longrightarrow>
            nanoid env n \<notin> set (map ci_contentId (contentItems d))
            \<and> ''rss-'' @ nanoid env n \<notin> set (map cr_creatorId (creators d))) \<longrightarrow> (\<forall>n. nanoidCalls d1 \<le> n \<longrightarrow>
            nanoid env n \<notin> set (map ci_contentId (contentItems d1))
            \<and> ''rss-'' @ nanoid env n \<notin> set (map cr_creatorId (creators d1)))" and
    st4: "\<forall>result. fetchFor env s = Inr (Some result) \<longrightarrow>
             (r1 = Inr () \<longrightarrow> (\<exists>c \<in> set (creators d1). cr_sourceType c = ''rss'' \<and> cr_externalId c = src_feedUrl s) \<and> (\<forall>p \<in> set (feed_items (ffr_feed result)). \<exists>r \<in> set (contentItems d1).
            ci_sourceType r = ''rss'' \<and> ci_contentHash r = Some (pf_hash p)))
             \<and> (inj (nanoid env) \<and> (\<forall>n. nanoidCalls d \<le> n \<longrightarrow>
            nanoid env n \<notin> set (map ci_contentId (contentItems d))
            \<and> ''rss-'' @ nanoid env n \<notin> set (map cr_creatorId (creators d))) \<and> (\<forall>p \<in> set (feed_items (ffr_feed result)). pf_url p \<noteq> None)
                   \<longrightarrow> r1 = Inr ())"
    by blast+
  have ids1: "map src_sourceId (rssSources d1) = map src_sourceId (rssSources d)"
    unfolding rows by (rule map_if_keys) (rule keep)
  have dist1: "distinct (map src_sourceId (rssSources d1))"
    using ids1 Cons.prems(1) by simp
  have distrest: "distinct (map src_sourceId rest)" and notin: "?sid \<notin> set (map src_sourceId rest)"
    using Cons.prems(2) by simp_all
  have rest1: "\<forall>t \<in> set rest. t \<in> set (rssSources d1) \<and> src_isActive t"
  proof
    fix t assume t: "t \<in> set rest"
    with Cons.prems(3) have "t \<in> set (rssSources d)" "src_isActive t"
      by simp_all
    moreover from t have "src_sourceId t \<in> set (map src_sourceId rest)"
      by simp
    with notin have "src_sourceId t \<noteq> ?sid"
      by metis
    ultimately show "t \<in> set (rssSources d1) \<and> src_isActive t"
      unfolding rows by (simp add: map_if_other)
  qed
  from Cons.IH [OF dist1 distrest rest1 rest] have
    i1: "res = Inr ()" and
    i2: "map src_sourceId (rssSources d') = map src_sourceId (rssSources d1)" and
    i3: "\<forall>r \<in> set (rssSources d1). src_sourceId r \<notin> set (map src_sourceId rest)
              \<longrightarrow> r \<in> set (rssSources d')" and
    i4: "\<exists>new. contentItems d' = contentItems d1 @ new" and
    i5: "\<forall>v. (\<exists>c \<in> set (creators d1). cr_sourceType c = ''rss'' \<and> cr_externalId c = v) \<longrightarrow> (\<exists>c \<in> set (creators d'). cr_sourceType c = ''rss'' \<and> cr_externalId c = v)" and
    i6: "inj (nanoid env) \<and> (\<forall>n. nanoidCalls d1 \<le> n \<longrightarrow>
            nanoid env n \<notin> set (map ci_contentId (contentItems d1))
            \<and> ''rss-'' @ nanoid env n \<notin> set (map cr_creatorId (creators d1))) \<longrightarrow> (\<forall>n. nanoidCalls d' \<le> n \<longrightarrow>
            nanoid env n \<notin> set (map ci_contentId (contentItems d'))
            \<and> ''rss-'' @ nanoid env n \<notin> set (map cr_creatorId (creators d')))" and
    i7: "\<forall>s \<in> set rest. \<exists>s' \<in> set (rssSources d'). src_sourceId s' = src_sourceId s
       \<and> src_lastCheckedAt s' = Some (now env)
       \<and> (\<forall>e. fetchFor env s = Inl e \<longrightarrow>
              src_lastSyncStatus s' = Some SyncError
              \<and> src_lastSyncError s' = jsOr (Some (message e)) None
              \<and> src_etag s' = src_etag s \<and> src_lastModified s' = src_lastModified s)
       \<and> (fetchFor env s = Inr None \<longrightarrow>
              src_lastSyncStatus s' = Some Success \<and> src_lastSyncError s' = None
              \<and> src_etag s' = src_etag s \<and> src_lastModified s' = src_lastModified s)
       \<and> (\<forall>result. fetchFor env s = Inr (Some result) \<longrightarrow>
              src_etag s' = jsOr (ffr_etag result) None
              \<and> src_lastModified s' = jsOr (ffr_lastModified result) None
              \<and> (src_lastSyncStatus s' = Some Success \<or> src_lastSyncStatus s' = Some SyncError)
              \<and> (src_lastSyncStatus s' = Some Success \<longrightarrow>
                    src_lastSyncError s' = None
                    \<and> (\<exists>c \<in> set (creators d'). cr_sourceType c = ''rss'' \<and> cr_externalId c = src_feedUrl s)
                    \<and> (\<forall>p \<in> set (feed_items (ffr_feed result)). \<exists>r \<in> set (contentItems d').
                    ci_sourceType r = ''rss'' \<and> ci_contentHash r = Some (pf_hash p))))" and
    i8: "inj (nanoid env) \<and> (\<forall>n. nanoidCalls d1 \<le> n \<longrightarrow>
            nanoid env n \<notin> set (map ci_contentId (contentItems d1))
            \<and> ''rss-'' @ nanoid env n \<notin> set (map cr_creatorId (creators d1))) \<longrightarrow>
            (\<forall>s \<in> set rest. \<forall>result. fetchFor env s = Inr (Some result) \<longrightarrow>
               (\<forall>p \<in> set (feed_items (ffr_feed result)). pf_url p \<noteq> None) \<longrightarrow>
               (\<forall>s' \<in> set (rssSources d'). src_sourceId s' = src_sourceId s \<longrightarrow>
                  src_lastSyncStatus s' = Some Success))"
    by blast+
  have fs1: "f s \<in> set (rssSources d1)"
    unfolding rows using mem by (rule map_if_self) simp
  with i3 notin keep have fs: "f s \<in> set (rssSources d')"
    by simp
  have dist': "distinct (map src_sourceId (rssSources d'))"
    using i2 dist1 by simp
  have c1: "src_sourceId (f s) = src_sourceId s"
    by (rule keep)
  have c3: "\<forall>e. fetchFor env s = Inl e \<longrightarrow>
              src_lastSyncStatus (f s) = Some SyncError
              \<and> src_lastSyncError (f s) = jsOr (Some (message e)) None
              \<and> src_etag (f s) = src_etag s \<and> src_lastModified (f s) = src_lastModified s"
  proof (intro allI impI)
    fix e assume a: "fetchFor env s = Inl e"
    with o1 have "r1 = Inl e"
      by simp
    with status err tok2 a show "src_lastSyncStatus (f s) = Some SyncError
              \<and> src_lastSyncError (f s) = jsOr (Some (message e)) None
              \<and> src_etag (f s) = src_etag s \<and> src_lastModified (f s) = src_lastModified s"
      by simp
  qed
  have c4: "fetchFor env s = Inr None \<longrightarrow>
              src_lastSyncStatus (f s) = Some Success \<and> src_lastSyncError (f s) = None
              \<and> src_etag (f s) = src_etag s \<and> src_lastModified (f s) = src_lastModified s"
  proof
    assume a: "fetchFor env s = Inr None"
    with o2 have "r1 = Inr ()"
      by simp
    with status err tok2 a show "src_lastSyncStatus (f s) = Some Success \<and> src_lastSyncError (f s) = None
              \<and> src_etag (f s) = src_etag s \<and> src_lastModified (f s) = src_lastModified s"
      by (simp add: jsOr_None)
  qed
  have c5: "\<forall>result. fetchFor env s = Inr (Some result) \<longrightarrow>
              src_etag (f s) = jsOr (ffr_etag result) None
              \<and> src_lastModified (f s) = jsOr (ffr_lastModified result) None
              \<and> (src_lastSyncStatus (f s) = Some Success \<or> src_lastSyncStatus (f s) = Some SyncError)
              \<and> (src_lastSyncStatus (f s) = Some Success \<longrightarrow>
                    src_lastSyncError (f s) = None
                    \<and> (\<exists>c \<in> set (creators d'). cr_sourceType c = ''rss'' \<and> cr_externalId c = src_feedUrl s)
                    \<and> (\<forall>p \<in> set (feed_items (ffr_feed result)). \<exists>r \<in> set (contentItems d').
            ci_sourceType r = ''rss'' \<and> ci_contentHash r = Some (pf_hash p)))"
  proof (intro allI impI)
    fix result assume a: "fetchFor env s = Inr (Some result)"
    from tok1 a have t: "src_etag (f s) = jsOr (ffr_etag result) None"
      "src_lastModified (f s) = jsOr (ffr_lastModified result) None"
      by simp_all
    from status have disj: "src_lastSyncStatus (f s) = Some Success \<or> src_lastSyncStatus (f s) = Some SyncError"
      by simp
    have stored: "src_lastSyncError (f s) = None
                    \<and> (\<exists>c \<in> set (creators d'). cr_sourceType c = ''rss'' \<and> cr_externalId c = src_feedUrl s)
                    \<and> (\<forall>p \<in> set (feed_items (ffr_feed result)). \<exists>r \<in> set (contentItems d').
            ci_sourceType r = ''rss'' \<and> ci_contentHash r = Some (pf_hash p))"
      if ok: "src_lastSyncStatus (f s) = Some Success"
    proof -
      from ok status have "\<not> isl r1"
        by (simp split: if_splits)
      then have r1: "r1 = Inr ()"
        by (cases r1) simp_all
      with err have e: "src_lastSyncError (f s) = None"
        by (simp add: jsOr_None)
      from st4 a r1 have hc1: "(\<exists>c \<in> set (creators d1). cr_sourceType c = ''rss'' \<and> cr_externalId c = src_feedUrl s)"
        and hp1: "(\<forall>p \<in> set (feed_items (ffr_feed result)). \<exists>r \<in> set (contentItems d1).
            ci_sourceType r = ''rss'' \<and> ci_contentHash r = Some (pf_hash p))"
        by blast+
      from i5 hc1 have hc: "(\<exists>c \<in> set (creators d'). cr_sourceType c = ''rss'' \<and> cr_externalId c = src_feedUrl s)"
        by blast
      from i4 obtain new where new: "contentItems d' = contentItems d1 @ new"
        by blast
      from hp1 have hp: "(\<forall>p \<in> set (feed_items (ffr_feed result)). \<exists>r \<in> set (contentItems d').
            ci_sourceType r = ''rss'' \<and> ci_contentHash r = Some (pf_hash p))"
        unfolding new by auto
      from e hc hp show ?thesis
        by blast
    qed
    from t disj stored show "src_etag (f s) = jsOr (ffr_etag result) None
              \<and> src_lastModified (f s) = jsOr (ffr_lastModified result) None
              \<and> (src_lastSyncStatus (f s) = Some Success \<or> src_lastSyncStatus (f s) = Some SyncError)
              \<and> (src_lastSyncStatus (f s) = Some Success \<longrightarrow>
                    src_lastSyncError (f s) = None
                    \<and> (\<exists>c \<in> set (creators d'). cr_sourceType c = ''rss'' \<and> cr_externalId c = src_feedUrl s)
                    \<and> (\<forall>p \<in> set (feed_items (ffr_feed result)). \<exists>r \<in> set (contentItems d').
            ci_sourceType r = ''rss'' \<and> ci_contentHash r = Some (pf_hash p)))"
      by blast
  qed
  from fs c1 checked c3 c4 c5 have here: "\<exists>s' \<in> set (rssSources d'). src_sourceId s' = src_sourceId s
       \<and> src_lastCheckedAt s' = Some (now env)
       \<and> (\<forall>e. fetchFor env s = Inl e \<longrightarrow>
              src_lastSyncStatus s' = Some SyncError
              \<and> src_lastSyncError s' = jsOr (Some (message e)) None
              \<and> src_etag s' = src_etag s \<and> src_lastModified s' = src_lastModified s)
       \<and> (fetchFor env s = Inr None \<longrightarrow>
              src_lastSyncStatus s' = Some Success \<and> src_lastSyncError s' = None
              \<and> src_etag s' = src_etag s \<and> src_lastModified s' = src_lastModified s)
       \<and> (\<forall>result. fetchFor env s = Inr (Some result) \<longrightarrow>
              src_etag s' = jsOr (ffr_etag result) None
              \<and> src_lastModified s' = jsOr (ffr_lastModified result) None
              \<and> (src_lastSyncStatus s' = Some Success \<or> src_lastSyncStatus s' = Some SyncError)
              \<and> (src_lastSyncStatus s' = Some Success \<longrightarrow>
                    src_lastSyncError s' = None
                    \<and> (\<exists>c \<in> set (creators d'). cr_sourceType c = ''rss'' \<and> cr_externalId c = src_feedUrl s)
                    \<and> (\<forall>p \<in> set (feed_items (ffr_feed result)). \<exists>r \<in> set (contentItems d').
                    ci_sourceType r = ''rss'' \<and> ci_contentHash r = Some (pf_hash p))))"
    by (intro bexI [of _ "f s"] conjI)
  have others: "\<forall>r \<in> set (rssSources d). src_sourceId r \<notin> set (map src_sourceId (s # rest))
              \<longrightarrow> r \<in> set (rssSources d')"
  proof (intro ballI impI)
    fix r assume r: "r \<in> set (rssSources d)"
      and n: "src_sourceId r \<notin> set (map src_sourceId (s # rest))"
    then have "r \<in> set (rssSources d1)"
      unfolding rows by (simp add: map_if_other)
    with i3 n show "r \<in> set (rssSources d')"
      by simp
  qed
  from st1 i4 have grow: "\<exists>new. contentItems d' = contentItems d @ new"
    by auto
  from st2 i5 have keepc: "\<forall>v. (\<exists>c \<in> set (creators d). cr_sourceType c = ''rss'' \<and> cr_externalId c = v) \<longrightarrow> (\<exists>c \<in> set (creators d'). cr_sourceType c = ''rss'' \<and> cr_externalId c = v)"
    by blast
  from st3 i6 have fresh: "inj (nanoid env) \<and> (\<forall>n. nanoidCalls d \<le> n \<longrightarrow>
            nanoid env n \<notin> set (map ci_contentId (contentItems d))
            \<and> ''rss-'' @ nanoid env n \<notin> set (map cr_creatorId (creators d))) \<longrightarrow> (\<forall>n. nanoidCalls d' \<le> n \<longrightarrow>
            nanoid env n \<notin> set (map ci_contentId (contentItems d'))
            \<and> ''rss-'' @ nanoid env n \<notin> set (map cr_creatorId (creators d')))"
    by blast
  have succ: "inj (nanoid env) \<and> (\<forall>n. nanoidCalls d \<le> n \<longrightarrow>
            nanoid env n \<notin> set (map ci_contentId (contentItems d))
            \<and> ''rss-'' @ nanoid env n \<notin> set (map cr_creatorId (creators d))) \<longrightarrow>
            (\<forall>t \<in> set (s # rest). \<forall>result. fetchFor env t = Inr (Some result) \<longrightarrow>
               (\<forall>p \<in> set (feed_items (ffr_feed result)). pf_url p \<noteq> None) \<longrightarrow>
               (\<forall>s' \<in> set (rssSources d'). src_sourceId s' = src_sourceId t \<longrightarrow>
                  src_lastSyncStatus s' = Some Success))"
  proof
    assume fr: "inj (nanoid env) \<and> (\<forall>n. nanoidCalls d \<le> n \<longrightarrow>
            nanoid env n \<notin> set (map ci_contentId (contentItems d))
            \<and> ''rss-'' @ nanoid env n \<notin> set (map cr_creatorId (creators d)))"
    with st3 have "inj (nanoid env) \<and> (\<forall>n. nanoidCalls d1 \<le> n \<longrightarrow>
            nanoid env n \<notin> set (map ci_contentId (contentItems d1))
            \<and> ''rss-'' @ nanoid env n \<notin> set (map cr_creatorId (creators d1)))"
      by blast
    with i8 have tail: "\<forall>t \<in> set rest. \<forall>result. fetchFor env t = Inr (Some result) \<longrightarrow>
               (\<forall>p \<in> set (feed_items (ffr_feed result)). pf_url p \<noteq> None) \<longrightarrow>
               (\<forall>s' \<in> set (rssSources d'). src_sourceId s' = src_sourceId t \<longrightarrow>
                  src_lastSyncStatus s' = Some Success)"
      by blast
    have head: "\<forall>result. fetchFor env s = Inr (Some result) \<longrightarrow>
               (\<forall>p \<in> set (feed_items (ffr_feed result)). pf_url p \<noteq> None) \<longrightarrow>
               (\<forall>s' \<in> set (rssSources d'). src_sourceId s' = src_sourceId s \<longrightarrow>
                  src_lastSyncStatus s' = Some Success)"
    proof (intro allI impI ballI)
      fix result s'
      assume a: "fetchFor env s = Inr (Some result)"
        and u: "(\<forall>p \<in> set (feed_items (ffr_feed result)). pf_url p \<noteq> None)"
        and s': "s' \<in> set (rssSources d')" "src_sourceId s' = src_sourceId s"
      from st4 a fr u have "r1 = Inr ()"
        by blast
      with status have "src_lastSyncStatus (f s) = Some Success"
        by simp
      moreover from distinct_key_unique [OF dist' s'(1) fs] s'(2) c1 have "s' = f s"
        by simp
      ultimately show "src_lastSyncStatus s' = Some Success"
        by simp
    qed
    from head tail show "\<forall>t \<in> set (s # rest). \<forall>result. fetchFor env t = Inr (Some result) \<longrightarrow>
               (\<forall>p \<in> set (feed_items (ffr_feed result)). pf_url p \<noteq> None) \<longrightarrow>
               (\<forall>s' \<in> set (rssSources d'). src_sourceId s' = src_sourceId t \<longrightarrow>
                  src_lastSyncStatus s' = Some Success)"
      by simp
  qed
  have ids: "map src_sourceId (rssSources d') = map src_sourceId (rssSources d)"
    using i2 ids1 by simp
  have all: "\<forall>t \<in> set (s # rest). \<exists>s' \<in> set (rssSources d'). src_sourceId s' = src_sourceId t
       \<and> src_lastCheckedAt s' = Some (now env)
       \<and> (\<forall>e. fetchFor env t = Inl e \<longrightarrow>
              src_lastSyncStatus s' = Some SyncError
              \<and> src_lastSyncError s' = jsOr (Some (message e)) None
              \<and> src_etag s' = src_etag t \<and> src_lastModified s' = src_lastModified t)
       \<and> (fetchFor env t = Inr None \<longrightarrow>
              src_lastSyncStatus s' = Some Success \<and> src_lastSyncError s' = None
              \<and> src_etag s' = src_etag t \<and> src_lastModified s' = src_lastModified t)
       \<and> (\<forall>result. fetchFor env t = Inr (Some result) \<longrightarrow>
              src_etag s' = jsOr (ffr_etag result) None
              \<and> src_lastModified s' = jsOr (ffr_lastModified result) None
              \<and> (src_lastSyncStatus s' = Some Success \<or> src_lastSyncStatus s' = Some SyncError)
              \<and> (src_lastSyncStatus s' = Some Success \<longrightarrow>
                    src_lastSyncError s' = None
                    \<and> (\<exists>c \<in> set (creators d'). cr_sourceType c = ''rss'' \<and> cr_externalId c = src_feedUrl t)
                    \<and> (\<forall>p \<in> set (feed_items (ffr_feed result)). \<exists>r \<in> set (contentItems d').
                    ci_sourceType r = ''rss'' \<and> ci_contentHash r = Some (pf_hash p))))"
    using here i7 by simp
  from i1 ids others grow keepc fresh all succ show ?case
    by (intro conjI)
qed

lemma getUserSources_props:
  assumes "distinct (map src_sourceId (rssSources d))"
  shows "distinct (map src_sourceId (getUserSources d userId))
       \<and> (\<forall>s \<in> set (getUserSources d userId). s \<in> set (rssSources d) \<and> src_isActive s)"
proof -
  let ?xs = "filter (\<lambda>s. src_userId s = userId \<and> src_isActive s = True) (rssSources d)"
  from assms have "distinct (map src_sourceId ?xs)"
    by (rule distinct_map_filter)
  then have "distinct ?xs" "inj_on src_sourceId (set ?xs)"
    by (simp_all add: distinct_map)
  then have "distinct (map src_sourceId (rev (sort_key src_addedAt ?xs)))"
    by (simp add: distinct_map)
  then show ?thesis
    by (simp add: getUserSources_def)
qed

section \<open>C7: a failing source does not stop the batch\<close>

text \<open>
  C7: \<open>syncAllSources\<close> never raises, and every active source of the user goes through its
  own full cycle whatever happened to the sources before and after it. In the state the
  batch leaves, the row of each source carries the time of this check, and

    \<^item> when its own fetch or parse failed: the status \<open>error\<close> with the message of that
      failure, and its caching tokens as before;

    \<^item> when its fetch was answered with 304: the status \<open>success\<close>, no error, and its
      caching tokens as before;

    \<^item> when its fetch returned a feed: the caching tokens of the response, and the status
      \<open>success\<close> or \<open>error\<close>; with the status \<open>success\<close> the store holds the
      creator of the feed and a content item for every post of the feed. The status is
      \<open>success\<close> whenever the store cannot reject an insert: every post has a url, and
      the ids that \<open>nanoid\<close> is still to draw are pairwise different and new to the store.

  The sources table is assumed to satisfy its primary key.
\<close>

theorem C7_batch_isolation:
  assumes "distinct (map src_sourceId (rssSources d))"
      and "syncAllSources env userId d = (res, d')"
  shows "res = Inr ()
       \<and> (\<forall>s \<in> set (getUserSources d userId). \<exists>s' \<in> set (rssSources d').
            src_sourceId s' = src_sourceId s
            \<and> src_lastCheckedAt s' = Some (now env)
            \<and> (\<forall>e. fetchFor env s = Inl e \<longrightarrow>
                   src_lastSyncStatus s' = Some SyncError
                   \<and> src_lastSyncError s' = jsOr (Some (message e)) None
                   \<and> src_etag s' = src_etag s \<and> src_lastModified s' = src_lastModified s)
            \<and> (fetchFor env s = Inr None \<longrightarrow>
                   src_lastSyncStatus s' = Some Success \<and> src_lastSyncError s' = None
                   \<and> src_etag s' = src_etag s \<and> src_lastModified s' = src_lastModified s)
            \<and> (\<forall>result. fetchFor env s = Inr (Some result) \<longrightarrow>
                   src_etag s' = jsOr (ffr_etag result) None
                   \<and> src_lastModified s' = jsOr (ffr_lastModified result) None
                   \<and> (src_lastSyncStatus s' = Some Success \<or> src_lastSyncStatus s' = Some SyncError)
                   \<and> (src_lastSyncStatus s' = Some Success \<longrightarrow>
                         src_lastSyncError s' = None
                         \<and> (\<exists>c \<in> set (creators d').
                               cr_sourceType c = ''rss'' \<and> cr_externalId c = src_feedUrl s)
                         \<and> (\<forall>p \<in> set (feed_items (ffr_feed result)). \<exists>r \<in> set (contentItems d').
                               ci_sourceType r = ''rss'' \<and> ci_contentHash r = Some (pf_hash p))))
            \<and> (inj (nanoid env)
                 \<and> (\<forall>n. nanoidCalls d \<le> n \<longrightarrow>
                       nanoid env n \<notin> set (map ci_contentId (contentItems d))
                       \<and> ''rss-'' @ nanoid env n \<notin> set (map cr_creatorId (creators d)))
                 \<longrightarrow> (\<forall>result. fetchFor env s = Inr (Some result) \<longrightarrow>
                        (\<forall>p \<in> set (feed_items (ffr_feed result)). pf_url p \<noteq> None) \<longrightarrow>
                        src_lastSyncStatus s' = Some Success)))"
proof -
  from assms(2) have run: "syncEach env (getUserSources d userId) d = (res, d')"
    by (simp add: syncAllSources_def)
  from getUserSources_props [OF assms(1), of userId] have
    "distinct (map src_sourceId (getUserSources d userId))"
    "\<forall>s \<in> set (getUserSources d userId). s \<in> set (rssSources d) \<and> src_isActive s"
    by simp_all
  from syncEach_cycles [OF assms(1) this run] have
    r: "res = Inr ()" and
    g: "\<forall>s \<in> set (getUserSources d userId). \<exists>s' \<in> set (rssSources d'). src_sourceId s' = src_sourceId s
       \<and> src_lastCheckedAt s' = Some (now env)
       \<and> (\<forall>e. fetchFor env s = Inl e \<longrightarrow>
              src_lastSyncStatus s' = Some SyncError
              \<and> src_lastSyncError s' = jsOr (Some (message e)) None
              \<and> src_etag s' = src_etag s \<and> src_lastModified s' = src_lastModified s)
       \<and> (fetchFor env s = Inr None \<longrightarrow>
              src_lastSyncStatus s' = Some Success \<and> src_lastSyncError s' = None
              \<and> src_etag s' = src_etag s \<and> src_lastModified s' = src_lastModified s)
       \<and> (\<forall>result. fetchFor env s = Inr (Some result) \<longrightarrow>
              src_etag s' = jsOr (ffr_etag result) None
              \<and> src_lastModified s' = jsOr (ffr_lastModified result) None
              \<and> (src_lastSyncStatus s' = Some Success \<or> src_lastSyncStatus s' = Some SyncError)
              \<and> (src_lastSyncStatus s' = Some Success \<longrightarrow>
                    src_lastSyncError s' = None
                    \<and> (\<exists>c \<in> set (creators d'). cr_sourceType c = ''rss'' \<and> cr_externalId c = src_feedUrl s)
                    \<and> (\<forall>p \<in> set (feed_items (ffr_feed result)). \<exists>r \<in> set (contentItems d').
                    ci_sourceType r = ''rss'' \<and> ci_contentHash r = Some (pf_hash p))))" and
    h: "inj (nanoid env) \<and> (\<forall>n. nanoidCalls d \<le> n \<longrightarrow>
            nanoid env n \<notin> set (map ci_contentId (contentItems d))
            \<and> ''rss-'' @ nanoid env n \<notin> set (map cr_creatorId (creators d))) \<longrightarrow>
            (\<forall>s \<in> set (getUserSources d userId). \<forall>result. fetchFor env s = Inr (Some result) \<longrightarrow>
               (\<forall>p \<in> set (feed_items (ffr_feed result)). pf_url p \<noteq> None) \<longrightarrow>
               (\<forall>s' \<in> set (rssSources d'). src_sourceId s' = src_sourceId s \<longrightarrow>
                  src_lastSyncStatus s' = Some Success))"
    by blast+
  have "\<exists>s' \<in> set (rssSources d').
            (src_sourceId s' = src_sourceId s
       \<and> src_lastCheckedAt s' = Some (now env)
       \<and> (\<forall>e. fetchFor env s = Inl e \<longrightarrow>
              src_lastSyncStatus s' = Some SyncError
              \<and> src_lastSyncError s' = jsOr (Some (message e)) None
              \<and> src_etag s' = src_etag s \<and> src_lastModified s' = src_lastModified s)
       \<and> (fetchFor env s = Inr None \<longrightarrow>
              src_lastSyncStatus s' = Some Success \<and> src_lastSyncError s' = None
              \<and> src_etag s' = src_etag s \<and> src_lastModified s' = src_lastModified s)
       \<and> (\<forall>result. fetchFor env s = Inr (Some result) \<longrightarrow>
              src_etag s' = jsOr (ffr_etag result) None
              \<and> src_lastModified s' = jsOr (ffr_lastModified result) None
              \<and> (src_lastSyncStatus s' = Some Success \<or> src_lastSyncStatus s' = Some SyncError)
              \<and> (src_lastSyncStatus s' = Some Success \<longrightarrow>
                    src_lastSyncError s' = None
                    \<and> (\<exists>c \<in> set (creators d'). cr_sourceType c = ''rss'' \<and> cr_externalId c = src_feedUrl s)
                    \<and> (\<forall>p \<in> set (feed_items (ffr_feed result)). \<exists>r \<in> set (contentItems d').
                    ci_sourceType r = ''rss'' \<and> ci_contentHash r = Some (pf_hash p)))))
       \<and> (inj (nanoid env) \<and> (\<forall>n. nanoidCalls d \<le> n \<longrightarrow>
                nanoid env n \<notin> set (map ci_contentId (contentItems d))
                \<and> ''rss-'' @ nanoid env n \<notin> set (map cr_creatorId (creators d))) \<longrightarrow>
              (\<forall>result. fetchFor env s = Inr (Some result) \<longrightarrow>
                 (\<forall>p \<in> set (feed_items (ffr_feed result)). pf_url p \<noteq> None) \<longrightarrow>
                 src_lastSyncStatus s' = Some Success))"
    if s: "s \<in> set (getUserSources d userId)" for s
  proof -
    from g s obtain s' where s': "s' \<in> set (rssSources d')" and ps: "src_sourceId s' = src_sourceId s
       \<and> src_lastCheckedAt s' = Some (now env)
       \<and> (\<forall>e. fetchFor env s = Inl e \<longrightarrow>
              src_lastSyncStatus s' = Some SyncError
              \<and> src_lastSyncError s' = jsOr (Some (message e)) None
              \<and> src_etag s' = src_etag s \<and> src_lastModified s' = src_lastModified s)
       \<and> (fetchFor env s = Inr None \<longrightarrow>
              src_lastSyncStatus s' = Some Success \<and> src_lastSyncError s' = None
              \<and> src_etag s' = src_etag s \<and> src_lastModified s' = src_lastModified s)
       \<and> (\<forall>result. fetchFor env s = Inr (Some result) \<longrightarrow>
              src_etag s' = jsOr (ffr_etag result) None
              \<and> src_lastModified s' = jsOr (ffr_lastModified result) None
              \<and> (src_lastSyncStatus s' = Some Success \<or> src_lastSyncStatus s' = Some SyncError)
              \<and> (src_lastSyncStatus s' = Some Success \<longrightarrow>
                    src_lastSyncError s' = None
                    \<and> (\<exists>c \<in> set (creators d'). cr_sourceType c = ''rss'' \<and> cr_externalId c = src_feedUrl s)
                    \<and> (\<forall>p \<in> set (feed_items (ffr_feed result)). \<exists>r \<in> set (contentItems d').
                    ci_sourceType r = ''rss'' \<and> ci_contentHash r = Some (pf_hash p))))"
      by blast
    note p1 = ps [THEN conjunct1]
      and p2 = ps [THEN conjunct2, THEN conjunct1]
      and p3 = ps [THEN conjunct2, THEN conjunct2, THEN conjunct1]
      and p4 = ps [THEN conjunct2, THEN conjunct2, THEN conjunct2, THEN conjunct1]
      and p5 = ps [THEN conjunct2, THEN conjunct2, THEN conjunct2, THEN conjunct2]
    from h s s' p1 have "(inj (nanoid env) \<and> (\<forall>n. nanoidCalls d \<le> n \<longrightarrow>
                nanoid env n \<notin> set (map ci_contentId (contentItems d))
                \<and> ''rss-'' @ nanoid env n \<notin> set (map cr_creatorId (creators d))) \<longrightarrow>
              (\<forall>result. fetchFor env s = Inr (Some result) \<longrightarrow>
                 (\<forall>p \<in> set (feed_items (ffr_feed result)). pf_url p \<noteq> None) \<longrightarrow>
                 src_lastSyncStatus s' = Some Success))"
      by blast
    with s' p1 p2 p3 p4 p5 show ?thesis
      by (intro bexI [of _ s'] conjI)
  qed
  with r show ?thesis
    by simp
qed

lemma batch_sources:
  "getUserSources batchDb ''u''
     = [blogSource ''s1'' ''one'' ''3'', blogSource ''s2'' ''two'' ''2'', blogSource ''s3'' ''three'' ''1'']"
  by code_simp

lemma batch_distinct: "distinct (map src_sourceId (rssSources batchDb))"
  by (simp add: batchDb_def emptyDb_def blogSource_def)

lemmas posts_run_defs =
  syncSource_def syncSourceTry_def getSource_def batchDb_def emptyDb_def
  blogSource_def postsEnv_def batchEnv_def stubEnv_def reply_def fetchAndParseFeed_def ok_def
  conditionalHeaders_def userAgent_def parseRssOrAtom_def parseRssItem_def contentItem_def
  publishedAtOf_def updateSourceSync_def updateSourceHeaders_def upsertCreator_def
  upsertPosts_def insertCreator_def insertContentItem_def newContentItem_def drawId_def
  jsOr_def jsOrStr_def truthy_def Let_def

lemma posts_fetches:
  "map (\<lambda>s. map_sum message (map_option (\<lambda>r. map pf_hash (feed_items (ffr_feed r))))
               (fetchFor postsEnv s))
       (getUserSources batchDb ''u'')
     = [Inr None, Inl ''This operation was aborted'', Inr (Some [generateContentHash ''u'' ''t'' ''c''])]"
  unfolding batch_sources
  by (simp add: fetchFor_def posts_run_defs)

lemma posts_run:
  "map (\<lambda>s. (src_sourceId s, src_lastSyncStatus s, src_lastSyncError s, src_etag s, src_lastCheckedAt s))
       (rssSources (snd (syncAllSources postsEnv ''u'' batchDb)))
     = [(''s1'', Some Success, None, Some ''e1'', Some ''t1''),
        (''s2'', Some SyncError, Some ''This operation was aborted'', Some ''e1'', Some ''t1''),
        (''s3'', Some Success, None, Some ''e2'', Some ''t1'')]
   \<and> map (\<lambda>c. (cr_sourceType c, cr_externalId c)) (creators (snd (syncAllSources postsEnv ''u'' batchDb)))
       = [(''rss'', ''three'')]
   \<and> map (\<lambda>r. (ci_sourceType r, ci_contentHash r))
         (contentItems (snd (syncAllSources postsEnv ''u'' batchDb)))
       = [(''rss'', Some (generateContentHash ''u'' ''t'' ''c''))]"
  unfolding syncAllSources_def batch_sources
  by (simp add: posts_run_defs)

theorem C7_batch_isolation_witness:
  "distinct (map src_sourceId (rssSources batchDb))
   \<and> fst (syncAllSources postsEnv ''u'' batchDb) = Inr ()
   \<and> map (\<lambda>s. map_sum message (map_option (\<lambda>r. map pf_hash (feed_items (ffr_feed r))))
                 (fetchFor postsEnv s))
         (getUserSources batchDb ''u'')
       = [Inr None, Inl ''This operation was aborted'', Inr (Some [generateContentHash ''u'' ''t'' ''c''])]
   \<and> map (\<lambda>s. (src_sourceId s, src_lastSyncStatus s, src_lastSyncError s, src_etag s, src_lastCheckedAt s))
         (rssSources (snd (syncAllSources postsEnv ''u'' batchDb)))
       = [(''s1'', Some Success, None, Some ''e1'', Some ''t1''),
          (''s2'', Some SyncError, Some ''This operation was aborted'', Some ''e1'', Some ''t1''),
          (''s3'', Some Success, None, Some ''e2'', Some ''t1'')]
   \<and> map (\<lambda>c. (cr_sourceType c, cr_externalId c)) (creators (snd (syncAllSources postsEnv ''u'' batchDb)))
       = [(''rss'', ''three'')]
   \<and> map (\<lambda>r. (ci_sourceType r, ci_contentHash r))
         (contentItems (snd (syncAllSources postsEnv ''u'' batchDb)))
       = [(''rss'', Some (generateContentHash ''u'' ''t'' ''c''))]"
proof -
  have run: "syncAllSources postsEnv ''u'' batchDb
               = (fst (syncAllSources postsEnv ''u'' batchDb), snd (syncAllSources postsEnv ''u'' batchDb))"
    by simp
  from C7_batch_isolation [OF batch_distinct run]
  have "fst (syncAllSources postsEnv ''u'' batchDb) = Inr ()"
    by (rule conjunct1)
  with batch_distinct posts_fetches posts_run show ?thesis
    by blast
qed

section \<open>Discovery\<close>

lemma checkFeedUrl_found:
  assumes "httpGet env u [userAgent] = Inr r" and "ok r" and "classify env r u = Some ft"
  shows "checkFeedUrl env u = \<lparr>
           fc_success = True, fc_feedUrl = Some u, fc_feedType = Some ft,
           fc_feedTitle = fst (extractFeedMetadata env (body r) ft),
           fc_feedDescription = snd (extractFeedMetadata env (body r) ft),
           fc_etag = jsOr (etagHeader r) None,
           fc_lastModified = jsOr (lastModifiedHeader r) None \<rparr>"
  using assms by (simp add: checkFeedUrl_def)

lemma checkFeedUrl_not_found:
  assumes "resolveUrl env path base = Inr u" and "\<not> probeOk env base path"
  shows "fc_success (checkFeedUrl env u) = False"
  using assms
  by (auto simp: checkFeedUrl_def probeOk_def checkFailed_def split: sum.splits option.splits)

lemma probeWellKnown_first:
  assumes "\<forall>p \<in> set ps. \<exists>u. resolveUrl env p base = Inr u \<and> u \<noteq> []"
      and "find (probeOk env base) ps = Some path"
  shows "\<exists>u r ft. resolveUrl env path base = Inr u
           \<and> httpGet env u [userAgent] = Inr r \<and> ok r \<and> classify env r u = Some ft
           \<and> probeWellKnown env base ps = Inr (Some \<lparr>
                 fd_feedUrl = u, fd_feedType = ft, fd_discoveryMethod = WellKnownPath,
                 fd_feedTitle = fst (extractFeedMetadata env (body r) ft),
                 fd_feedDescription = snd (extractFeedMetadata env (body r) ft),
                 fd_siteUrl = base \<rparr>)"
  using assms
proof (induction ps)
  case Nil
  then show ?case by simp
next
  case (Cons p ps)
  from Cons.prems(1) obtain u where u: "resolveUrl env p base = Inr u" "u \<noteq> []"
    by auto
  show ?case
  proof (cases "probeOk env base p")
    case True
    with Cons.prems(2) have path: "path = p"
      by simp
    from True u obtain r ft where
      r: "httpGet env u [userAgent] = Inr r" "ok r" "classify env r u = Some ft"
      by (auto simp: probeOk_def split: sum.splits)
    from checkFeedUrl_found [OF r] u r show ?thesis
      unfolding path
      by (intro exI [of _ u] exI [of _ r] exI [of _ ft]) (simp add: truthy_def)
  next
    case False
    with Cons.prems(2) have f: "find (probeOk env base) ps = Some path"
      by simp
    from Cons.prems(1) have "\<forall>p \<in> set ps. \<exists>u. resolveUrl env p base = Inr u \<and> u \<noteq> []"
      by simp
    from Cons.IH [OF this f] obtain u' r ft where
      "resolveUrl env path base = Inr u'" "httpGet env u' [userAgent] = Inr r" "ok r"
      "classify env r u' = Some ft"
      "probeWellKnown env base ps = Inr (Some \<lparr>
                 fd_feedUrl = u', fd_feedType = ft, fd_discoveryMethod = WellKnownPath,
                 fd_feedTitle = fst (extractFeedMetadata env (body r) ft),
                 fd_feedDescription = snd (extractFeedMetadata env (body r) ft),
                 fd_siteUrl = base \<rparr>)"
      by blast
    moreover from checkFeedUrl_not_found [OF u(1) False]
    have "probeWellKnown env base (p # ps) = probeWellKnown env base ps"
      using u by (simp add: Let_def)
    ultimately show ?thesis
      by (intro exI [of _ u'] exI [of _ r] exI [of _ ft]) simp
  qed
qed

section \<open>C8: well-known paths before the HTML link\<close>

text \<open>
  The order of discovery: when the well-known urls of the site can be formed and at least
  one probe, in the fixed order of \<open>WELL_KNOWN_PATHS\<close>, is answered with
  \<^verbatim>\<open>response.ok\<close> and a classifiable response, \<open>discoverFeed\<close> returns the url and feed
  type of the first such path with the method well-known-path, and not the method
  html-link-tag, whatever the HTML of the site advertises.
\<close>

lemma discoverFeed_well_known_first:
  assumes "\<forall>p \<in> set WELL_KNOWN_PATHS.
             \<exists>u. resolveUrl env p (normalizeSiteUrl siteUrl) = Inr u \<and> u \<noteq> []"
      and "find (probeOk env (normalizeSiteUrl siteUrl)) WELL_KNOWN_PATHS = Some path"
  shows "WELL_KNOWN_PATHS
           = [''/feed.xml'', ''/rss.xml'', ''/atom.xml'', ''/feed/'', ''/index.xml'', ''/feed.json'',
              ''/rss/'', ''/feeds/rss.xml'']
       \<and> (\<exists>found r. discoverFeed env siteUrl = Inr found
             \<and> fd_discoveryMethod found = WellKnownPath
             \<and> fd_discoveryMethod found \<noteq> HtmlLinkTag
             \<and> resolveUrl env path (normalizeSiteUrl siteUrl) = Inr (fd_feedUrl found)
             \<and> httpGet env (fd_feedUrl found) [userAgent] = Inr r
             \<and> classify env r (fd_feedUrl found) = Some (fd_feedType found))"
proof -
  from probeWellKnown_first [OF assms] obtain u r ft where
    "resolveUrl env path (normalizeSiteUrl siteUrl) = Inr u"
    "httpGet env u [userAgent] = Inr r" "classify env r u = Some ft"
    "probeWellKnown env (normalizeSiteUrl siteUrl) WELL_KNOWN_PATHS = Inr (Some \<lparr>
                 fd_feedUrl = u, fd_feedType = ft, fd_discoveryMethod = WellKnownPath,
                 fd_feedTitle = fst (extractFeedMetadata env (body r) ft),
                 fd_feedDescription = snd (extractFeedMetadata env (body r) ft),
                 fd_siteUrl = normalizeSiteUrl siteUrl \<rparr>)"
    by blast
  then show ?thesis
    by (simp add: discoverFeed_def WELL_KNOWN_PATHS_def)
qed

lemmas site_defs =
  normalizeSiteUrl_def trim_def isSpace_def WELL_KNOWN_PATHS_def probeOk_def siteEnv_def
  stubEnv_def reply_def ok_def classify_def detectFeedType_def toLowerCase_def lowerChar_def
  jsOrStr_def
  truthy_def userAgent_def Let_def

text \<open>
  On a site whose \<open>/feed.xml\<close> answers 404 and whose \<open>/rss.xml\<close> answers 200, discovery
  returns \<open>/rss.xml\<close> as a well-known path although the HTML advertises another feed;
  without any well-known path the feed of the HTML link is returned.
\<close>

lemma well_known_before_html_link:
  "find (probeOk (siteEnv 404) (normalizeSiteUrl ''b.example/'')) WELL_KNOWN_PATHS = Some ''/rss.xml''
   \<and> map_sum id (\<lambda>found. (fd_feedUrl found, fd_discoveryMethod found))
         (discoverFeed (siteEnv 404) ''b.example/'')
       = Inr (''https://b.example/rss.xml'', WellKnownPath)"
proof -
  have h1: "\<forall>p \<in> set WELL_KNOWN_PATHS.
             \<exists>u. resolveUrl (siteEnv 404) p (normalizeSiteUrl ''b.example/'') = Inr u \<and> u \<noteq> []"
    by (simp add: site_defs)
  have h2: "find (probeOk (siteEnv 404) (normalizeSiteUrl ''b.example/'')) WELL_KNOWN_PATHS
              = Some ''/rss.xml''"
    by (simp add: site_defs)
  have h3: "resolveUrl (siteEnv 404) ''/rss.xml'' (normalizeSiteUrl ''b.example/'')
              = Inr ''https://b.example/rss.xml''"
    by (simp add: site_defs)
  from discoverFeed_well_known_first [OF h1 h2] obtain found where
    "discoverFeed (siteEnv 404) ''b.example/'' = Inr found"
    "fd_discoveryMethod found = WellKnownPath"
    "resolveUrl (siteEnv 404) ''/rss.xml'' (normalizeSiteUrl ''b.example/'') = Inr (fd_feedUrl found)"
    by blast
  with h2 h3 show ?thesis
    by simp
qed

lemma html_link_method_reachable:
  "map_sum id (\<lambda>found. (fd_feedUrl found, fd_discoveryMethod found))
     (discoverFeed
        (stubEnv\<lparr>
           httpGet := (\<lambda>url headers.
              if url = ''https://b.example'' \<or> url = ''https://b.example/blog.atom''
              then Inr (reply 200) else Inl (Error ''fetch failed'')),
           alternateLinks := (\<lambda>html. [(Some ''application/atom+xml'', Some ''/blog.atom'')])\<rparr>)
        ''b.example/'')
   = Inr (''https://b.example/blog.atom'', HtmlLinkTag)"
  by (simp add: discoverFeed_def discoverFeedFromHtml_def checkFeedUrl_def checkFailed_def
      linkFeedType_def site_defs)

text \<open>
  C8: the claim gives the feed of the first well-known path that answers with a
  classifiable 200 response. \<open>checkFeedUrl\<close>, under its comment \<^verbatim>\<open>// Must be 200 OK\<close>,
  tests \<^verbatim>\<open>response.ok\<close>, which every status from 200 to 299 passes. On the example site
  \<open>/feed.xml\<close> answers 201 and \<open>/rss.xml\<close> answers 200: the first path with a
  classifiable 200 response is \<open>/rss.xml\<close>, and discovery returns \<open>/feed.xml\<close>, whose
  response is not a 200 response. The method it reports is well-known-path.
\<close>

theorem C8_non_200_probe_wins:
  "map (\<lambda>p. map_sum id status (httpGet (siteEnv 201) (''https://b.example'' @ p) [userAgent]))
       (take 2 WELL_KNOWN_PATHS)
     = [Inr 201, Inr 200]
   \<and> find (probe200 (siteEnv 201) (normalizeSiteUrl ''b.example/'')) WELL_KNOWN_PATHS = Some ''/rss.xml''
   \<and> map_sum id (\<lambda>found. (fd_feedUrl found, fd_discoveryMethod found))
         (discoverFeed (siteEnv 201) ''b.example/'')
       = Inr (''https://b.example/feed.xml'', WellKnownPath)"
  by (simp add: discoverFeed_def normalizeSiteUrl_def trim_def isSpace_def WELL_KNOWN_PATHS_def
      probe200_def siteEnv_def stubEnv_def reply_def checkFeedUrl_def ok_def classify_def
      detectFeedType_def toLowerCase_def jsOrStr_def truthy_def userAgent_def Let_def)

section \<open>C4: the hash attached to a parsed feed item\<close>

lemma mapE_Inr:
  "mapE f xs = Inr ys \<Longrightarrow> \<forall>y \<in> set ys. \<exists>x \<in> set xs. f x = Inr y"
proof (induction xs arbitrary: ys)
  case Nil
  then show ?case by simp
next
  case (Cons x xs)
  then obtain y ys' where "f x = Inr y" "mapE f xs = Inr ys'" "ys = y # ys'"
    by (auto split: sum.splits)
  with Cons.IH [of ys'] show ?case by auto
qed

lemma parseRssItem_hash:
  assumes "parseRssItem env item = Inr p"
  shows "pf_contentHtml p
           = jsOr (jsOr (jsOr (ri_contentEncoded item) (ri_content_encoded item)) (ri_content item)) None
       \<and> pf_url p = Some (jsOrStr (ri_link item) (jsOrStr (jsOr (ri_guid item) (ri_link item)) []))
       \<and> pf_title p = jsOrStr (ri_title item) ''Untitled''
       \<and> pf_hash p = take 16 (sha256_hex (the (pf_url p) @ ''|'' @ jsOrStr (ri_title item) []
                                  @ ''|'' @ jsOrStr (pf_contentHtml p) []))"
  using assms
  by (auto simp: parseRssItem_def generateContentHash_def hashData_def Let_def split: sum.splits)

lemma parseJsonItem_hash:
  assumes "parseJsonItem env item = Inr p"
  shows "pf_contentHtml p = jsOr (ji_content_html item) None
       \<and> pf_url p = strOf (jsOrV (ji_url item) (ji_id item))
       \<and> pf_title p = jsOrStr (ji_title item) ''Untitled''
       \<and> pf_hash p = take 16 (sha256_hex (tmpl (jsOrV (ji_url item) (ji_id item)) @ ''|''
                                  @ jsOrStr (ji_title item) []
                                  @ ''|'' @ jsOrStr (jsOr (pf_contentHtml p) (ji_content_text item)) []))"
  using assms
  by (auto simp: parseJsonItem_def generateContentHash_def hashData_def Let_def split: sum.splits)

lemma hash_without_summary: "generateContentHash ''u'' ''t'' [] = ''f5cada333d017786''"
  by code_simp

lemma hash_with_summary: "generateContentHash ''u'' ''t'' ''S'' = ''ef38b0ada152232d''"
  by code_simp

lemma hash_of_null_url: "generateContentHash ''null'' ''t'' [] = ''ba99abc16c4ce372''"
  by code_simp

lemma summaryOnly_parsed:
  "parseJsonItem stubEnv summaryOnlyItem = Inr \<lparr>
     pf_title = ''t'', pf_url = Some ''u'', pf_description = Some ''S'', pf_contentHtml = None,
     pf_publishedAt = ''t1'', pf_author = None,
     pf_hash = generateContentHash ''u'' ''t'' [], pf_guid = None \<rparr>"
  by (simp add: parseJsonItem_def summaryOnlyItem_def stubEnv_def publishedAtOf_def jsOr_def
      jsOrStr_def truthy_def tmpl_def jsOrV_def truthyV_def strOf_def Let_def)

lemma nullId_parsed:
  "parseJsonItem stubEnv nullIdItem = Inr \<lparr>
     pf_title = ''t'', pf_url = None, pf_description = Some [], pf_contentHtml = None,
     pf_publishedAt = ''t1'', pf_author = None,
     pf_hash = generateContentHash ''null'' ''t'' [], pf_guid = None \<rparr>"
  by (simp add: parseJsonItem_def nullIdItem_def stubEnv_def publishedAtOf_def jsOr_def
      jsOrStr_def truthy_def tmpl_def jsOrV_def truthyV_def strOf_def Let_def
      stripHtmlTags_def trim_def)

text \<open>
  C4, the claim as stated, fails in the fallback: a JSON Feed item with a summary and no
  content is hashed over the empty content, not over its summary. The hash attached to the
  example item is \<open>f5cada333d017786\<close>, the digest of \<open>u|t|\<close>; the claim gives
  \<open>ef38b0ada152232d\<close>, the digest of \<open>u|t|S\<close>.
\<close>

theorem C4_summary_not_hashed_counterexample:
  "map_sum id (\<lambda>p. (pf_hash p, pf_url p, pf_title p, spec_contentOrSummary p))
       (parseJsonItem stubEnv summaryOnlyItem)
     = Inr (''f5cada333d017786'', Some ''u'', ''t'', ''S'')
   \<and> take 16 (sha256_hex (''u'' @ ''|'' @ ''t'' @ ''|'' @ ''S'')) = ''ef38b0ada152232d''
   \<and> ''f5cada333d017786'' \<noteq> ''ef38b0ada152232d''"
proof -
  have "take 16 (sha256_hex (''u'' @ ''|'' @ ''t'' @ ''|'' @ ''S'')) = generateContentHash ''u'' ''t'' ''S''"
    by (simp add: generateContentHash_def hashData_def)
  then show ?thesis
    by (simp add: summaryOnly_parsed hash_without_summary hash_with_summary
        spec_contentOrSummary_def jsOr_def jsOrStr_def truthy_def)
qed

text \<open>
  C4 as amended: the hash attached to a parsed item is the first 16 hexadecimal characters
  of SHA-256 over \<open>url | title | content\<close>. For an RSS or Atom item the url is the one
  attached to the item, and the content is \<open>content:encoded\<close>, else the parser's
  \<open>content\<close> field (where rss-parser puts the description of an RSS item), else the empty
  string. For a JSON Feed item the url is \<open>url\<close>, else \<open>id\<close>, as a template literal
  renders it (the text \<open>undefined\<close> or \<open>null\<close> when neither is a non-empty string),
  and the content is \<open>content_html\<close>, else \<open>content_text\<close>, else the empty string: the
  \<open>summary\<close> is not used. The title is the title of the source item, or the empty
  string when it has none (the attached title is then \<open>Untitled\<close>). Every item of a
  parsed feed is such an item.
\<close>

theorem C4_attached_hash:
  "(parseRssItem env item = Inr p \<longrightarrow>
      pf_contentHtml p
        = jsOr (jsOr (jsOr (ri_contentEncoded item) (ri_content_encoded item)) (ri_content item)) None
      \<and> pf_hash p = take 16 (sha256_hex (the (pf_url p) @ ''|'' @ jsOrStr (ri_title item) []
                                 @ ''|'' @ jsOrStr (pf_contentHtml p) []))
      \<and> length (pf_hash p) = 16)
   \<and> (parseJsonItem env jitem = Inr q \<longrightarrow>
      pf_contentHtml q = jsOr (ji_content_html jitem) None
      \<and> pf_url q = strOf (jsOrV (ji_url jitem) (ji_id jitem))
      \<and> pf_hash q = take 16 (sha256_hex (tmpl (jsOrV (ji_url jitem) (ji_id jitem)) @ ''|''
                                 @ jsOrStr (ji_title jitem) []
                                 @ ''|'' @ jsOrStr (jsOr (pf_contentHtml q) (ji_content_text jitem)) []))
      \<and> length (pf_hash q) = 16)
   \<and> (parseRssOrAtom env content = Inr feed \<longrightarrow>
        (\<forall>x \<in> set (feed_items feed). \<exists>raw. parseRssItem env raw = Inr x))
   \<and> (parseJsonFeed env content = Inr jfeed \<longrightarrow>
        (\<forall>x \<in> set (feed_items jfeed). \<exists>raw. parseJsonItem env raw = Inr x))"
proof (intro conjI impI)
  assume a: "parseRssItem env item = Inr p"
  from parseRssItem_hash [OF a] show
    "pf_contentHtml p
       = jsOr (jsOr (jsOr (ri_contentEncoded item) (ri_content_encoded item)) (ri_content item)) None"
    "pf_hash p = take 16 (sha256_hex (the (pf_url p) @ ''|'' @ jsOrStr (ri_title item) []
                                 @ ''|'' @ jsOrStr (pf_contentHtml p) []))"
    by simp_all
  then show "length (pf_hash p) = 16"
    by (simp add: length_sha256_hex)
next
  assume a: "parseJsonItem env jitem = Inr q"
  from parseJsonItem_hash [OF a] show
    "pf_contentHtml q = jsOr (ji_content_html jitem) None"
    "pf_url q = strOf (jsOrV (ji_url jitem) (ji_id jitem))"
    "pf_hash q = take 16 (sha256_hex (tmpl (jsOrV (ji_url jitem) (ji_id jitem)) @ ''|''
                                 @ jsOrStr (ji_title jitem) []
                                 @ ''|'' @ jsOrStr (jsOr (pf_contentHtml q) (ji_content_text jitem)) []))"
    by simp_all
  then show "length (pf_hash q) = 16"
    by (simp add: length_sha256_hex)
next
  assume "parseRssOrAtom env content = Inr feed"
  then obtain raws where "mapE (parseRssItem env) raws = Inr (feed_items feed)"
    by (auto simp: parseRssOrAtom_def split: sum.splits)
  from mapE_Inr [OF this] show "\<forall>x \<in> set (feed_items feed). \<exists>raw. parseRssItem env raw = Inr x"
    by blast
next
  assume "parseJsonFeed env content = Inr jfeed"
  then obtain raws where "mapE (parseJsonItem env) raws = Inr (feed_items jfeed)"
    by (auto simp: parseJsonFeed_def split: sum.splits)
  from mapE_Inr [OF this] show "\<forall>x \<in> set (feed_items jfeed). \<exists>raw. parseJsonItem env raw = Inr x"
    by blast
qed

lemma contentItem_parsed:
  "parseRssItem stubEnv contentItem = Inr \<lparr>
     pf_title = ''t'', pf_url = Some ''u'', pf_description = Some ''d'', pf_contentHtml = Some ''c'',
     pf_publishedAt = ''t1'', pf_author = None,
     pf_hash = generateContentHash ''u'' ''t'' ''c'', pf_guid = Some ''u'' \<rparr>"
  by (simp add: parseRssItem_def contentItem_def stubEnv_def publishedAtOf_def jsOr_def
      jsOrStr_def truthy_def stripHtmlTags_def trim_def isSpace_def Let_def)

theorem C4_attached_hash_witness:
  "map_sum id pf_hash (parseRssItem stubEnv contentItem) = Inr (take 16 (sha256_hex ''u|t|c''))
   \<and> map_sum id pf_hash (parseJsonItem stubEnv summaryOnlyItem) = Inr (take 16 (sha256_hex ''u|t|''))
   \<and> map_sum id (\<lambda>q. (pf_hash q, pf_url q)) (parseJsonItem stubEnv nullIdItem)
       = Inr (take 16 (sha256_hex ''null|t|''), None)
   \<and> take 16 (sha256_hex ''null|t|'') = ''ba99abc16c4ce372''"
proof -
  let ?p = "\<lparr> pf_title = ''t'', pf_url = Some ''u'', pf_description = Some ''d'',
              pf_contentHtml = Some ''c'', pf_publishedAt = ''t1'', pf_author = None,
              pf_hash = generateContentHash ''u'' ''t'' ''c'', pf_guid = Some ''u'' \<rparr>"
  let ?q = "\<lparr> pf_title = ''t'', pf_url = Some ''u'', pf_description = Some ''S'',
              pf_contentHtml = None, pf_publishedAt = ''t1'', pf_author = None,
              pf_hash = generateContentHash ''u'' ''t'' [], pf_guid = None \<rparr>"
  let ?n = "\<lparr> pf_title = ''t'', pf_url = None, pf_description = Some [],
              pf_contentHtml = None, pf_publishedAt = ''t1'', pf_author = None,
              pf_hash = generateContentHash ''null'' ''t'' [], pf_guid = None \<rparr>"
  note inst = C4_attached_hash [where env = stubEnv and item = contentItem and p = ?p
                and jitem = summaryOnlyItem and q = ?q]
  note inst_null = C4_attached_hash [where env = stubEnv and jitem = nullIdItem and q = ?n]
  from inst contentItem_parsed have
    "pf_hash ?p = take 16 (sha256_hex (the (pf_url ?p) @ ''|'' @ jsOrStr (ri_title contentItem) []
                                 @ ''|'' @ jsOrStr (pf_contentHtml ?p) []))"
    by blast
  then have h1: "generateContentHash ''u'' ''t'' ''c'' = take 16 (sha256_hex ''u|t|c'')"
    by (simp add: contentItem_def jsOrStr_def)
  from inst summaryOnly_parsed have
    "pf_hash ?q = take 16 (sha256_hex (tmpl (jsOrV (ji_url summaryOnlyItem) (ji_id summaryOnlyItem)) @ ''|''
                                 @ jsOrStr (ji_title summaryOnlyItem) []
                                 @ ''|'' @ jsOrStr (jsOr (pf_contentHtml ?q) (ji_content_text summaryOnlyItem)) []))"
    by blast
  then have h2: "generateContentHash ''u'' ''t'' [] = take 16 (sha256_hex ''u|t|'')"
    by (simp add: summaryOnlyItem_def jsOr_def jsOrStr_def truthy_def tmpl_def jsOrV_def truthyV_def)
  from inst_null nullId_parsed have
    "pf_hash ?n = take 16 (sha256_hex (tmpl (jsOrV (ji_url nullIdItem) (ji_id nullIdItem)) @ ''|''
                                 @ jsOrStr (ji_title nullIdItem) []
                                 @ ''|'' @ jsOrStr (jsOr (pf_contentHtml ?n) (ji_content_text nullIdItem)) []))"
    by blast
  then have h3: "generateContentHash ''null'' ''t'' [] = take 16 (sha256_hex ''null|t|'')"
    by (simp add: nullIdItem_def jsOr_def jsOrStr_def truthy_def tmpl_def jsOrV_def truthyV_def)
  from h3 hash_of_null_url have h4: "take 16 (sha256_hex ''null|t|'') = ''ba99abc16c4ce372''"
    by simp
  show ?thesis
    by (simp add: contentItem_parsed summaryOnly_parsed nullId_parsed h1 h2 h3 h4)
qed

end
